theory Spec2Isabelle
  imports Main "HOL-Library.Char_ord" "HOL-Library.List_Lexorder"
begin

section \<open>The relational store of app.py\<close>

text \<open>
  The application keeps its state in SQLite tables (\<open>init_db\<close>). A table is a list of
  rows in rowid order; a row is a record of the columns the synchronisation code reads or
  writes. Text columns are strings, nullable columns are options. Timestamps are the ISO
  strings of \<open>now_ts()\<close>, compared as SQLite compares text (bytewise, a proper prefix
  first); calendar dates (\<open>date.today()\<close>, \<open>last_active_date\<close>) are day numbers,
  so that \<open>today - timedelta(days=1)\<close> is \<open>today - 1\<close>.
\<close>

type_synonym timestamp = string
type_synonym date = int

datatype error = ZeroDivisionError | TypeError | IntegrityError

record user =
  user_id :: nat
  streak_count :: int
  last_active_date :: "date option"

record classroom =
  classroom_id :: nat
  teacher_id :: nat
  classroom_code :: string

record classroom_student =
  cs_classroom_id :: nat
  cs_student_id :: nat
  joined_at :: timestamp

record assignment =
  assignment_id :: nat
  a_classroom_id :: nat
  lesson_id :: int
  lesson_lang :: string
  due_date :: "string option"
  a_comment :: string
  a_created_at :: timestamp

record submission =
  submission_id :: nat
  s_assignment_id :: nat
  s_student_id :: nat
  status :: string
  completed_at :: "timestamp option"
  score :: "int option"
  student_comment :: "string option"
  grade_out_of_10 :: "int option"

record progress_row =
  p_student_id :: nat
  p_lesson_id :: int
  p_lesson_lang :: string
  p_completed_at :: timestamp
  p_score :: int
  p_xp :: int

text \<open>
  Notifications and stream posts carry a formatted \<open>body\<close> text in the source; no
  decision of the code depends on it and the rows here leave it out.
\<close>

record notification =
  n_user_id :: nat
  n_title :: string
  n_classroom_id :: "nat option"
  is_read :: bool
  n_created_at :: timestamp

record stream_post =
  sp_classroom_id :: nat
  author_id :: nat
  kind :: string
  sp_title :: string
  audience :: string
  sp_student_id :: "nat option"
  sp_created_at :: timestamp

text \<open>
  The two \<open>_seq\<close> fields are the rows of \<open>sqlite_sequence\<close> for the two
  AUTOINCREMENT tables whose ids the code uses afterwards.
\<close>

record db =
  users :: "user list"
  classrooms :: "classroom list"
  classroom_students :: "classroom_student list"
  assignments :: "assignment list"
  assignments_seq :: nat
  assignment_submissions :: "submission list"
  assignment_submissions_seq :: nat
  progress :: "progress_row list"
  notifications :: "notification list"
  stream_posts :: "stream_post list"

text \<open>The lesson file \<open>data/lessons.json\<close>, as \<open>load_lessons\<close> returns it.\<close>

record question =
  q_question :: string
  q_choices :: "string list"
  q_answer :: string

record lesson =
  l_id :: int
  l_xp :: "int option"
  quiz :: "question list"

record language =
  lang_id :: string
  lessons :: "lesson list"

text \<open>The Flask session: \<open>session["user_id"]\<close>, \<open>None\<close> when the key is absent
  (\<open>require_login\<close> redirects then), and \<open>session.get("role")\<close>.\<close>

record session =
  sess_user_id :: "nat option"
  sess_role :: "string option"

definition require_role :: "session \<Rightarrow> string \<Rightarrow> bool" where
  "require_role sess r \<longleftrightarrow> sess_role sess \<noteq> Some r"

text \<open>The store right after \<open>init_db\<close>: every table empty.\<close>

definition empty_db :: db where
  "empty_db = \<lparr>users = [], classrooms = [], classroom_students = [], assignments = [],
     assignments_seq = 0, assignment_submissions = [], assignment_submissions_seq = 0,
     progress = [], notifications = [], stream_posts = []\<rparr>"

section \<open>Streak tracker\<close>

text \<open>
  \<open>update_streak\<close> reads the user's row with \<open>fetchone()\<close>; on a missing row the
  subscript \<open>row["last_active_date"]\<close> raises \<open>TypeError\<close>. The UPDATE changes every
  row with the id.
\<close>

definition get_user :: "db \<Rightarrow> nat \<Rightarrow> user option" where
  "get_user d uid = find (\<lambda>u. user_id u = uid) (users d)"

definition update_streak :: "date \<Rightarrow> db \<Rightarrow> nat \<Rightarrow> error + db" where
  "update_streak today d uid =
     (case get_user d uid of
        None \<Rightarrow> Inl TypeError
      | Some row \<Rightarrow>
          (let last_date = last_active_date row;
               streak = streak_count row;
               new_streak =
                 (if last_date = Some today then streak
                  else if last_date = Some (today - 1) then streak + 1
                  else 1)
           in Inr (d\<lparr>users :=
                map (\<lambda>u. if user_id u = uid
                          then u\<lparr>streak_count := new_streak, last_active_date := Some today\<rparr>
                          else u) (users d)\<rparr>)))"

text \<open>
  The streak counts a user shows after each of a list of activity days, one
  \<open>update_streak\<close> call per day.
\<close>

fun streak_counts :: "db \<Rightarrow> nat \<Rightarrow> date list \<Rightarrow> error + int list" where
  "streak_counts d uid [] = Inr []"
| "streak_counts d uid (today # days) =
     (case update_streak today d uid of
        Inl e \<Rightarrow> Inl e
      | Inr d' \<Rightarrow>
          (case get_user d' uid of
             None \<Rightarrow> Inl TypeError
           | Some row \<Rightarrow>
               (case streak_counts d' uid days of
                  Inl e \<Rightarrow> Inl e
                | Inr cs \<Rightarrow> Inr (streak_count row # cs))))"

section \<open>Rows, rowids and the clock\<close>

text \<open>
  An AUTOINCREMENT table gives a new row the rowid one above the largest rowid the table
  has held, which \<open>sqlite_sequence\<close> remembers. SQLite draws the rowid before it checks
  the UNIQUE constraint, so an INSERT OR IGNORE that is ignored, and an upsert that
  updates, still advance the sequence.

  A request reads the clock \<open>now_ts()\<close> several times. \<open>now_ts k\<close> is the reading
  number \<open>k\<close> of the request; the functions below carry the number of readings taken
  so far next to the store.
\<close>

definition next_rowid :: "nat \<Rightarrow> nat list \<Rightarrow> nat" where
  "next_rowid seq ids = Suc (fold max ids seq)"

definition existing_progress :: "db \<Rightarrow> nat \<Rightarrow> string \<Rightarrow> int \<Rightarrow> progress_row option" where
  "existing_progress d sid lang lid =
     find (\<lambda>p. p_student_id p = sid \<and> p_lesson_lang p = lang \<and> p_lesson_id p = lid) (progress d)"

definition submission_for :: "db \<Rightarrow> nat \<Rightarrow> nat \<Rightarrow> submission option" where
  "submission_for d aid sid =
     find (\<lambda>s. s_assignment_id s = aid \<and> s_student_id s = sid) (assignment_submissions d)"

text \<open>
  \<open>INSERT OR IGNORE INTO assignment_submissions (assignment_id, student_id, status,
  completed_at, score)\<close>: the other columns are NULL; a row with the same
  \<open>(assignment_id, student_id)\<close> makes the statement a no-op on the table.
\<close>

definition insert_or_ignore_submission ::
  "db \<Rightarrow> nat \<Rightarrow> nat \<Rightarrow> string \<Rightarrow> timestamp option \<Rightarrow> int option \<Rightarrow> db" where
  "insert_or_ignore_submission d aid sid st cat sc =
     (let rowid = next_rowid (assignment_submissions_seq d)
                    (map submission_id (assignment_submissions d))
      in if submission_for d aid sid \<noteq> None
         then d\<lparr>assignment_submissions_seq := rowid\<rparr>
         else d\<lparr>assignment_submissions := assignment_submissions d @
                  [\<lparr>submission_id = rowid, s_assignment_id = aid, s_student_id = sid,
                    status = st, completed_at = cat, score = sc,
                    student_comment = None, grade_out_of_10 = None\<rparr>],
                assignment_submissions_seq := rowid\<rparr>)"

section \<open>Submission synchroniser\<close>

text \<open>
  The body of the loops of \<open>ensure_assignment_submissions\<close>, \<open>student_classroom\<close>
  (POST) and \<open>join_class_by_code\<close>, which the source writes out three times: look the
  progress row up, derive status, completion time and score, insert if absent. The clock
  is read only when a progress row exists.
\<close>

definition reconcile ::
  "(nat \<Rightarrow> timestamp) \<Rightarrow> nat \<Rightarrow> string \<Rightarrow> int \<Rightarrow> nat \<Rightarrow> db \<times> nat \<Rightarrow> db \<times> nat" where
  "reconcile now_ts aid lang lid sid = (\<lambda>(d, k).
     (case existing_progress d sid lang lid of
        None \<Rightarrow> (insert_or_ignore_submission d aid sid ''assigned'' None None, k)
      | Some p \<Rightarrow>
          (insert_or_ignore_submission d aid sid ''completed'' (Some (now_ts k))
             (Some (p_score p)), Suc k)))"

definition ensure_assignment_submissions ::
  "(nat \<Rightarrow> timestamp) \<Rightarrow> nat \<Rightarrow> nat \<Rightarrow> string \<Rightarrow> int \<Rightarrow> db \<times> nat \<Rightarrow> db \<times> nat" where
  "ensure_assignment_submissions now_ts aid cid lang lid = (\<lambda>(d, k).
     (let students = filter (\<lambda>cs. cs_classroom_id cs = cid) (classroom_students d)
      in fold (\<lambda>student. reconcile now_ts aid lang lid (cs_student_id student)) students (d, k)))"

text \<open>
  \<open>_complete_assignment_if_any\<close>: the three-table join selects submission ids, one
  per matching row of the join; each id is then updated on its own.
\<close>

definition pending_submissions :: "db \<Rightarrow> nat \<Rightarrow> string \<Rightarrow> int \<Rightarrow> nat list" where
  "pending_submissions d uid lang lid =
     [submission_id s.
        s \<leftarrow> assignment_submissions d, a \<leftarrow> assignments d, cs \<leftarrow> classroom_students d,
        assignment_id a = s_assignment_id s, cs_classroom_id cs = a_classroom_id a,
        s_student_id s = uid, lesson_id a = lid, lesson_lang a = lang,
        status s \<noteq> ''completed'']"

definition mark_completed :: "nat \<Rightarrow> timestamp \<Rightarrow> int \<Rightarrow> submission \<Rightarrow> submission" where
  "mark_completed sub ts sc s =
     (if submission_id s = sub
      then s\<lparr>status := ''completed'', completed_at := Some ts, score := Some sc\<rparr>
      else s)"

definition complete_assignment_if_any ::
  "(nat \<Rightarrow> timestamp) \<Rightarrow> nat \<Rightarrow> string \<Rightarrow> int \<Rightarrow> int \<Rightarrow> db \<times> nat \<Rightarrow> bool \<times> db \<times> nat" where
  "complete_assignment_if_any now_ts uid lang lid sc = (\<lambda>(d, k).
     (let submissions = pending_submissions d uid lang lid
      in (submissions \<noteq> [],
          fold (\<lambda>sub (d, k).
                 (d\<lparr>assignment_submissions :=
                      map (mark_completed sub (now_ts k) sc) (assignment_submissions d)\<rparr>,
                  Suc k))
            submissions (d, k))))"

section \<open>Quiz grading\<close>

text \<open>
  The score is \<open>int((correct_count / total) * 100)\<close>: a true division and a
  multiplication of Python floats (IEEE binary64, round to nearest, ties to even), then a
  truncation. A non-negative double is a pair \<open>(m, p)\<close> of integers standing for
  \<open>m * 2 ^ p\<close>. Every value met here lies between 0 and 100, far from overflow.
\<close>

function bit_length :: "int \<Rightarrow> nat" where
  "bit_length n = (if n \<le> 0 then 0 else Suc (bit_length (n div 2)))"
  by pat_completeness auto
termination
  by (relation "measure nat") auto

declare bit_length.simps [simp del]

definition ilog2 :: "int \<Rightarrow> int \<Rightarrow> int" where
  "ilog2 num den =
     (let e = int (bit_length num) - int (bit_length den)
      in if (if 0 \<le> e then den * 2 ^ nat e \<le> num else den \<le> num * 2 ^ nat (- e))
         then e else e - 1)"

definition round_half_even :: "int \<Rightarrow> int \<Rightarrow> int" where
  "round_half_even num den =
     (let f = num div den; r = num mod den
      in if 2 * r < den then f
         else if den < 2 * r then f + 1
         else if even f then f else f + 1)"

definition to_binary64 :: "int \<Rightarrow> int \<Rightarrow> int \<times> int" where
  "to_binary64 num den =
     (if num = 0 then (0, 0)
      else (let p = max (ilog2 num den - 52) (- 1074)
            in (if 0 \<le> p then round_half_even num (den * 2 ^ nat p)
                else round_half_even (num * 2 ^ nat (- p)) den, p)))"

definition float_mul_int :: "int \<times> int \<Rightarrow> int \<Rightarrow> int \<times> int" where
  "float_mul_int x n =
     (case x of (m, p) \<Rightarrow>
        if 0 \<le> p then to_binary64 (m * 2 ^ nat p * n) 1
        else to_binary64 (m * n) (2 ^ nat (- p)))"

definition float_to_int :: "int \<times> int \<Rightarrow> int" where
  "float_to_int x = (case x of (m, p) \<Rightarrow> if 0 \<le> p then m * 2 ^ nat p else m div 2 ^ nat (- p))"

definition quiz_score :: "nat \<Rightarrow> nat \<Rightarrow> error + int" where
  "quiz_score correct_count total_count =
     (if total_count = 0 then Inl ZeroDivisionError
      else Inr (float_to_int
                  (float_mul_int (to_binary64 (int correct_count) (int total_count)) 100)))"

definition get_language :: "language list \<Rightarrow> string \<Rightarrow> language option" where
  "get_language data lang = find (\<lambda>l. lang_id l = lang) data"

definition get_lesson :: "language list \<Rightarrow> string \<Rightarrow> int \<Rightarrow> lesson option" where
  "get_lesson data lang lid =
     (case get_language data lang of
        None \<Rightarrow> None
      | Some l \<Rightarrow> find (\<lambda>x. l_id x = lid) (lessons l))"

definition get_student_progress :: "db \<Rightarrow> nat \<Rightarrow> string \<Rightarrow> int set" where
  "get_student_progress d uid lang =
     set (map p_lesson_id (filter (\<lambda>p. p_student_id p = uid \<and> p_lesson_lang p = lang) (progress d)))"

text \<open>
  What a handler answers: a redirect, a redirect after \<open>flash(message)\<close>, or a rendered
  page with the values the claims speak of. \<open>join_class_by_code\<close> stores the code in
  the session of a visitor who is not logged in.
\<close>

datatype response =
    Redirect string
  | Flash string string
  | RedirectPending string
  | LessonPage int bool bool bool
  | ClassroomPage "(assignment \<times> string option) list" "stream_post list"

definition correct_answers :: "question list \<Rightarrow> (nat \<Rightarrow> string option) \<Rightarrow> nat" where
  "correct_answers qs form =
     length (filter (\<lambda>(idx, question). form idx = Some (q_answer question)) (enumerate 0 qs))"

text \<open>
  The plain INSERT into \<open>progress\<close> raises on a row with the same
  \<open>(student_id, lesson_id, lesson_lang)\<close>.
\<close>

definition insert_progress :: "db \<Rightarrow> progress_row \<Rightarrow> error + db" where
  "insert_progress d row =
     (if existing_progress d (p_student_id row) (p_lesson_lang row) (p_lesson_id row) \<noteq> None
      then Inl IntegrityError
      else Inr (d\<lparr>progress := progress d @ [row]\<rparr>))"

text \<open>
  \<open>grade_quiz\<close>. \<open>form idx\<close> is \<open>request.form.get(f"q{idx}")\<close>. The answer is the
  response, or the exception that ends the request, and the store as the request leaves
  it: each write is committed as it is made.
\<close>

definition grade_quiz ::
  "language list \<Rightarrow> (nat \<Rightarrow> timestamp) \<Rightarrow> date \<Rightarrow> session \<Rightarrow> string \<Rightarrow> int \<Rightarrow>
   (nat \<Rightarrow> string option) \<Rightarrow> db \<Rightarrow> (error + response) \<times> db" where
  "grade_quiz data now_ts today sess lang lid form d =
     (case sess_user_id sess of
        None \<Rightarrow> (Inr (Redirect ''login''), d)
      | Some uid \<Rightarrow>
          if require_role sess ''Student'' then (Inr (Redirect ''teacher_home''), d)
          else (case get_lesson data lang lid of
             None \<Rightarrow> (Inr (Redirect ''student_home''), d)
           | Some lesson \<Rightarrow>
               (let total_count = length (quiz lesson);
                    correct_count = correct_answers (quiz lesson) form;
                    all_correct = (correct_count = total_count)
                in case quiz_score correct_count total_count of
                     Inl e \<Rightarrow> (Inl e, d)
                   | Inr sc \<Rightarrow>
                       (let completed = get_student_progress d uid lang;
                            passing_score = 70;
                            passed = (passing_score \<le> sc)
                        in if passed \<and> lid \<notin> completed
                           then (case insert_progress d
                                        \<lparr>p_student_id = uid, p_lesson_id = lid, p_lesson_lang = lang,
                                         p_completed_at = now_ts 0, p_score = sc,
                                         p_xp = (case l_xp lesson of None \<Rightarrow> 100 | Some x \<Rightarrow> x)\<rparr> of
                                   Inl e \<Rightarrow> (Inl e, d)
                                 | Inr d1 \<Rightarrow>
                                     (case update_streak today d1 uid of
                                        Inl e \<Rightarrow> (Inl e, d1)
                                      | Inr d2 \<Rightarrow>
                                          (case complete_assignment_if_any now_ts uid lang lid sc (d2, 1) of
                                             (assignment_completed, d3, k) \<Rightarrow>
                                               (Inr (LessonPage sc all_correct passed assignment_completed), d3))))
                           else (Inr (LessonPage sc all_correct passed False), d)))))"

section \<open>Joining a classroom\<close>

definition insert_or_ignore_classroom_student :: "db \<Rightarrow> nat \<Rightarrow> nat \<Rightarrow> timestamp \<Rightarrow> db" where
  "insert_or_ignore_classroom_student d cid uid ts =
     (if \<exists>cs \<in> set (classroom_students d). cs_classroom_id cs = cid \<and> cs_student_id cs = uid
      then d
      else d\<lparr>classroom_students := classroom_students d @
               [\<lparr>cs_classroom_id = cid, cs_student_id = uid, joined_at = ts\<rparr>]\<rparr>)"

text \<open>
  What \<open>student_classroom\<close> (POST) and \<open>join_class_by_code\<close> both do once the
  classroom is found: insert the membership if absent, then one \<open>reconcile\<close> per
  assignment of the classroom.
\<close>

definition join_classroom :: "(nat \<Rightarrow> timestamp) \<Rightarrow> nat \<Rightarrow> nat \<Rightarrow> db \<Rightarrow> db" where
  "join_classroom now_ts cid uid d =
     (let d1 = insert_or_ignore_classroom_student d cid uid (now_ts 0);
          assignments = filter (\<lambda>a. a_classroom_id a = cid) (assignments d1)
      in fst (fold (\<lambda>a. reconcile now_ts (assignment_id a) (lesson_lang a) (lesson_id a) uid)
                assignments (d1, 1)))"

text \<open>
  \<open>code\<close> is the form field after \<open>.strip().upper()\<close>, respectively the URL part
  after \<open>.upper()\<close>.
\<close>

definition student_classroom_post ::
  "(nat \<Rightarrow> timestamp) \<Rightarrow> session \<Rightarrow> string \<Rightarrow> db \<Rightarrow> response \<times> db" where
  "student_classroom_post now_ts sess code d =
     (case sess_user_id sess of
        None \<Rightarrow> (Redirect ''login'', d)
      | Some uid \<Rightarrow>
          if require_role sess ''Student'' then (Redirect ''teacher_home'', d)
          else (case find (\<lambda>c. classroom_code c = code) (classrooms d) of
             None \<Rightarrow> (Flash ''Classroom code not found.'' ''student_classroom'', d)
           | Some classroom \<Rightarrow>
               (Flash ''You joined the classroom!'' ''student_classroom'',
                join_classroom now_ts (classroom_id classroom) uid d)))"

definition join_class_by_code ::
  "(nat \<Rightarrow> timestamp) \<Rightarrow> session \<Rightarrow> string \<Rightarrow> db \<Rightarrow> response \<times> db" where
  "join_class_by_code now_ts sess code d =
     (case sess_user_id sess of
        None \<Rightarrow> (RedirectPending code, d)
      | Some uid \<Rightarrow>
          if sess_role sess \<noteq> Some ''Student''
          then (Flash ''Only students can join classrooms.'' ''teacher_home'', d)
          else (case find (\<lambda>c. classroom_code c = code) (classrooms d) of
             None \<Rightarrow> (Flash ''Classroom code not found.'' ''student_classroom'', d)
           | Some classroom \<Rightarrow>
               (Flash ''You joined the classroom!'' ''student_classroom'',
                join_classroom now_ts (classroom_id classroom) uid d)))"

section \<open>Notifications and the stream\<close>

definition create_notification :: "db \<Rightarrow> nat \<Rightarrow> string \<Rightarrow> nat option \<Rightarrow> timestamp \<Rightarrow> db" where
  "create_notification d uid title cid ts =
     d\<lparr>notifications := notifications d @
        [\<lparr>n_user_id = uid, n_title = title, n_classroom_id = cid, is_read = False,
          n_created_at = ts\<rparr>]\<rparr>"

definition create_stream_post ::
  "db \<Rightarrow> nat \<Rightarrow> nat \<Rightarrow> string \<Rightarrow> string \<Rightarrow> string \<Rightarrow> nat option \<Rightarrow> timestamp \<Rightarrow> db" where
  "create_stream_post d cid author k title aud student ts =
     d\<lparr>stream_posts := stream_posts d @
        [\<lparr>sp_classroom_id = cid, author_id = author, kind = k, sp_title = title,
          audience = aud, sp_student_id = student, sp_created_at = ts\<rparr>]\<rparr>"

text \<open>
  \<open>get_stream_posts_for_student\<close>: the WHERE clause over the join with \<open>users\<close> and
  \<open>classrooms\<close>, ORDER BY created_at DESC, LIMIT 30. No index serves the query:
  SQLite scans \<open>stream_posts\<close> in rowid order, looks the author and the classroom up
  by primary key and sorts the rows found with a stable sorter, so rows with equal
  \<open>created_at\<close> stay in rowid order and LIMIT 30 drops the later inserted of them.
\<close>

definition get_stream_posts_for_student :: "db \<Rightarrow> nat list \<Rightarrow> nat \<Rightarrow> stream_post list" where
  "get_stream_posts_for_student d classroom_ids sid =
     (if classroom_ids = [] then []
      else take 30 (rev (sort_key sp_created_at (rev
             [p. p \<leftarrow> stream_posts d, u \<leftarrow> users d, c \<leftarrow> classrooms d,
                 user_id u = author_id p, classroom_id c = sp_classroom_id p,
                 sp_classroom_id p \<in> set classroom_ids,
                 audience p = ''class'' \<or> (audience p = ''student'' \<and> sp_student_id p = Some sid),
                 \<not> (kind p = ''grade'' \<and> audience p = ''class'')]))))"

section \<open>The teacher's operations\<close>

text \<open>
  \<open>teacher_create_assignment\<close>, after the form is read: \<open>lang\<close> and \<open>lid\<close> are the
  two parts of \<open>lesson_key\<close>, \<open>due\<close> is \<open>request.form.get("due_date")\<close>.
\<close>

definition teacher_create_assignment ::
  "(nat \<Rightarrow> timestamp) \<Rightarrow> session \<Rightarrow> nat \<Rightarrow> string \<Rightarrow> int \<Rightarrow> string option \<Rightarrow> string \<Rightarrow> db \<Rightarrow>
   response \<times> db" where
  "teacher_create_assignment now_ts sess cid lang lid due comment d =
     (case sess_user_id sess of
        None \<Rightarrow> (Redirect ''login'', d)
      | Some uid \<Rightarrow>
          if require_role sess ''Teacher'' then (Redirect ''student_home'', d)
          else (case find (\<lambda>c. classroom_id c = cid \<and> teacher_id c = uid) (classrooms d) of
             None \<Rightarrow> (Redirect ''teacher_home'', d)
           | Some classroom \<Rightarrow>
               (let aid = next_rowid (assignments_seq d) (map assignment_id (assignments d));
                    d1 = d\<lparr>assignments := assignments d @
                            [\<lparr>assignment_id = aid, a_classroom_id = cid, lesson_id = lid,
                              lesson_lang = lang, due_date = due, a_comment = comment,
                              a_created_at = now_ts 0\<rparr>],
                          assignments_seq := aid\<rparr>
                in case ensure_assignment_submissions now_ts aid cid lang lid (d1, 1) of
                     (d2, k) \<Rightarrow>
                       (let d3 = create_stream_post d2 cid uid ''assignment'' ''New assignment''
                                   ''class'' None (now_ts k);
                            students = filter (\<lambda>cs. cs_classroom_id cs = cid) (classroom_students d3)
                        in (Redirect ''teacher_classroom'',
                            fst (fold (\<lambda>student (d, k).
                                        (create_notification d (cs_student_id student)
                                           ''New assignment posted'' (Some cid) (now_ts k), Suc k))
                                   students (d3, Suc k)))))))"

text \<open>
  \<open>teacher_grade_submission\<close>. \<open>grade\<close> is \<open>request.form.get("grade")\<close>. Python's
  \<open>int\<close> is a parameter: \<open>py_int s\<close> is \<open>None\<close> where \<open>int(s)\<close> raises
  \<open>ValueError\<close>; \<open>int(None)\<close> raises \<open>TypeError\<close>, caught the same way.
  \<open>graded_submission\<close> is the SELECT over the join of the submission with its
  assignment, with \<open>fetchone()\<close>.
\<close>

definition graded_submission :: "db \<Rightarrow> nat \<Rightarrow> (submission \<times> assignment) option" where
  "graded_submission d sub =
     (case [(s, a). s \<leftarrow> assignment_submissions d, a \<leftarrow> assignments d,
                    assignment_id a = s_assignment_id s, submission_id s = sub] of
        [] \<Rightarrow> None
      | row # _ \<Rightarrow> Some row)"

definition teacher_grade_submission ::
  "(string \<Rightarrow> int option) \<Rightarrow> (nat \<Rightarrow> timestamp) \<Rightarrow> session \<Rightarrow> nat \<Rightarrow> string option \<Rightarrow> db \<Rightarrow>
   response \<times> db" where
  "teacher_grade_submission py_int now_ts sess sub grade d =
     (case sess_user_id sess of
        None \<Rightarrow> (Redirect ''login'', d)
      | Some uid \<Rightarrow>
          if require_role sess ''Teacher'' then (Redirect ''student_home'', d)
          else (case (case grade of None \<Rightarrow> None | Some g \<Rightarrow> py_int g) of
             None \<Rightarrow> (Flash ''Grade must be a number 0-10.'' ''referrer'', d)
           | Some grade_val \<Rightarrow>
               if grade_val < 0 \<or> 10 < grade_val
               then (Flash ''Grade must be between 0 and 10.'' ''referrer'', d)
               else (case graded_submission d sub of
                  None \<Rightarrow> (Flash ''Submission not found.'' ''referrer'', d)
                | Some (s, a) \<Rightarrow>
                    (let d1 = d\<lparr>assignment_submissions :=
                                 map (\<lambda>r. if submission_id r = sub
                                           then r\<lparr>grade_out_of_10 := Some grade_val\<rparr> else r)
                                   (assignment_submissions d)\<rparr>;
                         d2 = create_notification d1 (s_student_id s) ''Assignment graded''
                                (Some (a_classroom_id a)) (now_ts 0);
                         d3 = create_stream_post d2 (a_classroom_id a) uid ''grade'' ''Grade posted''
                                ''student'' (Some (s_student_id s)) (now_ts 1)
                     in (Flash ''Grade saved.'' ''referrer'', d3)))))"

section \<open>The student's classroom page\<close>

text \<open>
  \<open>student_classroom\<close> (GET) lists the assignments of the student's classrooms with
  the submission joined on (LEFT JOIN: \<open>None\<close> when there is none), newest first, and
  backfills: a listed assignment whose status is not completed and whose lesson has a
  progress row is upserted as completed.
\<close>

definition upsert_submission_completed :: "db \<Rightarrow> nat \<Rightarrow> nat \<Rightarrow> timestamp \<Rightarrow> int \<Rightarrow> db" where
  "upsert_submission_completed d aid sid ts sc =
     (let rowid = next_rowid (assignment_submissions_seq d)
                    (map submission_id (assignment_submissions d))
      in if submission_for d aid sid \<noteq> None
         then d\<lparr>assignment_submissions :=
                  map (\<lambda>s. if s_assignment_id s = aid \<and> s_student_id s = sid
                            then s\<lparr>status := ''completed'', completed_at := Some ts, score := Some sc\<rparr>
                            else s) (assignment_submissions d),
                assignment_submissions_seq := rowid\<rparr>
         else d\<lparr>assignment_submissions := assignment_submissions d @
                  [\<lparr>submission_id = rowid, s_assignment_id = aid, s_student_id = sid,
                    status = ''completed'', completed_at = Some ts, score = Some sc,
                    student_comment = None, grade_out_of_10 = None\<rparr>],
                assignment_submissions_seq := rowid\<rparr>)"

definition student_assignment_rows :: "db \<Rightarrow> nat \<Rightarrow> (assignment \<times> submission option) list" where
  "student_assignment_rows d uid =
     concat [case filter (\<lambda>s. s_assignment_id s = assignment_id a \<and> s_student_id s = cs_student_id cs)
                    (assignment_submissions d) of
               [] \<Rightarrow> [(a, None)]
             | ss \<Rightarrow> map (\<lambda>s. (a, Some s)) ss.
             a \<leftarrow> rev (sort_key a_created_at (assignments d)),
             cs \<leftarrow> classroom_students d, c \<leftarrow> classrooms d,
             cs_classroom_id cs = a_classroom_id a, classroom_id c = a_classroom_id a,
             cs_student_id cs = uid]"

definition backfill_row ::
  "(nat \<Rightarrow> timestamp) \<Rightarrow> nat \<Rightarrow> assignment \<times> submission option \<Rightarrow>
   db \<times> nat \<times> (assignment \<times> string option) list \<Rightarrow>
   db \<times> nat \<times> (assignment \<times> string option) list" where
  "backfill_row now_ts uid = (\<lambda>(a, s) (d, k, updated_assignments).
     if map_option status s \<noteq> Some ''completed''
     then (case existing_progress d uid (lesson_lang a) (lesson_id a) of
             None \<Rightarrow> (d, k, updated_assignments @ [(a, map_option status s)])
           | Some p \<Rightarrow>
               (upsert_submission_completed d (assignment_id a) uid (now_ts k) (p_score p),
                Suc k, updated_assignments @ [(a, Some ''completed'')]))
     else (d, k, updated_assignments @ [(a, map_option status s)]))"

definition student_classroom_get :: "(nat \<Rightarrow> timestamp) \<Rightarrow> session \<Rightarrow> db \<Rightarrow> response \<times> db" where
  "student_classroom_get now_ts sess d =
     (case sess_user_id sess of
        None \<Rightarrow> (Redirect ''login'', d)
      | Some uid \<Rightarrow>
          if require_role sess ''Student'' then (Redirect ''teacher_home'', d)
          else (let classroom_ids =
                      [classroom_id c. c \<leftarrow> classrooms d, cs \<leftarrow> classroom_students d,
                         cs_classroom_id cs = classroom_id c, cs_student_id cs = uid]
                in case fold (backfill_row now_ts uid) (student_assignment_rows d uid) (d, 0, []) of
                     (d', k, updated_assignments) \<Rightarrow>
                       (ClassroomPage updated_assignments
                          (get_stream_posts_for_student d' classroom_ids uid), d')))"

text \<open>
  The feed a student is shown: the \<open>stream_items\<close> of the rendered classroom page, the
  one place \<open>get_stream_posts_for_student\<close> is called from.
\<close>

fun stream_items :: "response \<Rightarrow> stream_post list" where
  "stream_items (ClassroomPage updated_assignments items) = items"
| "stream_items r = []"

definition student_feed :: "(nat \<Rightarrow> timestamp) \<Rightarrow> session \<Rightarrow> db \<Rightarrow> stream_post list" where
  "student_feed now_ts sess d = stream_items (fst (student_classroom_get now_ts sess d))"

section \<open>Requests, runs and the schema\<close>

text \<open>
  The six requests that write submissions or grades, each with the clock readings and
  the form it arrives with, and the store each leaves behind. A request that ends in an
  exception leaves what it had committed until then.
\<close>

datatype request =
    GradeQuiz "nat \<Rightarrow> timestamp" date session string int "nat \<Rightarrow> string option"
  | StudentClassroomPost "nat \<Rightarrow> timestamp" session string
  | JoinClassByCode "nat \<Rightarrow> timestamp" session string
  | TeacherCreateAssignment "nat \<Rightarrow> timestamp" session nat string int "string option" string
  | TeacherGradeSubmission "nat \<Rightarrow> timestamp" session nat "string option"
  | StudentClassroomGet "nat \<Rightarrow> timestamp" session

fun handle :: "language list \<Rightarrow> (string \<Rightarrow> int option) \<Rightarrow> request \<Rightarrow> db \<Rightarrow> db" where
  "handle data py_int (GradeQuiz now_ts today sess lang lid form) d =
     snd (grade_quiz data now_ts today sess lang lid form d)"
| "handle data py_int (StudentClassroomPost now_ts sess code) d =
     snd (student_classroom_post now_ts sess code d)"
| "handle data py_int (JoinClassByCode now_ts sess code) d =
     snd (join_class_by_code now_ts sess code d)"
| "handle data py_int (TeacherCreateAssignment now_ts sess cid lang lid due comment) d =
     snd (teacher_create_assignment now_ts sess cid lang lid due comment d)"
| "handle data py_int (TeacherGradeSubmission now_ts sess sub grade) d =
     snd (teacher_grade_submission py_int now_ts sess sub grade d)"
| "handle data py_int (StudentClassroomGet now_ts sess) d =
     snd (student_classroom_get now_ts sess d)"

fun session_of :: "request \<Rightarrow> session" where
  "session_of (GradeQuiz now_ts today sess lang lid form) = sess"
| "session_of (StudentClassroomPost now_ts sess code) = sess"
| "session_of (JoinClassByCode now_ts sess code) = sess"
| "session_of (TeacherCreateAssignment now_ts sess cid lang lid due comment) = sess"
| "session_of (TeacherGradeSubmission now_ts sess sub grade) = sess"
| "session_of (StudentClassroomGet now_ts sess) = sess"

text \<open>The requests that reconcile submissions: all but the teacher's grading.\<close>

fun reconciles :: "request \<Rightarrow> bool" where
  "reconciles (TeacherGradeSubmission now_ts sess sub grade) = False"
| "reconciles r = True"

definition run :: "language list \<Rightarrow> (string \<Rightarrow> int option) \<Rightarrow> request list \<Rightarrow> db \<Rightarrow> db" where
  "run data py_int rs d = fold (handle data py_int) rs d"

text \<open>
  The PRIMARY KEY and UNIQUE constraints of \<open>init_db\<close> on the tables above. SQLite
  enforces them on every write (foreign keys it does not enforce: the pragma is off).
\<close>

definition schema :: "db \<Rightarrow> bool" where
  "schema d \<longleftrightarrow>
     distinct (map user_id (users d)) \<and>
     distinct (map classroom_id (classrooms d)) \<and>
     distinct (map classroom_code (classrooms d)) \<and>
     distinct (map (\<lambda>cs. (cs_classroom_id cs, cs_student_id cs)) (classroom_students d)) \<and>
     distinct (map assignment_id (assignments d)) \<and>
     distinct (map submission_id (assignment_submissions d)) \<and>
     distinct (map (\<lambda>s. (s_assignment_id s, s_student_id s)) (assignment_submissions d)) \<and>
     distinct (map (\<lambda>p. (p_student_id p, p_lesson_id p, p_lesson_lang p)) (progress d))"

text \<open>
  A session is made at sign-up or sign-in for a row of \<open>users\<close>, and no code deletes
  users: the user of a session has a row.
\<close>

definition session_ok :: "db \<Rightarrow> session \<Rightarrow> bool" where
  "session_ok d sess \<longleftrightarrow>
     (case sess_user_id sess of None \<Rightarrow> True | Some uid \<Rightarrow> get_user d uid \<noteq> None)"

text \<open>
  The stores the six requests can reach from a store that satisfies the schema and has
  no submission yet.
\<close>

inductive reachable :: "language list \<Rightarrow> (string \<Rightarrow> int option) \<Rightarrow> db \<Rightarrow> bool"
  for data :: "language list" and py_int :: "string \<Rightarrow> int option" where
  start: "schema d \<Longrightarrow> assignment_submissions d = [] \<Longrightarrow> reachable data py_int d"
| request: "reachable data py_int d \<Longrightarrow> session_ok d (session_of r) \<Longrightarrow>
     reachable data py_int (handle data py_int r d)"

text \<open>What a row looks like that reconciliation derived from the progress table.\<close>

definition derived_from ::
  "(nat \<Rightarrow> timestamp) \<Rightarrow> progress_row option \<Rightarrow> submission \<Rightarrow> bool" where
  "derived_from now_ts pr r \<longleftrightarrow>
     grade_out_of_10 r = None \<and>
     (case pr of
        None \<Rightarrow> status r = ''assigned'' \<and> completed_at r = None \<and> score r = None
      | Some p \<Rightarrow> status r = ''completed'' \<and> score r = Some (p_score p) \<and>
                  (\<exists>j. completed_at r = Some (now_ts j)))"

section \<open>Example data\<close>

text \<open>
  A classroom with its teacher (user 1), one member (user 7) who has passed lesson 3 of
  the Python track, one assignment of that lesson, and a third user not in the class.
\<close>

definition demo_db :: db where
  "demo_db = empty_db
     \<lparr>users := [\<lparr>user_id = 1, streak_count = 0, last_active_date = None\<rparr>,
                \<lparr>user_id = 7, streak_count = 1, last_active_date = Some 738000\<rparr>,
                \<lparr>user_id = 8, streak_count = 0, last_active_date = None\<rparr>],
      classrooms := [\<lparr>classroom_id = 1, teacher_id = 1, classroom_code = ''AB12CD''\<rparr>],
      classroom_students :=
        [\<lparr>cs_classroom_id = 1, cs_student_id = 7, joined_at = ''2024-01-02T08:00:00''\<rparr>],
      assignments :=
        [\<lparr>assignment_id = 1, a_classroom_id = 1, lesson_id = 3, lesson_lang = ''python'',
          due_date = None, a_comment = '''', a_created_at = ''2024-01-03T08:00:00''\<rparr>],
      assignments_seq := 1,
      progress :=
        [\<lparr>p_student_id = 7, p_lesson_id = 3, p_lesson_lang = ''python'',
          p_completed_at = ''2024-01-01T10:00:00'', p_score = 85, p_xp = 100\<rparr>]\<rparr>"

definition student7 :: session where
  "student7 = \<lparr>sess_user_id = Some 7, sess_role = Some ''Student''\<rparr>"

definition teacher1 :: session where
  "teacher1 = \<lparr>sess_user_id = Some 1, sess_role = Some ''Teacher''\<rparr>"

definition demo_clock :: "nat \<Rightarrow> timestamp" where
  "demo_clock k =
     (if k = 0 then ''2024-02-01T09:00:00.000000''
      else if k = 1 then ''2024-02-01T09:00:00.000001''
      else ''2024-02-01T09:00:00.000002'')"

text \<open>
  The store after user 7 has been given the assignment and the teacher has graded the
  submission with 5, and the values of Python's \<open>int\<close> on the strings the examples
  submit.
\<close>

definition graded_db :: db where
  "graded_db = demo_db
     \<lparr>assignment_submissions :=
        [\<lparr>submission_id = 1, s_assignment_id = 1, s_student_id = 7, status = ''completed'',
          completed_at = Some ''2024-01-03T08:00:00.000001'', score = Some 85,
          student_comment = None, grade_out_of_10 = Some 5\<rparr>],
      assignment_submissions_seq := 1\<rparr>"

definition demo_int :: "string \<Rightarrow> int option" where
  "demo_int g =
     (if g = ''8'' then Some 8 else if g = ''11'' then Some 11
      else if g = ''-1'' then Some (- 1) else None)"

section \<open>The student feed in the spec's words\<close>

text \<open>
  The WHERE clause of the feed query on a post, for the classroom ids and the student id
  it is called with.
\<close>

definition selected :: "nat list \<Rightarrow> nat \<Rightarrow> stream_post \<Rightarrow> bool" where
  "selected classroom_ids sid p \<longleftrightarrow>
     sp_classroom_id p \<in> set classroom_ids \<and>
     (audience p = ''class'' \<or> (audience p = ''student'' \<and> sp_student_id p = Some sid)) \<and>
     \<not> (kind p = ''grade'' \<and> audience p = ''class'')"

text \<open>
  The read contract of the feed as the spec words it: a post is for a student when it is
  in a classroom the student has joined and is for the class or addressed to this
  student, and is not a class-wide grade post.
\<close>

definition joined :: "db \<Rightarrow> nat \<Rightarrow> nat \<Rightarrow> bool" where
  "joined d sid cid \<longleftrightarrow>
     (\<exists>cs \<in> set (classroom_students d). cs_classroom_id cs = cid \<and> cs_student_id cs = sid)"

definition visible_to :: "db \<Rightarrow> nat \<Rightarrow> stream_post \<Rightarrow> bool" where
  "visible_to d sid p \<longleftrightarrow>
     joined d sid (sp_classroom_id p) \<and>
     (audience p = ''class'' \<or> (audience p = ''student'' \<and> sp_student_id p = Some sid)) \<and>
     \<not> (kind p = ''grade'' \<and> audience p = ''class'')"

text \<open>Newest first: no post is followed by a newer one.\<close>

definition newest_first :: "stream_post list \<Rightarrow> bool" where
  "newest_first ps \<longleftrightarrow> sorted_wrt (\<lambda>p q. sp_created_at q \<le> sp_created_at p) ps"

text \<open>
  Every post for the student has its author among the users and its classroom among the
  classrooms.
\<close>

definition posts_joinable :: "db \<Rightarrow> nat \<Rightarrow> bool" where
  "posts_joinable d sid \<longleftrightarrow>
     (\<forall>p \<in> set (stream_posts d). visible_to d sid p \<longrightarrow>
        author_id p \<in> set (map user_id (users d)) \<and>
        sp_classroom_id p \<in> set (map classroom_id (classrooms d)))"

text \<open>The classroom ids the page computes for the student before it asks for the feed.\<close>

definition joined_classroom_ids :: "db \<Rightarrow> nat \<Rightarrow> nat list" where
  "joined_classroom_ids d uid =
     [classroom_id c. c \<leftarrow> classrooms d, cs \<leftarrow> classroom_students d,
        cs_classroom_id cs = classroom_id c, cs_student_id cs = uid]"

text \<open>
  The classroom's stream with users 7 and 8 both members: an announcement, the grade
  posted for user 7, a class-wide grade post; and the same stream after thirty later
  announcements and one more written in the same microsecond as those.
\<close>

definition post_announcement :: stream_post where
  "post_announcement =
     \<lparr>sp_classroom_id = 1, author_id = 1, kind = ''announcement'', sp_title = ''Announcement'',
       audience = ''class'', sp_student_id = None, sp_created_at = ''2024-01-04T08:00:00''\<rparr>"

definition post_grade7 :: stream_post where
  "post_grade7 =
     \<lparr>sp_classroom_id = 1, author_id = 1, kind = ''grade'', sp_title = ''Grade posted'',
       audience = ''student'', sp_student_id = Some 7, sp_created_at = ''2024-01-05T08:00:00''\<rparr>"

definition post_grade_class :: stream_post where
  "post_grade_class =
     \<lparr>sp_classroom_id = 1, author_id = 1, kind = ''grade'', sp_title = ''Grades'',
       audience = ''class'', sp_student_id = None, sp_created_at = ''2024-01-06T08:00:00''\<rparr>"

definition post_later :: stream_post where
  "post_later =
     \<lparr>sp_classroom_id = 1, author_id = 1, kind = ''announcement'', sp_title = ''Announcement'',
       audience = ''class'', sp_student_id = None, sp_created_at = ''2024-02-01T08:00:00''\<rparr>"

definition post_last :: stream_post where
  "post_last =
     \<lparr>sp_classroom_id = 1, author_id = 1, kind = ''announcement'', sp_title = ''Last'',
       audience = ''class'', sp_student_id = None, sp_created_at = ''2024-02-01T08:00:00''\<rparr>"

definition feed_db :: db where
  "feed_db = demo_db
     \<lparr>classroom_students :=
        [\<lparr>cs_classroom_id = 1, cs_student_id = 7, joined_at = ''2024-01-02T08:00:00''\<rparr>,
         \<lparr>cs_classroom_id = 1, cs_student_id = 8, joined_at = ''2024-01-02T09:00:00''\<rparr>],
      stream_posts := [post_announcement, post_grade7, post_grade_class]\<rparr>"

definition busy_db :: db where
  "busy_db = feed_db\<lparr>stream_posts :=
     [post_announcement, post_grade7, post_grade_class] @ replicate 30 post_later @ [post_last]\<rparr>"

text \<open>
  A lesson file with one lesson of fifty questions, each answered by \<open>a\<close>, and a form
  that answers the first 29 of them correctly.
\<close>

definition long_quiz_data :: "language list" where
  "long_quiz_data =
     [\<lparr>lang_id = ''python'',
       lessons = [\<lparr>l_id = 9, l_xp = Some 100,
                   quiz = replicate 50
                     \<lparr>q_question = ''pick a'', q_choices = [''a'', ''b''], q_answer = ''a''\<rparr>\<rparr>]\<rparr>]"

definition form_29_right :: "nat \<Rightarrow> string option" where
  "form_29_right idx = (if idx < 29 then Some ''a'' else Some ''b'')"

definition student8 :: session where
  "student8 = \<lparr>sess_user_id = Some 8, sess_role = Some ''Student''\<rparr>"

text \<open>
  The rows after the loop: a row whose id was selected is completed with the given score
  and the clock reading of its last update; the other rows are as before.
\<close>

definition completed_with :: "timestamp \<Rightarrow> int \<Rightarrow> submission \<Rightarrow> submission" where
  "completed_with ts sc s = s\<lparr>status := ''completed'', completed_at := Some ts, score := Some sc\<rparr>"

text \<open>
  \<open>teacher_create_assignment\<close>, accepted: the assignment is appended with a fresh id,
  the submissions are those \<open>ensure_assignment_submissions\<close> leaves, and users,
  classrooms, memberships and progress are as before.
\<close>

definition new_assignment ::
  "(nat \<Rightarrow> timestamp) \<Rightarrow> nat \<Rightarrow> string \<Rightarrow> int \<Rightarrow> string option \<Rightarrow> string \<Rightarrow> db \<Rightarrow> assignment" where
  "new_assignment now_ts cid lang lid due comment d =
     \<lparr>assignment_id = next_rowid (assignments_seq d) (map assignment_id (assignments d)),
      a_classroom_id = cid, lesson_id = lid, lesson_lang = lang, due_date = due,
      a_comment = comment, a_created_at = now_ts 0\<rparr>"


definition insert_assignment ::
  "(nat \<Rightarrow> timestamp) \<Rightarrow> nat \<Rightarrow> string \<Rightarrow> int \<Rightarrow> string option \<Rightarrow> string \<Rightarrow> db \<Rightarrow> db" where
  "insert_assignment now_ts cid lang lid due comment d =
     d\<lparr>assignments := assignments d @ [new_assignment now_ts cid lang lid due comment d],
       assignments_seq := assignment_id (new_assignment now_ts cid lang lid due comment d)\<rparr>"

text \<open>
  A row of the classroom page is backfilled when its status is not completed and the
  lesson of its assignment has a progress row of the student.
\<close>

definition backfills :: "db \<Rightarrow> nat \<Rightarrow> assignment \<times> submission option \<Rightarrow> bool" where
  "backfills d uid x \<longleftrightarrow>
     map_option status (snd x) \<noteq> Some ''completed'' \<and>
     existing_progress d uid (lesson_lang (fst x)) (lesson_id (fst x)) \<noteq> None"

text \<open>
  What a request may do to an existing submission: the id, the key and the student's
  comment stay; the grade stays unless the request is the teacher's grading; a completed
  row keeps its status, completion time and score.
\<close>

definition kept_by :: "request \<Rightarrow> submission \<Rightarrow> submission \<Rightarrow> bool" where
  "kept_by r row row' \<longleftrightarrow>
     submission_id row' = submission_id row \<and>
     s_assignment_id row' = s_assignment_id row \<and>
     s_student_id row' = s_student_id row \<and>
     (reconciles r \<longrightarrow> grade_out_of_10 row' = grade_out_of_10 row)"

definition completion_kept :: "submission \<Rightarrow> submission \<Rightarrow> bool" where
  "completion_kept row row' \<longleftrightarrow>
     status row' = ''completed'' \<and> completed_at row' = completed_at row \<and> score row' = score row"

text \<open>
  The lesson file of the examples: lesson 3 of the Python track with twenty questions,
  and a form that answers seventeen of them correctly (score 85).
\<close>

definition demo_lessons :: "language list" where
  "demo_lessons =
     [\<lparr>lang_id = ''python'',
       lessons = [\<lparr>l_id = 3, l_xp = Some 50,
                   quiz = replicate 20
                     \<lparr>q_question = ''pick a'', q_choices = [''a'', ''b''], q_answer = ''a''\<rparr>\<rparr>]\<rparr>]"

definition form_17_right :: "nat \<Rightarrow> string option" where
  "form_17_right idx = (if idx < 17 then Some ''a'' else Some ''b'')"

text \<open>
  The same request sent once more: the same session and form, with the clock readings
  and the day of the second sending.
\<close>

fun again :: "(nat \<Rightarrow> timestamp) \<Rightarrow> date \<Rightarrow> request \<Rightarrow> request" where
  "again now_ts' today' (GradeQuiz now_ts today sess lang lid form) =
     GradeQuiz now_ts' today' sess lang lid form"
| "again now_ts' today' (StudentClassroomPost now_ts sess code) =
     StudentClassroomPost now_ts' sess code"
| "again now_ts' today' (JoinClassByCode now_ts sess code) = JoinClassByCode now_ts' sess code"
| "again now_ts' today' (TeacherCreateAssignment now_ts sess cid lang lid due comment) =
     TeacherCreateAssignment now_ts' sess cid lang lid due comment"
| "again now_ts' today' (TeacherGradeSubmission now_ts sess sub grade) =
     TeacherGradeSubmission now_ts' sess sub grade"
| "again now_ts' today' (StudentClassroomGet now_ts sess) = StudentClassroomGet now_ts' sess"

text \<open>Assignment creation is the one request that makes a new assignment each time.\<close>

fun creates_assignment :: "request \<Rightarrow> bool" where
  "creates_assignment (TeacherCreateAssignment now_ts sess cid lang lid due comment) = True"
| "creates_assignment r = False"

text \<open>
  Whether a join request gets through its guards, and then for which classroom and
  student: the same for \<open>student_classroom\<close> (POST) and \<open>join_class_by_code\<close>.
\<close>

definition join_target :: "session \<Rightarrow> string \<Rightarrow> db \<Rightarrow> (nat \<times> nat) option" where
  "join_target sess code d =
     (case sess_user_id sess of
        None \<Rightarrow> None
      | Some uid \<Rightarrow>
          if sess_role sess \<noteq> Some ''Student'' then None
          else map_option (\<lambda>c. (classroom_id c, uid))
                 (find (\<lambda>c. classroom_code c = code) (classrooms d)))"

text \<open>
  Whether a quiz request records a pass, and then for which user, with which lesson and
  score.
\<close>

definition quiz_pass ::
  "language list \<Rightarrow> session \<Rightarrow> string \<Rightarrow> int \<Rightarrow> (nat \<Rightarrow> string option) \<Rightarrow> db \<Rightarrow>
   (nat \<times> lesson \<times> int) option" where
  "quiz_pass data sess lang lid form d =
     (case sess_user_id sess of
        None \<Rightarrow> None
      | Some uid \<Rightarrow>
          if sess_role sess \<noteq> Some ''Student'' then None
          else (case get_lesson data lang lid of
             None \<Rightarrow> None
           | Some lesson \<Rightarrow>
               (case quiz_score (correct_answers (quiz lesson) form) (length (quiz lesson)) of
                  Inl e \<Rightarrow> None
                | Inr sc \<Rightarrow>
                    if 70 \<le> sc \<and> lid \<notin> get_student_progress d uid lang
                    then Some (uid, lesson, sc) else None)))"
text \<open>
  A regrading of the store replaces the grade \<open>g\<close> of every submission by \<open>h g\<close>;
  erasing the grades is the regrading to NULL.
\<close>

definition regrade_row :: "(int option \<Rightarrow> int option) \<Rightarrow> submission \<Rightarrow> submission" where
  "regrade_row h s = s\<lparr>grade_out_of_10 := h (grade_out_of_10 s)\<rparr>"

definition regrade :: "(int option \<Rightarrow> int option) \<Rightarrow> db \<Rightarrow> db" where
  "regrade h d = d\<lparr>assignment_submissions := map (regrade_row h) (assignment_submissions d)\<rparr>"

definition erase_grades :: "db \<Rightarrow> db" where
  "erase_grades d = regrade (\<lambda>g. None) d"

section \<open>Properties of the streak tracker\<close>

lemma find_map_update:
  "find (\<lambda>u. user_id u = uid) us = Some row \<Longrightarrow>
   find (\<lambda>u. user_id u = uid)
     (map (\<lambda>u. if user_id u = uid then u\<lparr>streak_count := c, last_active_date := l\<rparr> else u) us)
   = Some (row\<lparr>streak_count := c, last_active_date := l\<rparr>)"
  by (induction us) (auto split: if_splits)

lemma update_streak_row:
  assumes "get_user d uid = Some row"
  shows "\<exists>d'. update_streak today d uid = Inr d' \<and>
     get_user d' uid = Some (row\<lparr>streak_count :=
         (if last_active_date row = Some today then streak_count row
          else if last_active_date row = Some (today - 1) then streak_count row + 1
          else 1),
       last_active_date := Some today\<rparr>)"
  using assms find_map_update [of uid "users d" row]
  by (simp add: update_streak_def get_user_def Let_def)

text \<open>
  C6. With the user's row present, \<open>update_streak\<close> leaves the streak count as it is
  when the last active day is today, adds one when it is yesterday, and sets it to 1
  otherwise; afterwards the last active day is today. From a first activity, the days
  \<open>D, D+1, D+3\<close> show the counts 1, 2, 1 and the days \<open>D, D\<close> show 1, 1.
\<close>

theorem update_streak_transition:
  assumes "get_user d uid = Some row"
  shows "(\<exists>d'. update_streak today d uid = Inr d' \<and>
           map_option streak_count (get_user d' uid) =
             Some (if last_active_date row = Some today then streak_count row
                   else if last_active_date row = Some (today - 1) then streak_count row + 1
                   else 1) \<and>
           map_option last_active_date (get_user d' uid) = Some (Some today)) \<and>
         (last_active_date row = None \<longrightarrow>
           streak_counts d uid [D, D + 1, D + 3] = Inr [1, 2, 1] \<and>
           streak_counts d uid [D, D] = Inr [1, 1])"
proof (intro conjI impI)
  from update_streak_row [OF assms, of today]
  show "\<exists>d'. update_streak today d uid = Inr d' \<and>
           map_option streak_count (get_user d' uid) =
             Some (if last_active_date row = Some today then streak_count row
                   else if last_active_date row = Some (today - 1) then streak_count row + 1
                   else 1) \<and>
           map_option last_active_date (get_user d' uid) = Some (Some today)"
    by auto
next
  assume first: "last_active_date row = None"
  from update_streak_row [OF assms, of D] first obtain d1 where
    d1: "update_streak D d uid = Inr d1"
      "get_user d1 uid = Some (row\<lparr>streak_count := 1, last_active_date := Some D\<rparr>)"
    by auto
  from update_streak_row [OF d1(2), of "D + 1"] obtain d2 where
    d2: "update_streak (D + 1) d1 uid = Inr d2"
      "get_user d2 uid = Some (row\<lparr>streak_count := 2, last_active_date := Some (D + 1)\<rparr>)"
    by auto
  from update_streak_row [OF d2(2), of "D + 3"] obtain d3 where
    d3: "update_streak (D + 3) d2 uid = Inr d3"
      "get_user d3 uid = Some (row\<lparr>streak_count := 1, last_active_date := Some (D + 3)\<rparr>)"
    by auto
  from d1 d2 d3 show "streak_counts d uid [D, D + 1, D + 3] = Inr [1, 2, 1]"
    by simp
next
  assume first: "last_active_date row = None"
  from update_streak_row [OF assms, of D] first obtain d1 where
    d1: "update_streak D d uid = Inr d1"
      "get_user d1 uid = Some (row\<lparr>streak_count := 1, last_active_date := Some D\<rparr>)"
    by auto
  from update_streak_row [OF d1(2), of D] obtain d2 where
    d2: "update_streak D d1 uid = Inr d2"
      "get_user d2 uid = Some (row\<lparr>streak_count := 1, last_active_date := Some D\<rparr>)"
    by auto
  from d1 d2 show "streak_counts d uid [D, D] = Inr [1, 1]"
    by simp
qed

text \<open>A user who has just signed up (streak 0, no active day), on day 739000.\<close>

theorem update_streak_transition_witness:
  "get_user (empty_db\<lparr>users := [\<lparr>user_id = 7, streak_count = 0, last_active_date = None\<rparr>]\<rparr>) 7
     = Some \<lparr>user_id = 7, streak_count = 0, last_active_date = None\<rparr> \<and>
   streak_counts (empty_db\<lparr>users := [\<lparr>user_id = 7, streak_count = 0, last_active_date = None\<rparr>]\<rparr>) 7
     [739000, 739001, 739003] = Inr [1, 2, 1] \<and>
   streak_counts (empty_db\<lparr>users := [\<lparr>user_id = 7, streak_count = 0, last_active_date = None\<rparr>]\<rparr>) 7
     [739000, 739000] = Inr [1, 1]"
proof -
  let ?row = "\<lparr>user_id = 7, streak_count = 0, last_active_date = None\<rparr>"
  let ?d = "empty_db\<lparr>users := [?row]\<rparr>"
  have a: "get_user ?d 7 = Some ?row"
    by (simp add: get_user_def empty_db_def)
  have "last_active_date ?row = None \<longrightarrow>
           streak_counts ?d 7 [739000, 739000 + 1, 739000 + 3] = Inr [1, 2, 1] \<and>
           streak_counts ?d 7 [739000, 739000] = Inr [1, 1]"
    using update_streak_transition [OF a, of 739000 739000] by (rule conjunct2)
  then have "streak_counts ?d 7 [739000, 739001, 739003] = Inr [1, 2, 1] \<and>
           streak_counts ?d 7 [739000, 739000] = Inr [1, 1]"
    by simp
  with a show ?thesis by (intro conjI) (rule a, simp_all)
qed

section \<open>Lists and rowids\<close>

lemma find_append:
  "find P (xs @ ys) = (case find P xs of None \<Rightarrow> find P ys | Some x \<Rightarrow> Some x)"
  by (induction xs) auto

lemma find_map_same:
  assumes "\<And>x. P (f x) = P x"
  shows "find P (map f xs) = map_option f (find P xs)"
  using assms by (induction xs) auto

lemma fold_max_ge: "seq \<le> fold max ids (seq::nat)"
  by (induction ids arbitrary: seq) (auto intro: order_trans [OF max.cobounded2])

lemma fold_max_mem: "i \<in> set ids \<Longrightarrow> i \<le> fold max ids (seq::nat)"
proof (induction ids arbitrary: seq)
  case Nil
  then show ?case by simp
next
  case (Cons a ids)
  show ?case
  proof (cases "i = a")
    case True
    have "a \<le> max a seq" by simp
    also have "\<dots> \<le> fold max ids (max a seq)" by (rule fold_max_ge)
    finally show ?thesis using True by simp
  next
    case False
    with Cons show ?thesis by simp
  qed
qed

lemma next_rowid_fresh: "next_rowid seq ids \<notin> set ids"
  using fold_max_mem [of "next_rowid seq ids" ids seq] by (auto simp: next_rowid_def)

section \<open>Insert if absent\<close>

lemma insert_or_ignore_submission_frame [simp]:
  "users (insert_or_ignore_submission d aid sid st cat sc) = users d"
  "classrooms (insert_or_ignore_submission d aid sid st cat sc) = classrooms d"
  "classroom_students (insert_or_ignore_submission d aid sid st cat sc) = classroom_students d"
  "assignments (insert_or_ignore_submission d aid sid st cat sc) = assignments d"
  "assignments_seq (insert_or_ignore_submission d aid sid st cat sc) = assignments_seq d"
  "progress (insert_or_ignore_submission d aid sid st cat sc) = progress d"
  "notifications (insert_or_ignore_submission d aid sid st cat sc) = notifications d"
  "stream_posts (insert_or_ignore_submission d aid sid st cat sc) = stream_posts d"
  by (simp_all add: insert_or_ignore_submission_def Let_def)

lemma existing_progress_cong:
  "progress d' = progress d \<Longrightarrow> existing_progress d' sid lang lid = existing_progress d sid lang lid"
  by (simp add: existing_progress_def)

lemma insert_or_ignore_submission_rows:
  "assignment_submissions (insert_or_ignore_submission d aid sid st cat sc) =
     (if submission_for d aid sid \<noteq> None then assignment_submissions d
      else assignment_submissions d @
        [\<lparr>submission_id = next_rowid (assignment_submissions_seq d)
                           (map submission_id (assignment_submissions d)),
          s_assignment_id = aid, s_student_id = sid, status = st, completed_at = cat,
          score = sc, student_comment = None, grade_out_of_10 = None\<rparr>])"
  by (simp add: insert_or_ignore_submission_def Let_def)

lemma submission_for_insert_same:
  "submission_for (insert_or_ignore_submission d aid sid st cat sc) aid sid =
     (case submission_for d aid sid of
        Some r \<Rightarrow> Some r
      | None \<Rightarrow> Some \<lparr>submission_id = next_rowid (assignment_submissions_seq d)
                           (map submission_id (assignment_submissions d)),
          s_assignment_id = aid, s_student_id = sid, status = st, completed_at = cat,
          score = sc, student_comment = None, grade_out_of_10 = None\<rparr>)"
  by (auto simp: submission_for_def insert_or_ignore_submission_rows find_append
           split: option.splits)

lemma submission_for_insert_other:
  "(a, s) \<noteq> (aid, sid) \<Longrightarrow>
   submission_for (insert_or_ignore_submission d aid sid st cat sc) a s = submission_for d a s"
  by (auto simp: submission_for_def insert_or_ignore_submission_rows find_append
           split: option.splits)

lemma submission_for_insert_kept:
  "submission_for d a s = Some r \<Longrightarrow>
   submission_for (insert_or_ignore_submission d aid sid st cat sc) a s = Some r"
  by (simp add: submission_for_def insert_or_ignore_submission_rows find_append)

section \<open>One reconcile step\<close>

lemma reconcile_frame [simp]:
  "users (fst (reconcile now_ts aid lang lid sid st)) = users (fst st)"
  "classrooms (fst (reconcile now_ts aid lang lid sid st)) = classrooms (fst st)"
  "classroom_students (fst (reconcile now_ts aid lang lid sid st)) = classroom_students (fst st)"
  "assignments (fst (reconcile now_ts aid lang lid sid st)) = assignments (fst st)"
  "assignments_seq (fst (reconcile now_ts aid lang lid sid st)) = assignments_seq (fst st)"
  "progress (fst (reconcile now_ts aid lang lid sid st)) = progress (fst st)"
  "notifications (fst (reconcile now_ts aid lang lid sid st)) = notifications (fst st)"
  "stream_posts (fst (reconcile now_ts aid lang lid sid st)) = stream_posts (fst st)"
  by (cases st; simp add: reconcile_def split: option.splits)+

lemma reconcile_existing_progress [simp]:
  "existing_progress (fst (reconcile now_ts aid lang lid sid st)) = existing_progress (fst st)"
  by (intro ext) (simp add: existing_progress_def)

lemma reconcile_kept:
  "submission_for (fst st) a s = Some r \<Longrightarrow>
   submission_for (fst (reconcile now_ts aid lang lid sid st)) a s = Some r"
  by (cases st) (simp add: reconcile_def submission_for_insert_kept split: option.splits)

lemma reconcile_other:
  "(a, s) \<noteq> (aid, sid) \<Longrightarrow>
   submission_for (fst (reconcile now_ts aid lang lid sid st)) a s = submission_for (fst st) a s"
  by (cases st)
     (simp add: reconcile_def submission_for_insert_other split: option.splits del: prod.inject)

lemma reconcile_created:
  assumes "submission_for (fst st) aid sid = None"
  shows "\<exists>r. submission_for (fst (reconcile now_ts aid lang lid sid st)) aid sid = Some r \<and>
     derived_from now_ts (existing_progress (fst st) sid lang lid) r"
  using assms
  by (cases st)
     (auto simp: reconcile_def submission_for_insert_same derived_from_def split: option.splits)

lemma reconcile_present:
  "submission_for (fst (reconcile now_ts aid lang lid sid st)) aid sid \<noteq> None"
  by (cases st)
     (auto simp: reconcile_def submission_for_insert_same split: option.splits)

lemma reconcile_rows_unchanged:
  "submission_for (fst st) aid sid \<noteq> None \<Longrightarrow>
   assignment_submissions (fst (reconcile now_ts aid lang lid sid st))
     = assignment_submissions (fst st)"
  by (cases st)
     (simp add: reconcile_def insert_or_ignore_submission_rows split: option.splits)

section \<open>Loops of reconcile steps\<close>

lemma fold_reconcile_frame [simp]:
  "users (fst (fold (\<lambda>x. reconcile now_ts (fa x) (fl x) (fi x) (fs x)) xs st)) = users (fst st)"
  "classrooms (fst (fold (\<lambda>x. reconcile now_ts (fa x) (fl x) (fi x) (fs x)) xs st)) = classrooms (fst st)"
  "classroom_students (fst (fold (\<lambda>x. reconcile now_ts (fa x) (fl x) (fi x) (fs x)) xs st))
     = classroom_students (fst st)"
  "assignments (fst (fold (\<lambda>x. reconcile now_ts (fa x) (fl x) (fi x) (fs x)) xs st)) = assignments (fst st)"
  "assignments_seq (fst (fold (\<lambda>x. reconcile now_ts (fa x) (fl x) (fi x) (fs x)) xs st))
     = assignments_seq (fst st)"
  "progress (fst (fold (\<lambda>x. reconcile now_ts (fa x) (fl x) (fi x) (fs x)) xs st)) = progress (fst st)"
  "notifications (fst (fold (\<lambda>x. reconcile now_ts (fa x) (fl x) (fi x) (fs x)) xs st))
     = notifications (fst st)"
  "stream_posts (fst (fold (\<lambda>x. reconcile now_ts (fa x) (fl x) (fi x) (fs x)) xs st))
     = stream_posts (fst st)"
  by (induction xs arbitrary: st; simp)+

lemma fold_reconcile_existing_progress [simp]:
  "existing_progress (fst (fold (\<lambda>x. reconcile now_ts (fa x) (fl x) (fi x) (fs x)) xs st))
     = existing_progress (fst st)"
  by (intro ext) (simp add: existing_progress_def)

lemma fold_reconcile_kept:
  "submission_for (fst st) a s = Some r \<Longrightarrow>
   submission_for (fst (fold (\<lambda>x. reconcile now_ts (fa x) (fl x) (fi x) (fs x)) xs st)) a s = Some r"
  by (induction xs arbitrary: st) (simp_all add: reconcile_kept)

lemma fold_reconcile_other:
  "\<forall>x \<in> set xs. (fa x, fs x) \<noteq> (a, s) \<Longrightarrow>
   submission_for (fst (fold (\<lambda>x. reconcile now_ts (fa x) (fl x) (fi x) (fs x)) xs st)) a s
     = submission_for (fst st) a s"
proof (induction xs arbitrary: st)
  case Nil
  then show ?case by simp
next
  case (Cons x xs)
  then have "(a, s) \<noteq> (fa x, fs x)" by auto
  from reconcile_other [OF this] Cons show ?case by simp
qed

lemma fold_reconcile_present:
  "x \<in> set xs \<Longrightarrow>
   submission_for (fst (fold (\<lambda>x. reconcile now_ts (fa x) (fl x) (fi x) (fs x)) xs st)) (fa x) (fs x)
     \<noteq> None"
proof (induction xs arbitrary: st)
  case Nil
  then show ?case by simp
next
  case (Cons y xs)
  show ?case
  proof (cases "x = y")
    case True
    obtain r where "submission_for (fst (reconcile now_ts (fa y) (fl y) (fi y) (fs y) st)) (fa y) (fs y)
        = Some r"
      using reconcile_present [of now_ts "fa y" "fl y" "fi y" "fs y" st] by auto
    from fold_reconcile_kept [where now_ts = now_ts and fa = fa and fl = fl and fi = fi
        and fs = fs and xs = xs, OF this] True
    show ?thesis by simp
  next
    case False
    with Cons show ?thesis by simp
  qed
qed

lemma fold_reconcile_rows_unchanged:
  "\<forall>x \<in> set xs. submission_for (fst st) (fa x) (fs x) \<noteq> None \<Longrightarrow>
   assignment_submissions (fst (fold (\<lambda>x. reconcile now_ts (fa x) (fl x) (fi x) (fs x)) xs st))
     = assignment_submissions (fst st)"
proof (induction xs arbitrary: st)
  case Nil
  then show ?case by simp
next
  case (Cons x xs)
  let ?st = "reconcile now_ts (fa x) (fl x) (fi x) (fs x) st"
  from Cons.prems have rows: "assignment_submissions (fst ?st) = assignment_submissions (fst st)"
    by (simp add: reconcile_rows_unchanged)
  then have "submission_for (fst ?st) = submission_for (fst st)"
    by (intro ext) (simp add: submission_for_def)
  with Cons.prems have "\<forall>x \<in> set xs. submission_for (fst ?st) (fa x) (fs x) \<noteq> None"
    by simp
  from Cons.IH [OF this] rows show ?case by simp
qed

lemma fold_reconcile_created:
  assumes "x \<in> set xs"
    and "submission_for (fst st) (fa x) (fs x) = None"
    and "\<forall>y \<in> set xs. (fa y, fs y) = (fa x, fs x) \<longrightarrow> (fl y, fi y) = (fl x, fi x)"
  shows "\<exists>r. submission_for (fst (fold (\<lambda>x. reconcile now_ts (fa x) (fl x) (fi x) (fs x)) xs st))
                (fa x) (fs x) = Some r \<and>
              derived_from now_ts (existing_progress (fst st) (fs x) (fl x) (fi x)) r"
  using assms
proof (induction xs arbitrary: st)
  case Nil
  then show ?case by simp
next
  case (Cons y xs)
  let ?st = "reconcile now_ts (fa y) (fl y) (fi y) (fs y) st"
  show ?case
  proof (cases "(fa y, fs y) = (fa x, fs x)")
    case True
    with Cons.prems(3) have same: "fl y = fl x" "fi y = fi x" "fa y = fa x" "fs y = fs x"
      by auto
    from reconcile_created [of st "fa x" "fs x" now_ts "fl x" "fi x"] Cons.prems(2) same
    obtain r where r: "submission_for (fst ?st) (fa x) (fs x) = Some r"
        "derived_from now_ts (existing_progress (fst st) (fs x) (fl x) (fi x)) r"
      by auto
    from fold_reconcile_kept [where now_ts = now_ts and fa = fa and fl = fl and fi = fi
        and fs = fs and xs = xs, OF r(1)] r(2)
    show ?thesis by auto
  next
    case False
    then have "x \<noteq> y" by auto
    with Cons.prems(1) have mem: "x \<in> set xs" by simp
    from False have "(fa x, fs x) \<noteq> (fa y, fs y)" by auto
    from reconcile_other [OF this] Cons.prems(2)
    have none: "submission_for (fst ?st) (fa x) (fs x) = None" by simp
    from Cons.prems(3)
    have fn: "\<forall>y \<in> set xs. (fa y, fs y) = (fa x, fs x) \<longrightarrow> (fl y, fi y) = (fl x, fi x)"
      by simp
    from Cons.IH [OF mem none fn] show ?thesis by simp
  qed
qed

section \<open>The call sites of the reconcile step\<close>

lemma distinct_map_eq:
  "distinct (map f xs) \<Longrightarrow> x \<in> set xs \<Longrightarrow> y \<in> set xs \<Longrightarrow> f x = f y \<Longrightarrow> x = y"
  by (auto simp: distinct_map dest: inj_onD)

lemma ensure_created:
  assumes "cs \<in> set (classroom_students d)" and "cs_classroom_id cs = cid"
    and "submission_for d aid (cs_student_id cs) = None"
  shows "\<exists>r. submission_for (fst (ensure_assignment_submissions now_ts aid cid lang lid (d, k)))
                aid (cs_student_id cs) = Some r \<and>
              derived_from now_ts (existing_progress d (cs_student_id cs) lang lid) r"
proof -
  let ?xs = "filter (\<lambda>cs. cs_classroom_id cs = cid) (classroom_students d)"
  have mem: "cs \<in> set ?xs" using assms by simp
  from fold_reconcile_created [where fa = "\<lambda>_. aid" and fl = "\<lambda>_. lang" and fi = "\<lambda>_. lid"
      and fs = cs_student_id and st = "(d, k)" and now_ts = now_ts, OF mem]
    assms(3)
  show ?thesis by (simp add: ensure_assignment_submissions_def)
qed

lemma insert_or_ignore_classroom_student_frame [simp]:
  "users (insert_or_ignore_classroom_student d cid uid ts) = users d"
  "classrooms (insert_or_ignore_classroom_student d cid uid ts) = classrooms d"
  "assignments (insert_or_ignore_classroom_student d cid uid ts) = assignments d"
  "assignments_seq (insert_or_ignore_classroom_student d cid uid ts) = assignments_seq d"
  "assignment_submissions (insert_or_ignore_classroom_student d cid uid ts) = assignment_submissions d"
  "assignment_submissions_seq (insert_or_ignore_classroom_student d cid uid ts)
     = assignment_submissions_seq d"
  "progress (insert_or_ignore_classroom_student d cid uid ts) = progress d"
  "notifications (insert_or_ignore_classroom_student d cid uid ts) = notifications d"
  "stream_posts (insert_or_ignore_classroom_student d cid uid ts) = stream_posts d"
  by (simp_all add: insert_or_ignore_classroom_student_def)

lemma insert_or_ignore_classroom_student_views [simp]:
  "submission_for (insert_or_ignore_classroom_student d cid uid ts) = submission_for d"
  "existing_progress (insert_or_ignore_classroom_student d cid uid ts) = existing_progress d"
  by (intro ext, simp add: submission_for_def existing_progress_def)+

lemma join_classroom_created:
  assumes "distinct (map assignment_id (assignments d))"
    and "a \<in> set (assignments d)" and "a_classroom_id a = cid"
    and "submission_for d (assignment_id a) uid = None"
  shows "\<exists>r. submission_for (join_classroom now_ts cid uid d) (assignment_id a) uid = Some r \<and>
              derived_from now_ts (existing_progress d uid (lesson_lang a) (lesson_id a)) r"
proof -
  let ?d1 = "insert_or_ignore_classroom_student d cid uid (now_ts 0)"
  let ?xs = "filter (\<lambda>a. a_classroom_id a = cid) (assignments ?d1)"
  have mem: "a \<in> set ?xs" using assms by simp
  have fn: "\<forall>y \<in> set ?xs. (assignment_id y, uid) = (assignment_id a, uid) \<longrightarrow>
      (lesson_lang y, lesson_id y) = (lesson_lang a, lesson_id a)"
    using distinct_map_eq [OF assms(1) _ assms(2)] by auto
  from fold_reconcile_created [where fa = assignment_id and fl = lesson_lang and fi = lesson_id
      and fs = "\<lambda>_. uid" and st = "(?d1, 1)" and now_ts = now_ts, OF mem _ fn]
    assms(4)
  show ?thesis by (simp add: join_classroom_def Let_def)
qed

section \<open>Creation of submissions\<close>

text \<open>
  C5 (amended). When reconciliation creates the submission of a student for an
  assignment (none existed), in \<open>ensure_assignment_submissions\<close>, in
  \<open>student_classroom\<close> (POST) and in \<open>join_class_by_code\<close>: with a progress row for
  the assignment's lesson the new row is completed, its score is the progress row's score
  and its completion time is a clock reading of the reconciling request; without one it
  is assigned, with no score and no completion time. The grade is empty either way.
\<close>

theorem created_submission_from_progress:
  "(cs \<in> set (classroom_students d) \<and> cs_classroom_id cs = cid \<and>
    submission_for d aid (cs_student_id cs) = None \<longrightarrow>
      (\<exists>r. submission_for (fst (ensure_assignment_submissions now_ts aid cid lang lid (d, k)))
              aid (cs_student_id cs) = Some r \<and>
            derived_from now_ts (existing_progress d (cs_student_id cs) lang lid) r)) \<and>
   (schema d \<and> sess_user_id sess = Some uid \<and> sess_role sess = Some ''Student'' \<and>
    find (\<lambda>c. classroom_code c = code) (classrooms d) = Some c \<and>
    a \<in> set (assignments d) \<and> a_classroom_id a = classroom_id c \<and>
    submission_for d (assignment_id a) uid = None \<longrightarrow>
      (\<exists>r. submission_for (snd (student_classroom_post now_ts sess code d)) (assignment_id a) uid
              = Some r \<and>
            derived_from now_ts (existing_progress d uid (lesson_lang a) (lesson_id a)) r) \<and>
      (\<exists>r. submission_for (snd (join_class_by_code now_ts sess code d)) (assignment_id a) uid
              = Some r \<and>
            derived_from now_ts (existing_progress d uid (lesson_lang a) (lesson_id a)) r))"
proof (intro conjI impI)
  assume "cs \<in> set (classroom_students d) \<and> cs_classroom_id cs = cid \<and>
    submission_for d aid (cs_student_id cs) = None"
  then show "\<exists>r. submission_for (fst (ensure_assignment_submissions now_ts aid cid lang lid (d, k)))
              aid (cs_student_id cs) = Some r \<and>
            derived_from now_ts (existing_progress d (cs_student_id cs) lang lid) r"
    using ensure_created by blast
next
  assume h: "schema d \<and> sess_user_id sess = Some uid \<and> sess_role sess = Some ''Student'' \<and>
    find (\<lambda>c. classroom_code c = code) (classrooms d) = Some c \<and>
    a \<in> set (assignments d) \<and> a_classroom_id a = classroom_id c \<and>
    submission_for d (assignment_id a) uid = None"
  then have "distinct (map assignment_id (assignments d))"
    by (simp add: schema_def)
  from join_classroom_created [OF this, of a "classroom_id c" uid now_ts] h
  have r: "\<exists>r. submission_for (join_classroom now_ts (classroom_id c) uid d) (assignment_id a) uid
              = Some r \<and>
            derived_from now_ts (existing_progress d uid (lesson_lang a) (lesson_id a)) r"
    by simp
  from r h show "\<exists>r. submission_for (snd (student_classroom_post now_ts sess code d))
              (assignment_id a) uid = Some r \<and>
            derived_from now_ts (existing_progress d uid (lesson_lang a) (lesson_id a)) r"
    by (simp add: student_classroom_post_def require_role_def)
  from r h show "\<exists>r. submission_for (snd (join_class_by_code now_ts sess code d))
              (assignment_id a) uid = Some r \<and>
            derived_from now_ts (existing_progress d uid (lesson_lang a) (lesson_id a)) r"
    by (simp add: join_class_by_code_def)
qed

lemma schema_demo_db: "schema demo_db"
  by (simp add: schema_def demo_db_def empty_db_def)

theorem created_submission_from_progress_witness:
  "(\<exists>r. submission_for
          (fst (ensure_assignment_submissions (\<lambda>k. ''2024-02-01T09:00:00'') 2 1 ''python'' 3
                  (demo_db, 0))) 2 7 = Some r \<and>
        derived_from (\<lambda>k. ''2024-02-01T09:00:00'') (existing_progress demo_db 7 ''python'' 3) r) \<and>
   existing_progress demo_db 7 ''python'' 3 \<noteq> None \<and>
   (\<exists>r. submission_for (snd (student_classroom_post (\<lambda>k. ''2024-02-01T09:00:00'') student7
            ''AB12CD'' demo_db)) 1 7 = Some r \<and>
        derived_from (\<lambda>k. ''2024-02-01T09:00:00'') (existing_progress demo_db 7 ''python'' 3) r)"
proof -
  let ?cs = "\<lparr>cs_classroom_id = 1, cs_student_id = 7, joined_at = ''2024-01-02T08:00:00''\<rparr>"
  let ?a = "\<lparr>assignment_id = 1, a_classroom_id = 1, lesson_id = 3, lesson_lang = ''python'',
          due_date = None, a_comment = '''', a_created_at = ''2024-01-03T08:00:00''\<rparr>"
  let ?c = "\<lparr>classroom_id = 1, teacher_id = 1, classroom_code = ''AB12CD''\<rparr>"
  have a: "?cs \<in> set (classroom_students demo_db) \<and> cs_classroom_id ?cs = 1 \<and>
    submission_for demo_db 2 (cs_student_id ?cs) = None"
    by (simp add: demo_db_def empty_db_def submission_for_def)
  have b: "schema demo_db \<and> sess_user_id student7 = Some 7 \<and>
    sess_role student7 = Some ''Student'' \<and>
    find (\<lambda>c. classroom_code c = ''AB12CD'') (classrooms demo_db) = Some ?c \<and>
    ?a \<in> set (assignments demo_db) \<and> a_classroom_id ?a = classroom_id ?c \<and>
    submission_for demo_db (assignment_id ?a) 7 = None"
    by (simp add: schema_demo_db student7_def) (simp add: demo_db_def empty_db_def submission_for_def)
  have c: "existing_progress demo_db 7 ''python'' 3 \<noteq> None"
    by (simp add: demo_db_def empty_db_def existing_progress_def)
  from created_submission_from_progress
    [of ?cs demo_db 1 2 "\<lambda>k. ''2024-02-01T09:00:00''" "''python''" 3 0 student7 7 "''AB12CD''" ?c ?a]
    a b c
  show ?thesis by simp
qed

text \<open>
  The completion time is not the progress row's: user 7 passed the lesson on 2024-01-01;
  the teacher assigns it on 2024-02-01 and the new submission carries that day's reading.
\<close>

theorem completed_at_not_copied:
  "submission_for demo_db 2 7 = None \<and>
   map_option p_completed_at (existing_progress demo_db 7 ''python'' 3)
     = Some ''2024-01-01T10:00:00'' \<and>
   submission_for
     (snd (teacher_create_assignment demo_clock teacher1 1 ''python'' 3 None '''' demo_db)) 2 7 =
     Some \<lparr>submission_id = 1, s_assignment_id = 2, s_student_id = 7, status = ''completed'',
           completed_at = Some ''2024-02-01T09:00:00.000001'', score = Some 85,
           student_comment = None, grade_out_of_10 = None\<rparr>"
  by (simp add: demo_db_def empty_db_def existing_progress_def submission_for_def teacher1_def
        teacher_create_assignment_def require_role_def demo_clock_def
        ensure_assignment_submissions_def reconcile_def insert_or_ignore_submission_def
        next_rowid_def create_stream_post_def create_notification_def)

section \<open>Grade validation\<close>

lemma graded_submission_found:
  assumes "s \<in> set (assignment_submissions d)" "submission_id s = sub"
    "a \<in> set (assignments d)" "assignment_id a = s_assignment_id s"
  shows "graded_submission d sub \<noteq> None"
proof -
  have "(s, a) \<in> set [(s, a). s \<leftarrow> assignment_submissions d, a \<leftarrow> assignments d,
                  assignment_id a = s_assignment_id s, submission_id s = sub]"
    using assms by auto
  then have "[(s, a). s \<leftarrow> assignment_submissions d, a \<leftarrow> assignments d,
                  assignment_id a = s_assignment_id s, submission_id s = sub] \<noteq> []"
    by (metis list.set(1) empty_iff)
  then show ?thesis
    by (simp add: graded_submission_def split: list.splits)
qed

lemma grade_accepted:
  assumes "sess_user_id sess = Some uid" and "sess_role sess = Some ''Teacher''"
    and h: "grade = Some g" "py_int g = Some v" "0 \<le> v" "v \<le> 10"
      "s \<in> set (assignment_submissions d)" "submission_id s = sub"
      "a \<in> set (assignments d)" "assignment_id a = s_assignment_id s"
  shows "fst (teacher_grade_submission py_int now_ts sess sub grade d)
              = Flash ''Grade saved.'' ''referrer'' \<and>
         assignment_submissions (snd (teacher_grade_submission py_int now_ts sess sub grade d))
              = map (\<lambda>r. if submission_id r = sub then r\<lparr>grade_out_of_10 := Some v\<rparr> else r)
                  (assignment_submissions d)"
proof -
  from graded_submission_found [OF h(5-8)]
  show ?thesis
    using assms(1,2) h(1-4)
    by (auto simp: teacher_grade_submission_def require_role_def Let_def
          create_notification_def create_stream_post_def)
qed

text \<open>
  C8. For a logged-in teacher: a grade field that is missing or that \<open>int\<close> refuses, and
  an integer below 0 or above 10, end the request with the validation message and the
  store exactly as it was; an integer from 0 to 10 for a submission that exists (with its
  assignment) is stored in \<open>grade_out_of_10\<close> of that submission and changes no other
  row of the table.
\<close>

theorem teacher_grade_submission_validation:
  assumes "sess_user_id sess = Some uid" and "sess_role sess = Some ''Teacher''"
  shows "(grade = None \<or> (grade = Some g \<and> py_int g = None) \<longrightarrow>
            teacher_grade_submission py_int now_ts sess sub grade d
              = (Flash ''Grade must be a number 0-10.'' ''referrer'', d)) \<and>
         (grade = Some g \<and> py_int g = Some v \<and> (v < 0 \<or> 10 < v) \<longrightarrow>
            teacher_grade_submission py_int now_ts sess sub grade d
              = (Flash ''Grade must be between 0 and 10.'' ''referrer'', d)) \<and>
         (grade = Some g \<and> py_int g = Some v \<and> 0 \<le> v \<and> v \<le> 10 \<and>
          s \<in> set (assignment_submissions d) \<and> submission_id s = sub \<and>
          a \<in> set (assignments d) \<and> assignment_id a = s_assignment_id s \<longrightarrow>
            fst (teacher_grade_submission py_int now_ts sess sub grade d)
              = Flash ''Grade saved.'' ''referrer'' \<and>
            assignment_submissions (snd (teacher_grade_submission py_int now_ts sess sub grade d))
              = map (\<lambda>r. if submission_id r = sub then r\<lparr>grade_out_of_10 := Some v\<rparr> else r)
                  (assignment_submissions d))"
proof (intro conjI impI)
  assume "grade = None \<or> (grade = Some g \<and> py_int g = None)"
  then show "teacher_grade_submission py_int now_ts sess sub grade d
              = (Flash ''Grade must be a number 0-10.'' ''referrer'', d)"
    using assms by (auto simp: teacher_grade_submission_def require_role_def)
next
  assume "grade = Some g \<and> py_int g = Some v \<and> (v < 0 \<or> 10 < v)"
  then show "teacher_grade_submission py_int now_ts sess sub grade d
              = (Flash ''Grade must be between 0 and 10.'' ''referrer'', d)"
    using assms by (auto simp: teacher_grade_submission_def require_role_def)
next
  assume h: "grade = Some g \<and> py_int g = Some v \<and> 0 \<le> v \<and> v \<le> 10 \<and>
          s \<in> set (assignment_submissions d) \<and> submission_id s = sub \<and>
          a \<in> set (assignments d) \<and> assignment_id a = s_assignment_id s"
  with grade_accepted [OF assms, of grade g py_int v s d sub a now_ts]
  show "fst (teacher_grade_submission py_int now_ts sess sub grade d)
              = Flash ''Grade saved.'' ''referrer''"
    and "assignment_submissions (snd (teacher_grade_submission py_int now_ts sess sub grade d))
              = map (\<lambda>r. if submission_id r = sub then r\<lparr>grade_out_of_10 := Some v\<rparr> else r)
                  (assignment_submissions d)"
    by simp_all
qed

text \<open>
  The teacher of the example grades submission 1, which carries the grade 5: the fields
  \<open>11\<close>, \<open>-1\<close>, \<open>abc\<close> and a missing field leave the store as it is, \<open>8\<close> is stored.
\<close>

theorem teacher_grade_submission_validation_witness:
  "teacher_grade_submission demo_int demo_clock teacher1 1 (Some ''11'') graded_db
     = (Flash ''Grade must be between 0 and 10.'' ''referrer'', graded_db) \<and>
   teacher_grade_submission demo_int demo_clock teacher1 1 (Some ''-1'') graded_db
     = (Flash ''Grade must be between 0 and 10.'' ''referrer'', graded_db) \<and>
   teacher_grade_submission demo_int demo_clock teacher1 1 (Some ''abc'') graded_db
     = (Flash ''Grade must be a number 0-10.'' ''referrer'', graded_db) \<and>
   teacher_grade_submission demo_int demo_clock teacher1 1 None graded_db
     = (Flash ''Grade must be a number 0-10.'' ''referrer'', graded_db) \<and>
   map grade_out_of_10 (assignment_submissions graded_db) = [Some 5] \<and>
   map grade_out_of_10 (assignment_submissions
     (snd (teacher_grade_submission demo_int demo_clock teacher1 1 (Some ''8'') graded_db)))
     = [Some 8]"
proof -
  let ?s = "\<lparr>submission_id = 1, s_assignment_id = 1, s_student_id = 7, status = ''completed'',
          completed_at = Some ''2024-01-03T08:00:00.000001'', score = Some 85,
          student_comment = None, grade_out_of_10 = Some 5\<rparr>"
  let ?a = "\<lparr>assignment_id = 1, a_classroom_id = 1, lesson_id = 3, lesson_lang = ''python'',
          due_date = None, a_comment = '''', a_created_at = ''2024-01-03T08:00:00''\<rparr>"
  have t: "sess_user_id teacher1 = Some 1" "sess_role teacher1 = Some ''Teacher''"
    by (simp_all add: teacher1_def)
  have i: "demo_int ''11'' = Some 11" "demo_int ''-1'' = Some (- 1)" "demo_int ''abc'' = None"
    "demo_int ''8'' = Some 8"
    by (simp_all add: demo_int_def)
  have rows: "assignment_submissions graded_db = [?s]" "assignments graded_db = [?a]"
    by (simp_all add: graded_db_def demo_db_def empty_db_def)
  note inst = teacher_grade_submission_validation [OF t, where py_int = demo_int
      and now_ts = demo_clock and sub = 1 and d = graded_db and s = ?s and a = ?a]
  from inst [of "Some ''11''" "''11''" 11] inst [of "Some ''-1''" "''-1''" "- 1"]
    inst [of "Some ''abc''" "''abc''" 0] inst [of None "''''" 0]
    inst [of "Some ''8''" "''8''" 8] i rows
  show ?thesis by simp
qed

section \<open>The student feed\<close>

lemma concat_map_key:
  "distinct (map f xs) \<Longrightarrow>
   concat (map (\<lambda>x. if f x = k then g else []) xs) = (if k \<in> f ` set xs then g else [])"
  by (induction xs) auto

lemma concat_map_filter: "concat (map (\<lambda>x. if P x then [x] else []) xs) = filter P xs"
  by (induction xs) auto

lemma feed_rows_joined:
  assumes "distinct (map user_id (users d))" and "distinct (map classroom_id (classrooms d))"
  shows "[p. p \<leftarrow> stream_posts d, u \<leftarrow> users d, c \<leftarrow> classrooms d,
             user_id u = author_id p, classroom_id c = sp_classroom_id p,
             sp_classroom_id p \<in> set classroom_ids,
             audience p = ''class'' \<or> (audience p = ''student'' \<and> sp_student_id p = Some sid),
             \<not> (kind p = ''grade'' \<and> audience p = ''class'')]
         = filter (\<lambda>p. author_id p \<in> set (map user_id (users d)) \<and>
                       sp_classroom_id p \<in> set (map classroom_id (classrooms d)) \<and>
                       selected classroom_ids sid p) (stream_posts d)"
proof -
  have inner: "concat (map (\<lambda>c. if user_id u = author_id p then
                   if classroom_id c = sp_classroom_id p then g else [] else []) (classrooms d))
        = (if user_id u = author_id p \<and> sp_classroom_id p \<in> set (map classroom_id (classrooms d))
           then g else [])" for u p and g :: "stream_post list"
    by (cases "user_id u = author_id p") (simp_all add: concat_map_key [OF assms(2)])
  have outer: "concat (map (\<lambda>u. if user_id u = author_id p \<and> Q then g else []) (users d))
        = (if author_id p \<in> set (map user_id (users d)) \<and> Q then g else [])"
    for p Q and g :: "stream_post list"
    by (cases Q) (simp_all add: concat_map_key [OF assms(1)])
  show ?thesis
    unfolding concat_map_filter [symmetric] selected_def
    by (simp add: inner outer cong: if_cong)
       (intro arg_cong [where f = concat] map_cong refl, auto)
qed


lemma newest_first_sorted:
  "sorted_wrt (\<lambda>p q. f q \<le> f p) (take n (rev (sort_key f xs)))"
proof -
  have "sorted (map f (sort_key f xs))" by simp
  then have "sorted_wrt (\<lambda>p q. f p \<le> f q) (sort_key f xs)"
    by (simp add: sorted_map)
  then have "sorted_wrt (\<lambda>p q. f q \<le> f p) (rev (sort_key f xs))"
    by (simp add: sorted_wrt_rev)
  then show ?thesis by simp
qed

lemma newest_first_cut:
  assumes "x \<in> set xs" and "x \<notin> set (take n (rev (sort_key f xs)))"
  shows "length (take n (rev (sort_key f xs))) = n \<and>
         (\<forall>q \<in> set (take n (rev (sort_key f xs))). f x \<le> f q)"
proof -
  let ?ys = "rev (sort_key f xs)"
  have s: "sorted_wrt (\<lambda>p q. f q \<le> f p) (take n ?ys @ drop n ?ys)"
    using newest_first_sorted [of f "length xs" xs] by simp
  have "set ?ys = set (take n ?ys) \<union> set (drop n ?ys)"
    by (metis append_take_drop_id set_append)
  with assms have x: "x \<in> set (drop n ?ys)" by auto
  then have "n < length ?ys" by (cases "n < length ?ys") auto
  then have "length (take n ?ys) = n" by simp
  moreover from s x have "\<forall>q \<in> set (take n ?ys). f x \<le> f q"
    unfolding sorted_wrt_append by blast
  ultimately show ?thesis by simp
qed

section \<open>Quiz grading: division by zero and the score\<close>

lemma quiz_score_empty: "quiz_score c 0 = Inl ZeroDivisionError"
  by (simp add: quiz_score_def)

lemma quiz_score_nonempty: "t \<noteq> 0 \<Longrightarrow> \<exists>sc. quiz_score c t = Inr sc"
  by (simp add: quiz_score_def)

text \<open>
  An empty quiz ends \<open>grade_quiz\<close> in \<open>ZeroDivisionError\<close>, before any write.
\<close>

lemma grade_quiz_empty_quiz:
  assumes "sess_user_id sess = Some uid" and "sess_role sess = Some ''Student''"
    and "get_lesson data lang lid = Some lesson" and "quiz lesson = []"
  shows "grade_quiz data now_ts today sess lang lid form d = (Inl ZeroDivisionError, d)"
  using assms by (simp add: grade_quiz_def require_role_def quiz_score_def)

lemma not_completed_no_progress:
  "lid \<notin> get_student_progress d uid lang \<Longrightarrow> existing_progress d uid lang lid = None"
  by (auto simp: get_student_progress_def existing_progress_def find_None_iff)

lemma update_streak_succeeds:
  "get_user d uid \<noteq> None \<Longrightarrow> \<exists>d'. update_streak today d uid = Inr d'"
  by (auto simp: update_streak_def Let_def)

text \<open>
  With at least one question, and a row of \<open>users\<close> for the session's user, the
  request ends in a response.
\<close>

lemma grade_quiz_nonempty_quiz:
  assumes "sess_user_id sess = Some uid" and "get_user d uid \<noteq> None"
    and "get_lesson data lang lid = Some lesson" and "quiz lesson \<noteq> []"
  shows "\<exists>resp d'. grade_quiz data now_ts today sess lang lid form d = (Inr resp, d')"
proof (cases "require_role sess ''Student''")
  case True
  with assms show ?thesis by (simp add: grade_quiz_def)
next
  case False
  from assms(4) obtain sc where
    sc: "quiz_score (correct_answers (quiz lesson) form) (length (quiz lesson)) = Inr sc"
    using quiz_score_nonempty [of "length (quiz lesson)"] by auto
  show ?thesis
  proof (cases "70 \<le> sc \<and> lid \<notin> get_student_progress d uid lang")
    case no: False
    with assms False sc show ?thesis
      by (auto simp: grade_quiz_def Let_def)
  next
    case yes: True
    let ?row = "\<lparr>p_student_id = uid, p_lesson_id = lid, p_lesson_lang = lang,
                 p_completed_at = now_ts 0, p_score = sc,
                 p_xp = (case l_xp lesson of None \<Rightarrow> 100 | Some x \<Rightarrow> x)\<rparr>"
    let ?d1 = "d\<lparr>progress := progress d @ [?row]\<rparr>"
    from yes have ins: "insert_progress d ?row = Inr ?d1"
      by (simp add: insert_progress_def not_completed_no_progress)
    have "get_user ?d1 uid \<noteq> None" using assms(2) by (simp add: get_user_def)
    from update_streak_succeeds [OF this] obtain d2 where
      d2: "update_streak today ?d1 uid = Inr d2" by blast
    obtain b d3 k where
      d3: "complete_assignment_if_any now_ts uid lang lid sc (d2, 1) = (b, d3, k)"
      by (metis prod_cases3)
    from assms False sc yes ins d2 d3 show ?thesis
      by (simp add: grade_quiz_def Let_def)
  qed
qed

text \<open>
  C10. The score of 29 right answers out of 50 is 57: \<open>29 / 50\<close> is the double just
  below 0.58, its product with 100 rounds to the double just below 58, and \<open>int\<close>
  truncates. The quotient \<open>100 * 29 div 50\<close> is 58. The request is the one of user 8
  for lesson 9 of the example lesson file; it fails the lesson and writes nothing.
\<close>

theorem grade_quiz_29_of_50:
  "grade_quiz long_quiz_data demo_clock 739000 student8 ''python'' 9 form_29_right demo_db
     = (Inr (LessonPage 57 False False False), demo_db) \<and>
   quiz_score 29 50 = Inr 57 \<and> (100 * 29) div 50 = (58::int)"
proof -
  have 1: "get_lesson long_quiz_data ''python'' 9 =
    Some \<lparr>l_id = 9, l_xp = Some 100,
           quiz = replicate 50
             \<lparr>q_question = ''pick a'', q_choices = [''a'', ''b''], q_answer = ''a''\<rparr>\<rparr>"
    by (simp add: get_lesson_def get_language_def long_quiz_data_def)
  have 2: "correct_answers (replicate 50
             \<lparr>q_question = ''pick a'', q_choices = [''a'', ''b''], q_answer = ''a''\<rparr>) form_29_right = 29"
    by code_simp
  have 3: "quiz_score 29 50 = Inr 57"
    by code_simp
  show ?thesis
    by (simp add: grade_quiz_def 1 2 3 student8_def require_role_def)
qed

section \<open>Completion after a passed quiz\<close>

lemma complete_fold_frame [simp]:
  "users (fst (fold (\<lambda>sub (d, k).
      (d\<lparr>assignment_submissions := map (mark_completed sub (now_ts k) sc) (assignment_submissions d)\<rparr>,
       Suc k)) ids st)) = users (fst st)"
  "classrooms (fst (fold (\<lambda>sub (d, k).
      (d\<lparr>assignment_submissions := map (mark_completed sub (now_ts k) sc) (assignment_submissions d)\<rparr>,
       Suc k)) ids st)) = classrooms (fst st)"
  "classroom_students (fst (fold (\<lambda>sub (d, k).
      (d\<lparr>assignment_submissions := map (mark_completed sub (now_ts k) sc) (assignment_submissions d)\<rparr>,
       Suc k)) ids st)) = classroom_students (fst st)"
  "assignments (fst (fold (\<lambda>sub (d, k).
      (d\<lparr>assignment_submissions := map (mark_completed sub (now_ts k) sc) (assignment_submissions d)\<rparr>,
       Suc k)) ids st)) = assignments (fst st)"
  "assignments_seq (fst (fold (\<lambda>sub (d, k).
      (d\<lparr>assignment_submissions := map (mark_completed sub (now_ts k) sc) (assignment_submissions d)\<rparr>,
       Suc k)) ids st)) = assignments_seq (fst st)"
  "assignment_submissions_seq (fst (fold (\<lambda>sub (d, k).
      (d\<lparr>assignment_submissions := map (mark_completed sub (now_ts k) sc) (assignment_submissions d)\<rparr>,
       Suc k)) ids st)) = assignment_submissions_seq (fst st)"
  "progress (fst (fold (\<lambda>sub (d, k).
      (d\<lparr>assignment_submissions := map (mark_completed sub (now_ts k) sc) (assignment_submissions d)\<rparr>,
       Suc k)) ids st)) = progress (fst st)"
  "notifications (fst (fold (\<lambda>sub (d, k).
      (d\<lparr>assignment_submissions := map (mark_completed sub (now_ts k) sc) (assignment_submissions d)\<rparr>,
       Suc k)) ids st)) = notifications (fst st)"
  "stream_posts (fst (fold (\<lambda>sub (d, k).
      (d\<lparr>assignment_submissions := map (mark_completed sub (now_ts k) sc) (assignment_submissions d)\<rparr>,
       Suc k)) ids st)) = stream_posts (fst st)"
  by (induction ids arbitrary: st; simp add: split_beta)+

lemma complete_fold_rows:
  "\<exists>t. assignment_submissions (fst (fold (\<lambda>sub (d, k).
      (d\<lparr>assignment_submissions := map (mark_completed sub (now_ts k) sc) (assignment_submissions d)\<rparr>,
       Suc k)) ids st))
     = map (\<lambda>s. if submission_id s \<in> set ids then completed_with (now_ts (t (submission_id s))) sc s
                 else s) (assignment_submissions (fst st))"
proof (induction ids arbitrary: st)
  case Nil
  show ?case by simp
next
  case (Cons i ids)
  obtain d k where st: "st = (d, k)" by (cases st)
  let ?st1 = "(d\<lparr>assignment_submissions := map (mark_completed i (now_ts k) sc) (assignment_submissions d)\<rparr>,
               Suc k)"
  from Cons [of ?st1] obtain t where
    t: "assignment_submissions (fst (fold (\<lambda>sub (d, k).
      (d\<lparr>assignment_submissions := map (mark_completed sub (now_ts k) sc) (assignment_submissions d)\<rparr>,
       Suc k)) ids ?st1))
     = map (\<lambda>s. if submission_id s \<in> set ids then completed_with (now_ts (t (submission_id s))) sc s
                 else s) (assignment_submissions (fst ?st1))"
    by blast
  let ?t = "\<lambda>x. if x \<in> set ids then t x else k"
  have "assignment_submissions (fst (fold (\<lambda>sub (d, k).
      (d\<lparr>assignment_submissions := map (mark_completed sub (now_ts k) sc) (assignment_submissions d)\<rparr>,
       Suc k)) (i # ids) st))
     = map (\<lambda>s. if submission_id s \<in> set (i # ids)
                 then completed_with (now_ts (?t (submission_id s))) sc s
                 else s) (assignment_submissions (fst st))"
    unfolding st using t
    by (simp add: mark_completed_def completed_with_def)
  then show ?case by (rule exI [where x = ?t])
qed

section \<open>Looking submissions up by key\<close>

lemma submission_for_None_iff:
  "submission_for d a s = None \<longleftrightarrow>
     (a, s) \<notin> set (map (\<lambda>r. (s_assignment_id r, s_student_id r)) (assignment_submissions d))"
  by (auto simp: submission_for_def find_None_iff)

lemma submission_for_SomeD:
  "submission_for d a s = Some r \<Longrightarrow>
   r \<in> set (assignment_submissions d) \<and> s_assignment_id r = a \<and> s_student_id r = s"
  by (auto simp: submission_for_def find_Some_iff)

lemma find_distinct_key:
  "distinct (map f xs) \<Longrightarrow> x \<in> set xs \<Longrightarrow> find (\<lambda>y. f y = f x) xs = Some x"
  by (induction xs) (auto simp: image_iff)

lemma submission_for_row:
  assumes "distinct (map (\<lambda>r. (s_assignment_id r, s_student_id r)) (assignment_submissions d))"
    and "r \<in> set (assignment_submissions d)"
  shows "submission_for d (s_assignment_id r) (s_student_id r) = Some r"
  using find_distinct_key [OF assms] by (simp add: submission_for_def)

lemma existing_progress_None_iff:
  "existing_progress d sid lang lid = None \<longleftrightarrow>
     (sid, lid, lang) \<notin> set (map (\<lambda>p. (p_student_id p, p_lesson_id p, p_lesson_lang p)) (progress d))"
  by (auto simp: existing_progress_def find_None_iff)

section \<open>The schema is kept\<close>

lemma schema_insert_or_ignore_submission:
  "schema d \<Longrightarrow> schema (insert_or_ignore_submission d aid sid st cat sc)"
  using next_rowid_fresh [of "assignment_submissions_seq d"
      "map submission_id (assignment_submissions d)"]
  by (auto simp: schema_def insert_or_ignore_submission_rows submission_for_None_iff)

lemma schema_reconcile:
  "schema (fst st) \<Longrightarrow> schema (fst (reconcile now_ts aid lang lid sid st))"
  by (cases st) (simp add: reconcile_def schema_insert_or_ignore_submission split: option.splits)

lemma schema_fold_reconcile:
  "schema (fst st) \<Longrightarrow>
   schema (fst (fold (\<lambda>x. reconcile now_ts (fa x) (fl x) (fi x) (fs x)) xs st))"
  by (induction xs arbitrary: st) (simp_all add: schema_reconcile)

lemma schema_insert_or_ignore_classroom_student:
  "schema d \<Longrightarrow> schema (insert_or_ignore_classroom_student d cid uid ts)"
  by (auto simp: schema_def insert_or_ignore_classroom_student_def)

lemma schema_join_classroom: "schema d \<Longrightarrow> schema (join_classroom now_ts cid uid d)"
  by (simp add: join_classroom_def Let_def schema_fold_reconcile
        schema_insert_or_ignore_classroom_student)

lemma map_map_same: "(\<And>x. f (g x) = f x) \<Longrightarrow> map f (map g xs) = map f xs"
  by simp

lemma schema_upsert_submission_completed:
  assumes "schema d"
  shows "schema (upsert_submission_completed d aid sid ts sc)"
proof (cases "submission_for d aid sid")
  case None
  with assms next_rowid_fresh [of "assignment_submissions_seq d"
      "map submission_id (assignment_submissions d)"]
  show ?thesis
    by (auto simp: schema_def upsert_submission_completed_def Let_def submission_for_None_iff)
next
  case (Some r)
  let ?g = "\<lambda>s. if s_assignment_id s = aid \<and> s_student_id s = sid
                then s\<lparr>status := ''completed'', completed_at := Some ts, score := Some sc\<rparr>
                else s"
  have same: "map submission_id (map ?g (assignment_submissions d))
          = map submission_id (assignment_submissions d)"
    "map (\<lambda>s. (s_assignment_id s, s_student_id s)) (map ?g (assignment_submissions d))
          = map (\<lambda>s. (s_assignment_id s, s_student_id s)) (assignment_submissions d)"
    by (rule map_map_same, simp)+
  from assms Some show ?thesis
    by (simp add: schema_def upsert_submission_completed_def Let_def same del: map_map)
qed

lemma schema_tables:
  assumes "users d' = users d" "classrooms d' = classrooms d"
    "classroom_students d' = classroom_students d" "assignments d' = assignments d"
    "assignment_submissions d' = assignment_submissions d" "progress d' = progress d"
  shows "schema d' = schema d"
  using assms by (simp add: schema_def)

lemma create_stream_post_frame [simp]:
  "users (create_stream_post d cid author k title aud student ts) = users d"
  "classrooms (create_stream_post d cid author k title aud student ts) = classrooms d"
  "classroom_students (create_stream_post d cid author k title aud student ts) = classroom_students d"
  "assignments (create_stream_post d cid author k title aud student ts) = assignments d"
  "assignments_seq (create_stream_post d cid author k title aud student ts) = assignments_seq d"
  "assignment_submissions (create_stream_post d cid author k title aud student ts)
     = assignment_submissions d"
  "assignment_submissions_seq (create_stream_post d cid author k title aud student ts)
     = assignment_submissions_seq d"
  "progress (create_stream_post d cid author k title aud student ts) = progress d"
  "notifications (create_stream_post d cid author k title aud student ts) = notifications d"
  by (simp_all add: create_stream_post_def)

lemma create_notification_frame [simp]:
  "users (create_notification d uid title cid ts) = users d"
  "classrooms (create_notification d uid title cid ts) = classrooms d"
  "classroom_students (create_notification d uid title cid ts) = classroom_students d"
  "assignments (create_notification d uid title cid ts) = assignments d"
  "assignments_seq (create_notification d uid title cid ts) = assignments_seq d"
  "assignment_submissions (create_notification d uid title cid ts) = assignment_submissions d"
  "assignment_submissions_seq (create_notification d uid title cid ts)
     = assignment_submissions_seq d"
  "progress (create_notification d uid title cid ts) = progress d"
  "stream_posts (create_notification d uid title cid ts) = stream_posts d"
  by (simp_all add: create_notification_def)

lemma notify_fold_frame [simp]:
  "users (fst (fold (\<lambda>student (d, k).
      (create_notification d (f student) title cid (now_ts k), Suc k)) xs st)) = users (fst st)"
  "classrooms (fst (fold (\<lambda>student (d, k).
      (create_notification d (f student) title cid (now_ts k), Suc k)) xs st)) = classrooms (fst st)"
  "classroom_students (fst (fold (\<lambda>student (d, k).
      (create_notification d (f student) title cid (now_ts k), Suc k)) xs st))
     = classroom_students (fst st)"
  "assignments (fst (fold (\<lambda>student (d, k).
      (create_notification d (f student) title cid (now_ts k), Suc k)) xs st)) = assignments (fst st)"
  "assignments_seq (fst (fold (\<lambda>student (d, k).
      (create_notification d (f student) title cid (now_ts k), Suc k)) xs st))
     = assignments_seq (fst st)"
  "assignment_submissions (fst (fold (\<lambda>student (d, k).
      (create_notification d (f student) title cid (now_ts k), Suc k)) xs st))
     = assignment_submissions (fst st)"
  "assignment_submissions_seq (fst (fold (\<lambda>student (d, k).
      (create_notification d (f student) title cid (now_ts k), Suc k)) xs st))
     = assignment_submissions_seq (fst st)"
  "progress (fst (fold (\<lambda>student (d, k).
      (create_notification d (f student) title cid (now_ts k), Suc k)) xs st)) = progress (fst st)"
  "stream_posts (fst (fold (\<lambda>student (d, k).
      (create_notification d (f student) title cid (now_ts k), Suc k)) xs st))
     = stream_posts (fst st)"
  by (induction xs arbitrary: st; simp add: split_beta)+

section \<open>What each request does to the tables\<close>

lemma teacher_create_assignment_tables:
  assumes "sess_user_id sess = Some uid" and "sess_role sess = Some ''Teacher''"
    and "find (\<lambda>c. classroom_id c = cid \<and> teacher_id c = uid) (classrooms d) = Some c"
  shows "users (snd (teacher_create_assignment now_ts sess cid lang lid due comment d)) = users d"
    "classrooms (snd (teacher_create_assignment now_ts sess cid lang lid due comment d))
       = classrooms d"
    "classroom_students (snd (teacher_create_assignment now_ts sess cid lang lid due comment d))
       = classroom_students d"
    "assignments (snd (teacher_create_assignment now_ts sess cid lang lid due comment d))
       = assignments d @ [new_assignment now_ts cid lang lid due comment d]"
    "progress (snd (teacher_create_assignment now_ts sess cid lang lid due comment d)) = progress d"
    "assignment_submissions (snd (teacher_create_assignment now_ts sess cid lang lid due comment d))
       = assignment_submissions
           (fst (ensure_assignment_submissions now_ts
              (assignment_id (new_assignment now_ts cid lang lid due comment d)) cid lang lid
              (insert_assignment now_ts cid lang lid due comment d, 1)))"
  using assms
  by (simp_all add: teacher_create_assignment_def require_role_def Let_def new_assignment_def
        insert_assignment_def ensure_assignment_submissions_def split_beta)

lemma pending_submissions_tables:
  assumes "assignment_submissions d' = assignment_submissions d" "assignments d' = assignments d"
    "classroom_students d' = classroom_students d"
  shows "pending_submissions d' uid lang lid = pending_submissions d uid lang lid"
  using assms by (simp add: pending_submissions_def)

lemma complete_assignment_if_any_frame [simp]:
  "users (fst (snd (complete_assignment_if_any now_ts uid lang lid sc st))) = users (fst st)"
  "classrooms (fst (snd (complete_assignment_if_any now_ts uid lang lid sc st))) = classrooms (fst st)"
  "classroom_students (fst (snd (complete_assignment_if_any now_ts uid lang lid sc st)))
     = classroom_students (fst st)"
  "assignments (fst (snd (complete_assignment_if_any now_ts uid lang lid sc st)))
     = assignments (fst st)"
  "assignments_seq (fst (snd (complete_assignment_if_any now_ts uid lang lid sc st)))
     = assignments_seq (fst st)"
  "assignment_submissions_seq (fst (snd (complete_assignment_if_any now_ts uid lang lid sc st)))
     = assignment_submissions_seq (fst st)"
  "progress (fst (snd (complete_assignment_if_any now_ts uid lang lid sc st))) = progress (fst st)"
  "notifications (fst (snd (complete_assignment_if_any now_ts uid lang lid sc st)))
     = notifications (fst st)"
  "stream_posts (fst (snd (complete_assignment_if_any now_ts uid lang lid sc st)))
     = stream_posts (fst st)"
  by (cases st; simp add: complete_assignment_if_any_def Let_def)+

lemma complete_assignment_if_any_rows:
  "\<exists>t. assignment_submissions (fst (snd (complete_assignment_if_any now_ts uid lang lid sc (d, k))))
     = map (\<lambda>s. if submission_id s \<in> set (pending_submissions d uid lang lid)
                 then completed_with (now_ts (t (submission_id s))) sc s else s)
         (assignment_submissions d)"
  using complete_fold_rows [of now_ts sc "pending_submissions d uid lang lid" "(d, k)"]
  by (simp add: complete_assignment_if_any_def Let_def)

lemma update_streak_tables:
  assumes "update_streak today d uid = Inr d'"
  shows "map user_id (users d') = map user_id (users d)" "classrooms d' = classrooms d"
    "classroom_students d' = classroom_students d" "assignments d' = assignments d"
    "assignments_seq d' = assignments_seq d"
    "assignment_submissions d' = assignment_submissions d"
    "assignment_submissions_seq d' = assignment_submissions_seq d"
    "progress d' = progress d" "notifications d' = notifications d"
    "stream_posts d' = stream_posts d"
proof -
  from assms obtain f where d': "d' = d\<lparr>users := map f (users d)\<rparr>"
    and f: "\<And>u. user_id (f u) = user_id u"
    by (auto simp: update_streak_def Let_def split: option.splits)
  show "map user_id (users d') = map user_id (users d)"
    unfolding d' using f by (simp add: map_map_same del: map_map)
  show "classrooms d' = classrooms d"
    "classroom_students d' = classroom_students d" "assignments d' = assignments d"
    "assignments_seq d' = assignments_seq d"
    "assignment_submissions d' = assignment_submissions d"
    "assignment_submissions_seq d' = assignment_submissions_seq d"
    "progress d' = progress d" "notifications d' = notifications d"
    "stream_posts d' = stream_posts d"
    by (simp_all add: d')
qed

text \<open>
  \<open>grade_quiz\<close> on a passed lesson not completed before, for a user with a row: the
  progress row is appended and the selected submissions are completed with the score.
\<close>

lemma grade_quiz_tables:
  assumes "sess_user_id sess = Some uid" and "sess_role sess = Some ''Student''"
    and "get_lesson data lang lid = Some lesson"
    and "quiz_score (correct_answers (quiz lesson) form) (length (quiz lesson)) = Inr sc"
    and "70 \<le> sc" and "lid \<notin> get_student_progress d uid lang"
    and "get_user d uid \<noteq> None"
  shows "\<exists>resp. fst (grade_quiz data now_ts today sess lang lid form d) = Inr resp"
    and "map user_id (users (snd (grade_quiz data now_ts today sess lang lid form d)))
           = map user_id (users d)"
    and "classrooms (snd (grade_quiz data now_ts today sess lang lid form d)) = classrooms d"
    and "classroom_students (snd (grade_quiz data now_ts today sess lang lid form d))
           = classroom_students d"
    and "assignments (snd (grade_quiz data now_ts today sess lang lid form d)) = assignments d"
    and "progress (snd (grade_quiz data now_ts today sess lang lid form d)) = progress d @
           [\<lparr>p_student_id = uid, p_lesson_id = lid, p_lesson_lang = lang,
             p_completed_at = now_ts 0, p_score = sc,
             p_xp = (case l_xp lesson of None \<Rightarrow> 100 | Some x \<Rightarrow> x)\<rparr>]"
    and "\<exists>t. assignment_submissions (snd (grade_quiz data now_ts today sess lang lid form d))
           = map (\<lambda>s. if submission_id s \<in> set (pending_submissions d uid lang lid)
                       then completed_with (now_ts (t (submission_id s))) sc s else s)
               (assignment_submissions d)"
proof -
  let ?row = "\<lparr>p_student_id = uid, p_lesson_id = lid, p_lesson_lang = lang,
               p_completed_at = now_ts 0, p_score = sc,
               p_xp = (case l_xp lesson of None \<Rightarrow> 100 | Some x \<Rightarrow> x)\<rparr>"
  let ?d1 = "d\<lparr>progress := progress d @ [?row]\<rparr>"
  from assms(6) have ins: "insert_progress d ?row = Inr ?d1"
    by (simp add: insert_progress_def not_completed_no_progress)
  have "get_user ?d1 uid \<noteq> None" using assms(7) by (simp add: get_user_def)
  from update_streak_succeeds [OF this] obtain d2 where
    d2: "update_streak today ?d1 uid = Inr d2" by blast
  note t2 = update_streak_tables [OF d2]
  let ?r = "complete_assignment_if_any now_ts uid lang lid sc (d2, 1)"
  have res: "grade_quiz data now_ts today sess lang lid form d =
      (Inr (LessonPage sc (correct_answers (quiz lesson) form = length (quiz lesson)) True (fst ?r)),
       fst (snd ?r))"
    using assms(1-6) ins d2
    by (simp add: grade_quiz_def Let_def require_role_def split_beta)
  show "\<exists>resp. fst (grade_quiz data now_ts today sess lang lid form d) = Inr resp"
    by (simp add: res)
  show "map user_id (users (snd (grade_quiz data now_ts today sess lang lid form d)))
           = map user_id (users d)"
    "classrooms (snd (grade_quiz data now_ts today sess lang lid form d)) = classrooms d"
    "classroom_students (snd (grade_quiz data now_ts today sess lang lid form d))
           = classroom_students d"
    "assignments (snd (grade_quiz data now_ts today sess lang lid form d)) = assignments d"
    "progress (snd (grade_quiz data now_ts today sess lang lid form d)) = progress d @ [?row]"
    using t2 by (simp_all add: res)
  have "pending_submissions d2 uid lang lid = pending_submissions d uid lang lid"
    by (rule pending_submissions_tables) (simp_all add: t2)
  with complete_assignment_if_any_rows [of now_ts uid lang lid sc d2 1]
  show "\<exists>t. assignment_submissions (snd (grade_quiz data now_ts today sess lang lid form d))
           = map (\<lambda>s. if submission_id s \<in> set (pending_submissions d uid lang lid)
                       then completed_with (now_ts (t (submission_id s))) sc s else s)
               (assignment_submissions d)"
    by (simp add: res t2)
qed

text \<open>In every other case the request leaves the store as it is.\<close>

lemma grade_quiz_unchanged:
  assumes "\<not> (\<exists>uid lesson sc. sess_user_id sess = Some uid \<and> sess_role sess = Some ''Student'' \<and>
            get_lesson data lang lid = Some lesson \<and>
            quiz_score (correct_answers (quiz lesson) form) (length (quiz lesson)) = Inr sc \<and>
            70 \<le> sc \<and> lid \<notin> get_student_progress d uid lang)"
  shows "snd (grade_quiz data now_ts today sess lang lid form d) = d"
proof (cases "sess_user_id sess")
  case None
  then show ?thesis by (simp add: grade_quiz_def)
next
  case (Some uid)
  show ?thesis
  proof (cases "sess_role sess = Some ''Student''")
    case False
    with Some show ?thesis by (simp add: grade_quiz_def require_role_def)
  next
    case role: True
    show ?thesis
    proof (cases "get_lesson data lang lid")
      case None
      with Some role show ?thesis by (simp add: grade_quiz_def require_role_def)
    next
      case lesson: (Some lesson)
      show ?thesis
      proof (cases "quiz_score (correct_answers (quiz lesson) form) (length (quiz lesson))")
        case (Inl e)
        with Some role lesson show ?thesis
          by (simp add: grade_quiz_def require_role_def Let_def)
      next
        case (Inr sc)
        with assms Some role lesson
        have "\<not> (70 \<le> sc \<and> lid \<notin> get_student_progress d uid lang)" by blast
        with Some role lesson Inr show ?thesis
          by (auto simp: grade_quiz_def require_role_def Let_def)
      qed
    qed
  qed
qed

lemma join_classroom_frame [simp]:
  "users (join_classroom now_ts cid uid d) = users d"
  "classrooms (join_classroom now_ts cid uid d) = classrooms d"
  "assignments (join_classroom now_ts cid uid d) = assignments d"
  "assignments_seq (join_classroom now_ts cid uid d) = assignments_seq d"
  "progress (join_classroom now_ts cid uid d) = progress d"
  "notifications (join_classroom now_ts cid uid d) = notifications d"
  "stream_posts (join_classroom now_ts cid uid d) = stream_posts d"
  "classroom_students (join_classroom now_ts cid uid d)
     = classroom_students (insert_or_ignore_classroom_student d cid uid (now_ts 0))"
  by (simp_all add: join_classroom_def Let_def)

lemma student_classroom_post_cases:
  "snd (student_classroom_post now_ts sess code d) = d \<or>
   (\<exists>uid c. sess_user_id sess = Some uid \<and> sess_role sess = Some ''Student'' \<and>
      find (\<lambda>c. classroom_code c = code) (classrooms d) = Some c \<and>
      snd (student_classroom_post now_ts sess code d) = join_classroom now_ts (classroom_id c) uid d)"
  by (auto simp: student_classroom_post_def require_role_def split: option.splits)

lemma join_class_by_code_cases:
  "snd (join_class_by_code now_ts sess code d) = d \<or>
   (\<exists>uid c. sess_user_id sess = Some uid \<and> sess_role sess = Some ''Student'' \<and>
      find (\<lambda>c. classroom_code c = code) (classrooms d) = Some c \<and>
      snd (join_class_by_code now_ts sess code d) = join_classroom now_ts (classroom_id c) uid d)"
  by (auto simp: join_class_by_code_def split: option.splits)

lemma teacher_create_assignment_cases:
  "snd (teacher_create_assignment now_ts sess cid lang lid due comment d) = d \<or>
   (\<exists>uid c. sess_user_id sess = Some uid \<and> sess_role sess = Some ''Teacher'' \<and>
      find (\<lambda>c. classroom_id c = cid \<and> teacher_id c = uid) (classrooms d) = Some c)"
  by (auto simp: teacher_create_assignment_def require_role_def split: option.splits)

text \<open>
  \<open>teacher_grade_submission\<close> either leaves the store as it is or writes the grade
  to the rows with the id and appends a notification and a post.
\<close>

lemma teacher_grade_submission_cases:
  "snd (teacher_grade_submission py_int now_ts sess sub grade d) = d \<or>
   (\<exists>v. 0 \<le> v \<and> v \<le> 10 \<and>
      users (snd (teacher_grade_submission py_int now_ts sess sub grade d)) = users d \<and>
      classrooms (snd (teacher_grade_submission py_int now_ts sess sub grade d)) = classrooms d \<and>
      classroom_students (snd (teacher_grade_submission py_int now_ts sess sub grade d))
        = classroom_students d \<and>
      assignments (snd (teacher_grade_submission py_int now_ts sess sub grade d)) = assignments d \<and>
      progress (snd (teacher_grade_submission py_int now_ts sess sub grade d)) = progress d \<and>
      assignment_submissions (snd (teacher_grade_submission py_int now_ts sess sub grade d))
        = map (\<lambda>r. if submission_id r = sub then r\<lparr>grade_out_of_10 := Some v\<rparr> else r)
            (assignment_submissions d))"
proof (cases "\<exists>uid g v row. sess_user_id sess = Some uid \<and> sess_role sess = Some ''Teacher'' \<and>
    grade = Some g \<and> py_int g = Some v \<and> 0 \<le> v \<and> v \<le> 10 \<and> graded_submission d sub = Some row")
  case False
  then have "snd (teacher_grade_submission py_int now_ts sess sub grade d) = d"
    by (fastforce simp: teacher_grade_submission_def require_role_def Let_def not_less
          split: option.splits)
  then show ?thesis ..
next
  case True
  then obtain uid g v row where h: "sess_user_id sess = Some uid"
    "sess_role sess = Some ''Teacher''" "grade = Some g" "py_int g = Some v" "0 \<le> v" "v \<le> 10"
    "graded_submission d sub = Some row"
    by blast
  have "users (snd (teacher_grade_submission py_int now_ts sess sub grade d)) = users d \<and>
      classrooms (snd (teacher_grade_submission py_int now_ts sess sub grade d)) = classrooms d \<and>
      classroom_students (snd (teacher_grade_submission py_int now_ts sess sub grade d))
        = classroom_students d \<and>
      assignments (snd (teacher_grade_submission py_int now_ts sess sub grade d)) = assignments d \<and>
      progress (snd (teacher_grade_submission py_int now_ts sess sub grade d)) = progress d \<and>
      assignment_submissions (snd (teacher_grade_submission py_int now_ts sess sub grade d))
        = map (\<lambda>r. if submission_id r = sub then r\<lparr>grade_out_of_10 := Some v\<rparr> else r)
            (assignment_submissions d)"
    using h
    by (simp add: teacher_grade_submission_def require_role_def Let_def split: prod.splits)
  with h(5,6) show ?thesis by blast
qed

section \<open>The backfill of the classroom page\<close>

lemma upsert_submission_completed_frame [simp]:
  "users (upsert_submission_completed d aid sid ts sc) = users d"
  "classrooms (upsert_submission_completed d aid sid ts sc) = classrooms d"
  "classroom_students (upsert_submission_completed d aid sid ts sc) = classroom_students d"
  "assignments (upsert_submission_completed d aid sid ts sc) = assignments d"
  "assignments_seq (upsert_submission_completed d aid sid ts sc) = assignments_seq d"
  "progress (upsert_submission_completed d aid sid ts sc) = progress d"
  "notifications (upsert_submission_completed d aid sid ts sc) = notifications d"
  "stream_posts (upsert_submission_completed d aid sid ts sc) = stream_posts d"
  by (simp_all add: upsert_submission_completed_def Let_def)

lemma backfill_row_frame [simp]:
  "users (fst (backfill_row now_ts uid x st)) = users (fst st)"
  "classrooms (fst (backfill_row now_ts uid x st)) = classrooms (fst st)"
  "classroom_students (fst (backfill_row now_ts uid x st)) = classroom_students (fst st)"
  "assignments (fst (backfill_row now_ts uid x st)) = assignments (fst st)"
  "assignments_seq (fst (backfill_row now_ts uid x st)) = assignments_seq (fst st)"
  "progress (fst (backfill_row now_ts uid x st)) = progress (fst st)"
  "notifications (fst (backfill_row now_ts uid x st)) = notifications (fst st)"
  "stream_posts (fst (backfill_row now_ts uid x st)) = stream_posts (fst st)"
  by (cases st; cases x; simp add: backfill_row_def split: option.splits)+

lemma backfill_fold_frame [simp]:
  "users (fst (fold (backfill_row now_ts uid) xs st)) = users (fst st)"
  "classrooms (fst (fold (backfill_row now_ts uid) xs st)) = classrooms (fst st)"
  "classroom_students (fst (fold (backfill_row now_ts uid) xs st)) = classroom_students (fst st)"
  "assignments (fst (fold (backfill_row now_ts uid) xs st)) = assignments (fst st)"
  "assignments_seq (fst (fold (backfill_row now_ts uid) xs st)) = assignments_seq (fst st)"
  "progress (fst (fold (backfill_row now_ts uid) xs st)) = progress (fst st)"
  "notifications (fst (fold (backfill_row now_ts uid) xs st)) = notifications (fst st)"
  "stream_posts (fst (fold (backfill_row now_ts uid) xs st)) = stream_posts (fst st)"
  by (induction xs arbitrary: st; simp)+

lemma student_classroom_get_cases:
  "snd (student_classroom_get now_ts sess d) = d \<or>
   (\<exists>uid. sess_user_id sess = Some uid \<and> sess_role sess = Some ''Student'' \<and>
      snd (student_classroom_get now_ts sess d)
        = fst (fold (backfill_row now_ts uid) (student_assignment_rows d uid) (d, 0, [])))"
  by (auto simp: student_classroom_get_def require_role_def Let_def split_beta
           split: option.splits)

text \<open>
  Without a row for the session's user, \<open>update_streak\<close> raises after the progress
  row is committed, and the submissions are not completed.
\<close>

lemma grade_quiz_crash:
  assumes "sess_user_id sess = Some uid" and "sess_role sess = Some ''Student''"
    and "get_lesson data lang lid = Some lesson"
    and "quiz_score (correct_answers (quiz lesson) form) (length (quiz lesson)) = Inr sc"
    and "70 \<le> sc" and "lid \<notin> get_student_progress d uid lang"
    and "get_user d uid = None"
  shows "grade_quiz data now_ts today sess lang lid form d =
    (Inl TypeError,
     d\<lparr>progress := progress d @
        [\<lparr>p_student_id = uid, p_lesson_id = lid, p_lesson_lang = lang,
          p_completed_at = now_ts 0, p_score = sc,
          p_xp = (case l_xp lesson of None \<Rightarrow> 100 | Some x \<Rightarrow> x)\<rparr>]\<rparr>)"
proof -
  let ?row = "\<lparr>p_student_id = uid, p_lesson_id = lid, p_lesson_lang = lang,
               p_completed_at = now_ts 0, p_score = sc,
               p_xp = (case l_xp lesson of None \<Rightarrow> 100 | Some x \<Rightarrow> x)\<rparr>"
  let ?d1 = "d\<lparr>progress := progress d @ [?row]\<rparr>"
  from assms(6) have ins: "insert_progress d ?row = Inr ?d1"
    by (simp add: insert_progress_def not_completed_no_progress)
  have "update_streak today ?d1 uid = Inl TypeError"
    using assms(7) by (simp add: update_streak_def get_user_def)
  with assms(1-6) ins show ?thesis
    by (simp add: grade_quiz_def Let_def require_role_def)
qed

lemma schema_grade_quiz:
  assumes "schema d"
  shows "schema (snd (grade_quiz data now_ts today sess lang lid form d))"
proof (cases "\<exists>uid lesson sc. sess_user_id sess = Some uid \<and> sess_role sess = Some ''Student'' \<and>
            get_lesson data lang lid = Some lesson \<and>
            quiz_score (correct_answers (quiz lesson) form) (length (quiz lesson)) = Inr sc \<and>
            70 \<le> sc \<and> lid \<notin> get_student_progress d uid lang")
  case False
  from grade_quiz_unchanged [OF this] assms show ?thesis by simp
next
  case True
  then obtain uid lesson sc where h: "sess_user_id sess = Some uid"
    "sess_role sess = Some ''Student''" "get_lesson data lang lid = Some lesson"
    "quiz_score (correct_answers (quiz lesson) form) (length (quiz lesson)) = Inr sc"
    "70 \<le> sc" "lid \<notin> get_student_progress d uid lang"
    by blast
  from h(6) have fresh: "(uid, lid, lang) \<notin>
      set (map (\<lambda>p. (p_student_id p, p_lesson_id p, p_lesson_lang p)) (progress d))"
    using not_completed_no_progress existing_progress_None_iff by blast
  show ?thesis
  proof (cases "get_user d uid")
    case None
    from grade_quiz_crash [OF h None] assms fresh show ?thesis
      by (simp add: schema_def)
  next
    case (Some u)
    then have u: "get_user d uid \<noteq> None" by simp
    let ?d' = "snd (grade_quiz data now_ts today sess lang lid form d)"
    note t = grade_quiz_tables [OF h u, of now_ts today]
    from t(7) obtain tt where rows: "assignment_submissions ?d'
        = map (\<lambda>s. if submission_id s \<in> set (pending_submissions d uid lang lid)
                    then completed_with (now_ts (tt (submission_id s))) sc s else s)
            (assignment_submissions d)"
      by blast
    have "map submission_id (assignment_submissions ?d') = map submission_id (assignment_submissions d)"
      and "map (\<lambda>s. (s_assignment_id s, s_student_id s)) (assignment_submissions ?d')
        = map (\<lambda>s. (s_assignment_id s, s_student_id s)) (assignment_submissions d)"
      unfolding rows by (rule map_map_same, simp add: completed_with_def)+
    with assms t(2-6) fresh show ?thesis
      by (simp add: schema_def)
  qed
qed

lemma schema_student_classroom_post:
  "schema d \<Longrightarrow> schema (snd (student_classroom_post now_ts sess code d))"
  using student_classroom_post_cases [of now_ts sess code d]
  by (auto simp: schema_join_classroom)

lemma schema_join_class_by_code:
  "schema d \<Longrightarrow> schema (snd (join_class_by_code now_ts sess code d))"
  using join_class_by_code_cases [of now_ts sess code d]
  by (auto simp: schema_join_classroom)

lemma schema_insert_assignment:
  "schema d \<Longrightarrow> schema (insert_assignment now_ts cid lang lid due comment d)"
  using next_rowid_fresh [of "assignments_seq d" "map assignment_id (assignments d)"]
  by (simp add: schema_def insert_assignment_def new_assignment_def)

lemma schema_ensure_assignment_submissions:
  "schema (fst st) \<Longrightarrow> schema (fst (ensure_assignment_submissions now_ts aid cid lang lid st))"
  by (cases st) (simp add: ensure_assignment_submissions_def schema_fold_reconcile)

lemma schema_teacher_create_assignment:
  assumes "schema d"
  shows "schema (snd (teacher_create_assignment now_ts sess cid lang lid due comment d))"
  using teacher_create_assignment_cases [of now_ts sess cid lang lid due comment d]
proof
  assume "snd (teacher_create_assignment now_ts sess cid lang lid due comment d) = d"
  with assms show ?thesis by simp
next
  assume "\<exists>uid c. sess_user_id sess = Some uid \<and> sess_role sess = Some ''Teacher'' \<and>
      find (\<lambda>c. classroom_id c = cid \<and> teacher_id c = uid) (classrooms d) = Some c"
  then obtain uid c where h: "sess_user_id sess = Some uid" "sess_role sess = Some ''Teacher''"
    "find (\<lambda>c. classroom_id c = cid \<and> teacher_id c = uid) (classrooms d) = Some c"
    by blast
  let ?e = "fst (ensure_assignment_submissions now_ts
              (assignment_id (new_assignment now_ts cid lang lid due comment d)) cid lang lid
              (insert_assignment now_ts cid lang lid due comment d, 1))"
  have "schema ?e"
    using schema_ensure_assignment_submissions schema_insert_assignment [OF assms] by simp
  moreover have "schema (snd (teacher_create_assignment now_ts sess cid lang lid due comment d))
      = schema ?e"
    using teacher_create_assignment_tables [OF h, of now_ts lang lid due comment]
    by (intro schema_tables)
       (simp_all add: ensure_assignment_submissions_def insert_assignment_def)
  ultimately show ?thesis by simp
qed

lemma schema_teacher_grade_submission:
  assumes "schema d"
  shows "schema (snd (teacher_grade_submission py_int now_ts sess sub grade d))"
  using teacher_grade_submission_cases [of py_int now_ts sess sub grade d]
proof
  assume "snd (teacher_grade_submission py_int now_ts sess sub grade d) = d"
  with assms show ?thesis by simp
next
  let ?d' = "snd (teacher_grade_submission py_int now_ts sess sub grade d)"
  assume "\<exists>v. 0 \<le> v \<and> v \<le> 10 \<and> users ?d' = users d \<and> classrooms ?d' = classrooms d \<and>
      classroom_students ?d' = classroom_students d \<and> assignments ?d' = assignments d \<and>
      progress ?d' = progress d \<and>
      assignment_submissions ?d'
        = map (\<lambda>r. if submission_id r = sub then r\<lparr>grade_out_of_10 := Some v\<rparr> else r)
            (assignment_submissions d)"
  then obtain v where t: "users ?d' = users d" "classrooms ?d' = classrooms d"
    "classroom_students ?d' = classroom_students d" "assignments ?d' = assignments d"
    "progress ?d' = progress d"
    "assignment_submissions ?d'
        = map (\<lambda>r. if submission_id r = sub then r\<lparr>grade_out_of_10 := Some v\<rparr> else r)
            (assignment_submissions d)"
    by blast
  have "map submission_id (assignment_submissions ?d') = map submission_id (assignment_submissions d)"
    and "map (\<lambda>s. (s_assignment_id s, s_student_id s)) (assignment_submissions ?d')
      = map (\<lambda>s. (s_assignment_id s, s_student_id s)) (assignment_submissions d)"
    unfolding t(6) by (rule map_map_same, simp)+
  with assms t(1-5) show ?thesis by (simp add: schema_def)
qed

lemma schema_backfill_row:
  "schema (fst st) \<Longrightarrow> schema (fst (backfill_row now_ts uid x st))"
  by (cases st; cases x)
     (simp add: backfill_row_def schema_upsert_submission_completed split: option.splits)

lemma schema_student_classroom_get:
  assumes "schema d"
  shows "schema (snd (student_classroom_get now_ts sess d))"
proof -
  have "schema (fst (fold (backfill_row now_ts uid) xs st))" if "schema (fst st)" for uid xs st
    using that by (induction xs arbitrary: st) (simp_all add: schema_backfill_row)
  with assms student_classroom_get_cases [of now_ts sess d] show ?thesis
    by auto
qed

text \<open>Every request keeps the schema, and so does every run.\<close>

lemma schema_handle: "schema d \<Longrightarrow> schema (handle data py_int r d)"
  by (cases r)
     (simp_all add: schema_grade_quiz schema_student_classroom_post schema_join_class_by_code
        schema_teacher_create_assignment schema_teacher_grade_submission
        schema_student_classroom_get)

lemma schema_run: "schema d \<Longrightarrow> schema (run data py_int rs d)"
  unfolding run_def by (induction rs arbitrary: d) (simp_all add: schema_handle)

section \<open>Lookups after an update in place\<close>

lemma submission_for_map:
  assumes "assignment_submissions d' = map f (assignment_submissions d)"
    and "\<And>r. s_assignment_id (f r) = s_assignment_id r"
    and "\<And>r. s_student_id (f r) = s_student_id r"
  shows "submission_for d' a s = map_option f (submission_for d a s)"
  unfolding submission_for_def assms(1)
  by (rule find_map_same) (simp add: assms(2,3))

lemma submission_for_upsert:
  "submission_for (upsert_submission_completed d aid sid ts sc) a s =
     (if (a, s) = (aid, sid)
      then (case submission_for d aid sid of
              Some r \<Rightarrow> Some (completed_with ts sc r)
            | None \<Rightarrow>
                Some \<lparr>submission_id = next_rowid (assignment_submissions_seq d)
                                       (map submission_id (assignment_submissions d)),
                      s_assignment_id = aid, s_student_id = sid, status = ''completed'',
                      completed_at = Some ts, score = Some sc, student_comment = None,
                      grade_out_of_10 = None\<rparr>)
      else submission_for d a s)"
proof (cases "submission_for d aid sid")
  case None
  then show ?thesis
    by (auto simp: submission_for_def upsert_submission_completed_def Let_def find_append
             split: option.splits)
next
  case (Some r)
  let ?f = "\<lambda>s. if s_assignment_id s = aid \<and> s_student_id s = sid
                then s\<lparr>status := ''completed'', completed_at := Some ts, score := Some sc\<rparr>
                else s"
  have rows: "assignment_submissions (upsert_submission_completed d aid sid ts sc)
      = map ?f (assignment_submissions d)"
    using Some by (simp add: upsert_submission_completed_def Let_def)
  have look: "submission_for (upsert_submission_completed d aid sid ts sc) a s
      = map_option ?f (submission_for d a s)"
    by (rule submission_for_map [OF rows]) simp_all
  show ?thesis
  proof (cases "submission_for d a s")
    case None
    with look Some show ?thesis by auto
  next
    case row: (Some r')
    from submission_for_SomeD [OF row] look row Some show ?thesis
      by (auto simp: completed_with_def)
  qed
qed

lemma submission_for_completed:
  "\<exists>t. \<forall>a s. submission_for
      (fst (snd (complete_assignment_if_any now_ts uid lang lid sc (d, k)))) a s
     = map_option (\<lambda>r. if submission_id r \<in> set (pending_submissions d uid lang lid)
                        then completed_with (now_ts (t (submission_id r))) sc r else r)
         (submission_for d a s)"
proof -
  from complete_assignment_if_any_rows [of now_ts uid lang lid sc d k]
  obtain t where rows: "assignment_submissions
      (fst (snd (complete_assignment_if_any now_ts uid lang lid sc (d, k))))
     = map (\<lambda>s. if submission_id s \<in> set (pending_submissions d uid lang lid)
                 then completed_with (now_ts (t (submission_id s))) sc s else s)
         (assignment_submissions d)"
    by blast
  have "submission_for (fst (snd (complete_assignment_if_any now_ts uid lang lid sc (d, k)))) a s
     = map_option (\<lambda>r. if submission_id r \<in> set (pending_submissions d uid lang lid)
                        then completed_with (now_ts (t (submission_id r))) sc r else r)
         (submission_for d a s)" for a s
    by (rule submission_for_map [OF rows]) (simp_all add: completed_with_def)
  then show ?thesis by blast
qed

text \<open>The ids the quiz path selects are ids of rows that are not completed.\<close>

lemma pending_submissions_iff:
  "i \<in> set (pending_submissions d uid lang lid) \<longleftrightarrow>
     (\<exists>s \<in> set (assignment_submissions d). \<exists>a \<in> set (assignments d).
        \<exists>cs \<in> set (classroom_students d).
          submission_id s = i \<and> assignment_id a = s_assignment_id s \<and>
          cs_classroom_id cs = a_classroom_id a \<and> s_student_id s = uid \<and>
          lesson_id a = lid \<and> lesson_lang a = lang \<and> status s \<noteq> ''completed'')"
  by (auto simp: pending_submissions_def)

lemma completed_not_pending:
  assumes "distinct (map submission_id (assignment_submissions d))"
    and "r \<in> set (assignment_submissions d)" and "status r = ''completed''"
  shows "submission_id r \<notin> set (pending_submissions d uid lang lid)"
proof
  assume "submission_id r \<in> set (pending_submissions d uid lang lid)"
  then obtain s where s: "s \<in> set (assignment_submissions d)" "submission_id s = submission_id r"
    "status s \<noteq> ''completed''"
    by (auto simp: pending_submissions_iff)
  from distinct_map_eq [OF assms(1) s(1) assms(2) s(2)] s(3) assms(3) show False by simp
qed

lemma submission_for_rows:
  "assignment_submissions d' = assignment_submissions d \<Longrightarrow> submission_for d' = submission_for d"
  by (intro ext) (simp add: submission_for_def)

lemma page_rows_of:
  "(a, so) \<in> set (case rows of [] \<Rightarrow> [(x, None)] | ss \<Rightarrow> map (\<lambda>s. (x, Some s)) ss) \<longleftrightarrow>
     a = x \<and> (rows = [] \<and> so = None \<or> (\<exists>s0 \<in> set rows. so = Some s0))"
  by (cases rows) auto

lemma student_assignment_rows_snapshot:
  assumes "(a, so) \<in> set (student_assignment_rows d uid)"
  shows "a \<in> set (assignments d)"
    and "\<exists>cs \<in> set (classroom_students d).
           cs_classroom_id cs = a_classroom_id a \<and> cs_student_id cs = uid"
    and "case so of
           None \<Rightarrow> submission_for d (assignment_id a) uid = None
         | Some s0 \<Rightarrow> s0 \<in> set (assignment_submissions d) \<and>
                      s_assignment_id s0 = assignment_id a \<and> s_student_id s0 = uid"
proof -
  from assms obtain cs c where
    h: "a \<in> set (assignments d)" "cs \<in> set (classroom_students d)" "c \<in> set (classrooms d)"
      "cs_classroom_id cs = a_classroom_id a" "cs_student_id cs = uid"
      "(a, so) \<in> set (case filter (\<lambda>s. s_assignment_id s = assignment_id a \<and>
                                        s_student_id s = cs_student_id cs) (assignment_submissions d) of
                         [] \<Rightarrow> [(a, None)]
                       | ss \<Rightarrow> map (\<lambda>s. (a, Some s)) ss)"
    by (auto simp: student_assignment_rows_def page_rows_of split: if_splits)
  from h(1) show "a \<in> set (assignments d)" .
  from h(2,4,5) show "\<exists>cs \<in> set (classroom_students d).
           cs_classroom_id cs = a_classroom_id a \<and> cs_student_id cs = uid"
    by blast
  show "case so of
           None \<Rightarrow> submission_for d (assignment_id a) uid = None
         | Some s0 \<Rightarrow> s0 \<in> set (assignment_submissions d) \<and>
                      s_assignment_id s0 = assignment_id a \<and> s_student_id s0 = uid"
  proof (cases "filter (\<lambda>s. s_assignment_id s = assignment_id a \<and> s_student_id s = uid)
                  (assignment_submissions d)")
    case Nil
    then have "submission_for d (assignment_id a) uid = None"
      by (auto simp: submission_for_def find_None_iff filter_empty_conv)
    with h(5,6) Nil show ?thesis by simp
  next
    case (Cons x xs)
    with h(5,6) obtain s0 where "so = Some s0"
      "s0 \<in> set (filter (\<lambda>s. s_assignment_id s = assignment_id a \<and> s_student_id s = uid)
                  (assignment_submissions d))"
      by auto
    then show ?thesis by simp
  qed
qed

lemma backfill_row_db:
  "fst (backfill_row now_ts uid x st) =
     (if backfills (fst st) uid x
      then upsert_submission_completed (fst st) (assignment_id (fst x)) uid (now_ts (fst (snd st)))
             (p_score (the (existing_progress (fst st) uid (lesson_lang (fst x)) (lesson_id (fst x)))))
      else fst st)"
  by (cases st; cases x) (auto simp: backfill_row_def backfills_def split: option.splits)

lemma backfills_progress:
  "progress d' = progress d \<Longrightarrow> backfills d' uid x = backfills d uid x"
  by (simp add: backfills_def existing_progress_def)

text \<open>
  A lookup survives the backfill loop with its grade, and unchanged when no backfilled
  row of the page has its key.
\<close>

lemma backfill_fold_lookup:
  assumes "submission_for (fst st) a s = Some row"
  shows "\<exists>row'. submission_for (fst (fold (backfill_row now_ts uid) xs st)) a s = Some row' \<and>
     submission_id row' = submission_id row \<and> grade_out_of_10 row' = grade_out_of_10 row \<and>
     ((\<forall>x \<in> set xs. backfills (fst st) uid x \<longrightarrow> (assignment_id (fst x), uid) \<noteq> (a, s))
        \<longrightarrow> row' = row)"
  using assms
proof (induction xs arbitrary: st row)
  case Nil
  then show ?case by simp
next
  case (Cons x xs)
  let ?st = "backfill_row now_ts uid x st"
  have prog: "progress (fst ?st) = progress (fst st)" by simp
  have "\<exists>r1. submission_for (fst ?st) a s = Some r1 \<and>
    submission_id r1 = submission_id row \<and> grade_out_of_10 r1 = grade_out_of_10 row \<and>
    (\<not> (backfills (fst st) uid x \<and> (assignment_id (fst x), uid) = (a, s)) \<longrightarrow> r1 = row)"
  proof (cases "backfills (fst st) uid x")
    case False
    with Cons.prems show ?thesis by (simp add: backfill_row_db)
  next
    case True
    show ?thesis
    proof (cases "(assignment_id (fst x), uid) = (a, s)")
      case False
      then have "(a, s) \<noteq> (assignment_id (fst x), uid)" by auto
      with True Cons.prems show ?thesis
        by (simp add: backfill_row_db submission_for_upsert del: prod.inject)
    next
      case same: True
      with True Cons.prems show ?thesis
        by (auto simp: backfill_row_db submission_for_upsert completed_with_def)
    qed
  qed
  then obtain r1 where r1: "submission_for (fst ?st) a s = Some r1"
    "submission_id r1 = submission_id row" "grade_out_of_10 r1 = grade_out_of_10 row"
    "\<not> (backfills (fst st) uid x \<and> (assignment_id (fst x), uid) = (a, s)) \<Longrightarrow> r1 = row"
    by blast
  from Cons.IH [OF r1(1)] obtain row' where
    row': "submission_for (fst (fold (backfill_row now_ts uid) xs ?st)) a s = Some row'"
      "submission_id row' = submission_id r1" "grade_out_of_10 row' = grade_out_of_10 r1"
      "(\<forall>x \<in> set xs. backfills (fst ?st) uid x \<longrightarrow> (assignment_id (fst x), uid) \<noteq> (a, s))
        \<Longrightarrow> row' = r1"
    by blast
  have "row' = row"
    if "\<forall>y \<in> set (x # xs). backfills (fst st) uid y \<longrightarrow> (assignment_id (fst y), uid) \<noteq> (a, s)"
    using that r1(4) row'(4) backfills_progress [OF prog] by auto
  with row'(1-3) r1(2,3) show ?case by auto
qed

section \<open>One request and an existing submission\<close>

lemma handle_lookup:
  assumes "submission_for d a s = Some row"
  shows "\<exists>row'. submission_for (handle data py_int r d) a s = Some row' \<and> kept_by r row row' \<and>
           (schema d \<and> status row = ''completed'' \<longrightarrow> completion_kept row row')"
proof -
  note key = submission_for_SomeD [OF assms]
  have same: "\<exists>row'. submission_for d' a s = Some row' \<and> kept_by r row row' \<and>
           (schema d \<and> status row = ''completed'' \<longrightarrow> completion_kept row row')"
    if "submission_for d' a s = Some row" for d'
    using that by (auto simp: kept_by_def completion_kept_def)
  show ?thesis
  proof (cases r)
    case (GradeQuiz now_ts today sess lang lid form)
    let ?d' = "snd (grade_quiz data now_ts today sess lang lid form d)"
    show ?thesis
    proof (cases "\<exists>uid lesson sc. sess_user_id sess = Some uid \<and> sess_role sess = Some ''Student'' \<and>
            get_lesson data lang lid = Some lesson \<and>
            quiz_score (correct_answers (quiz lesson) form) (length (quiz lesson)) = Inr sc \<and>
            70 \<le> sc \<and> lid \<notin> get_student_progress d uid lang")
      case False
      from grade_quiz_unchanged [OF this] assms GradeQuiz show ?thesis
        by (intro same) simp
    next
      case True
      then obtain uid lesson sc where h: "sess_user_id sess = Some uid"
        "sess_role sess = Some ''Student''" "get_lesson data lang lid = Some lesson"
        "quiz_score (correct_answers (quiz lesson) form) (length (quiz lesson)) = Inr sc"
        "70 \<le> sc" "lid \<notin> get_student_progress d uid lang"
        by blast
      show ?thesis
      proof (cases "get_user d uid")
        case None
        from grade_quiz_crash [OF h None] assms GradeQuiz show ?thesis
          by (intro same) (simp add: submission_for_def)
      next
        case (Some u)
        then have "get_user d uid \<noteq> None" by simp
        from grade_quiz_tables(7) [OF h this, of now_ts today] obtain t where
          rows: "assignment_submissions ?d'
            = map (\<lambda>s. if submission_id s \<in> set (pending_submissions d uid lang lid)
                        then completed_with (now_ts (t (submission_id s))) sc s else s)
                (assignment_submissions d)"
          by blast
        have look: "submission_for ?d' a s
            = map_option (\<lambda>s. if submission_id s \<in> set (pending_submissions d uid lang lid)
                        then completed_with (now_ts (t (submission_id s))) sc s else s)
                (submission_for d a s)"
          by (rule submission_for_map [OF rows]) (simp_all add: completed_with_def)
        have "submission_id row \<notin> set (pending_submissions d uid lang lid)"
          if "schema d" "status row = ''completed''"
          using that key completed_not_pending [of d row] by (simp add: schema_def)
        with look assms GradeQuiz show ?thesis
          by (auto simp: kept_by_def completion_kept_def completed_with_def)
      qed
    qed
  next
    case (StudentClassroomPost now_ts sess code)
    from student_classroom_post_cases [of now_ts sess code d] assms
    have "submission_for (snd (student_classroom_post now_ts sess code d)) a s = Some row"
      by (auto simp: join_classroom_def Let_def intro!: fold_reconcile_kept)
    with StudentClassroomPost show ?thesis by (intro same) simp
  next
    case (JoinClassByCode now_ts sess code)
    from join_class_by_code_cases [of now_ts sess code d] assms
    have "submission_for (snd (join_class_by_code now_ts sess code d)) a s = Some row"
      by (auto simp: join_classroom_def Let_def intro!: fold_reconcile_kept)
    with JoinClassByCode show ?thesis by (intro same) simp
  next
    case (TeacherCreateAssignment now_ts sess cid lang lid due comment)
    let ?d' = "snd (teacher_create_assignment now_ts sess cid lang lid due comment d)"
    from teacher_create_assignment_cases [of now_ts sess cid lang lid due comment d]
    have "submission_for ?d' a s = Some row"
    proof
      assume "?d' = d"
      with assms show ?thesis by simp
    next
      assume "\<exists>uid c. sess_user_id sess = Some uid \<and> sess_role sess = Some ''Teacher'' \<and>
        find (\<lambda>c. classroom_id c = cid \<and> teacher_id c = uid) (classrooms d) = Some c"
      then obtain uid c where h: "sess_user_id sess = Some uid" "sess_role sess = Some ''Teacher''"
        "find (\<lambda>c. classroom_id c = cid \<and> teacher_id c = uid) (classrooms d) = Some c"
        by blast
      have "submission_for (insert_assignment now_ts cid lang lid due comment d) a s = Some row"
        using assms by (simp add: submission_for_def insert_assignment_def)
      then have "submission_for (fst (ensure_assignment_submissions now_ts
              (assignment_id (new_assignment now_ts cid lang lid due comment d)) cid lang lid
              (insert_assignment now_ts cid lang lid due comment d, 1))) a s = Some row"
        by (auto simp: ensure_assignment_submissions_def intro!: fold_reconcile_kept)
      with submission_for_rows [OF teacher_create_assignment_tables(6) [OF h]]
      show ?thesis by simp
    qed
    with TeacherCreateAssignment show ?thesis by (intro same) simp
  next
    case (TeacherGradeSubmission now_ts sess sub grade)
    let ?d' = "snd (teacher_grade_submission py_int now_ts sess sub grade d)"
    from teacher_grade_submission_cases [of py_int now_ts sess sub grade d]
    show ?thesis
    proof
      assume "?d' = d"
      with assms TeacherGradeSubmission show ?thesis by (intro same) simp
    next
      assume "\<exists>v. 0 \<le> v \<and> v \<le> 10 \<and> users ?d' = users d \<and> classrooms ?d' = classrooms d \<and>
        classroom_students ?d' = classroom_students d \<and> assignments ?d' = assignments d \<and>
        progress ?d' = progress d \<and>
        assignment_submissions ?d'
          = map (\<lambda>r. if submission_id r = sub then r\<lparr>grade_out_of_10 := Some v\<rparr> else r)
              (assignment_submissions d)"
      then obtain v where rows: "assignment_submissions ?d'
          = map (\<lambda>r. if submission_id r = sub then r\<lparr>grade_out_of_10 := Some v\<rparr> else r)
              (assignment_submissions d)"
        by blast
      have "submission_for ?d' a s
          = map_option (\<lambda>r. if submission_id r = sub then r\<lparr>grade_out_of_10 := Some v\<rparr> else r)
              (submission_for d a s)"
        by (rule submission_for_map [OF rows]) simp_all
      with assms TeacherGradeSubmission show ?thesis
        by (auto simp: kept_by_def completion_kept_def)
    qed
  next
    case (StudentClassroomGet now_ts sess)
    let ?d' = "snd (student_classroom_get now_ts sess d)"
    from student_classroom_get_cases [of now_ts sess d]
    show ?thesis
    proof
      assume "?d' = d"
      with assms StudentClassroomGet show ?thesis by (intro same) simp
    next
      assume "\<exists>uid. sess_user_id sess = Some uid \<and> sess_role sess = Some ''Student'' \<and>
        ?d' = fst (fold (backfill_row now_ts uid) (student_assignment_rows d uid) (d, 0, []))"
      then obtain uid where
        d': "?d' = fst (fold (backfill_row now_ts uid) (student_assignment_rows d uid) (d, 0, []))"
        by blast
      from backfill_fold_lookup [of "(d, 0, [])" a s row now_ts uid "student_assignment_rows d uid"]
        assms
      obtain row' where row': "submission_for ?d' a s = Some row'"
        "submission_id row' = submission_id row" "grade_out_of_10 row' = grade_out_of_10 row"
        "(\<forall>x \<in> set (student_assignment_rows d uid).
            backfills d uid x \<longrightarrow> (assignment_id (fst x), uid) \<noteq> (a, s)) \<Longrightarrow> row' = row"
        unfolding d' by auto
      have "row' = row" if sch: "schema d" and fin: "status row = ''completed''"
      proof (rule row'(4), intro ballI impI)
        fix x
        assume x: "x \<in> set (student_assignment_rows d uid)" and b: "backfills d uid x"
        show "(assignment_id (fst x), uid) \<noteq> (a, s)"
        proof
          assume eq: "(assignment_id (fst x), uid) = (a, s)"
          obtain a' so where xs: "x = (a', so)" by (cases x)
          from student_assignment_rows_snapshot(3) [of a' so d uid] x xs eq assms
          obtain s0 where s0: "so = Some s0" "s0 \<in> set (assignment_submissions d)"
            "s_assignment_id s0 = a" "s_student_id s0 = s"
            by (cases so) auto
          from sch have "distinct (map (\<lambda>r. (s_assignment_id r, s_student_id r))
              (assignment_submissions d))"
            by (simp add: schema_def)
          from submission_for_row [OF this s0(2)] s0(3,4) assms have "s0 = row" by simp
          with b xs s0(1) fin show False by (simp add: backfills_def)
        qed
      qed
      with row'(1-3) key StudentClassroomGet submission_for_SomeD [OF row'(1)] show ?thesis
        by (auto simp: kept_by_def completion_kept_def)
    qed
  qed
qed

section \<open>Runs and existing submissions\<close>

lemma run_lookup:
  assumes "submission_for d a s = Some row"
  shows "\<exists>row'. submission_for (run data py_int rs d) a s = Some row' \<and>
           submission_id row' = submission_id row \<and>
           ((\<forall>r \<in> set rs. reconciles r) \<longrightarrow> grade_out_of_10 row' = grade_out_of_10 row) \<and>
           (schema d \<and> status row = ''completed'' \<longrightarrow> completion_kept row row')"
  using assms
proof (induction rs arbitrary: d row)
  case Nil
  then show ?case by (simp add: run_def completion_kept_def)
next
  case (Cons r rs)
  from handle_lookup [OF Cons.prems, of data py_int r] obtain r1 where
    r1: "submission_for (handle data py_int r d) a s = Some r1" "kept_by r row r1"
      "schema d \<and> status row = ''completed'' \<longrightarrow> completion_kept row r1"
    by blast
  from Cons.IH [OF r1(1)] obtain row' where
    row': "submission_for (run data py_int rs (handle data py_int r d)) a s = Some row'"
      "submission_id row' = submission_id r1"
      "(\<forall>r \<in> set rs. reconciles r) \<longrightarrow> grade_out_of_10 row' = grade_out_of_10 r1"
      "schema (handle data py_int r d) \<and> status r1 = ''completed'' \<longrightarrow> completion_kept r1 row'"
    by blast
  have "completion_kept row row'" if "schema d" "status row = ''completed''"
    using that r1(3) row'(4) schema_handle [of d data py_int r]
    by (simp add: completion_kept_def)
  with r1(2) row' show ?case
    by (auto simp: run_def kept_by_def)
qed

text \<open>
  C3. A submission that is completed stays completed, with the completion time and the
  score it has, through every run of requests: quiz grading, both join paths, assignment
  creation, the backfill of the classroom page and the teacher's grading.
\<close>

theorem completed_stays_completed:
  assumes "schema d" and "submission_for d a s = Some row" and "status row = ''completed''"
  shows "\<exists>row'. submission_for (run data py_int rs d) a s = Some row' \<and>
           status row' = ''completed'' \<and> completed_at row' = completed_at row \<and>
           score row' = score row"
  using run_lookup [OF assms(2), of data py_int rs] assms(1,3)
  by (auto simp: completion_kept_def)


lemma schema_graded_db: "schema graded_db"
  by (simp add: schema_def graded_db_def demo_db_def empty_db_def)

text \<open>
  The graded submission of user 7 through a second join, a quiz, a grading and a visit
  of the classroom page.
\<close>

theorem completed_stays_completed_witness:
  "schema graded_db \<and>
   map_option status (submission_for graded_db 1 7) = Some ''completed'' \<and>
   (\<exists>row'. submission_for
       (run demo_lessons demo_int
          [JoinClassByCode demo_clock student7 ''AB12CD'',
           GradeQuiz demo_clock 739000 student7 ''python'' 3 form_17_right,
           TeacherGradeSubmission demo_clock teacher1 1 (Some ''8''),
           StudentClassroomGet demo_clock student7] graded_db) 1 7 = Some row' \<and>
      status row' = ''completed'' \<and>
      completed_at row' = Some ''2024-01-03T08:00:00.000001'' \<and> score row' = Some 85)"
proof -
  let ?row = "\<lparr>submission_id = 1, s_assignment_id = 1, s_student_id = 7, status = ''completed'',
          completed_at = Some ''2024-01-03T08:00:00.000001'', score = Some 85,
          student_comment = None, grade_out_of_10 = Some 5\<rparr>"
  have row: "submission_for graded_db 1 7 = Some ?row"
    by (simp add: submission_for_def graded_db_def)
  have st: "status ?row = ''completed''" by simp
  from completed_stays_completed [OF schema_graded_db row st, of demo_lessons demo_int
      "[JoinClassByCode demo_clock student7 ''AB12CD'',
        GradeQuiz demo_clock 739000 student7 ''python'' 3 form_17_right,
        TeacherGradeSubmission demo_clock teacher1 1 (Some ''8''),
        StudentClassroomGet demo_clock student7]"]
    schema_graded_db row
  show ?thesis by simp
qed

section \<open>The grade is outside reconciliation\<close>

lemma teacher_grade_submission_lookup:
  assumes "schema d"
    and "sess_user_id sess = Some uid" and "sess_role sess = Some ''Teacher''"
    and "grade = Some g" "py_int g = Some v" "0 \<le> v" "v \<le> 10"
    and "s0 \<in> set (assignment_submissions d)" "submission_id s0 = sub"
    and "a0 \<in> set (assignments d)" "assignment_id a0 = s_assignment_id s0"
  shows "submission_for (snd (teacher_grade_submission py_int now_ts sess sub grade d))
           (s_assignment_id s0) (s_student_id s0) = Some (s0\<lparr>grade_out_of_10 := Some v\<rparr>)"
proof -
  from grade_accepted [of sess uid grade g py_int v s0 d sub a0 now_ts] assms(2-11)
  have rows: "assignment_submissions (snd (teacher_grade_submission py_int now_ts sess sub grade d))
      = map (\<lambda>r. if submission_id r = sub then r\<lparr>grade_out_of_10 := Some v\<rparr> else r)
          (assignment_submissions d)"
    by simp
  from assms(1) have "distinct (map (\<lambda>r. (s_assignment_id r, s_student_id r))
      (assignment_submissions d))"
    by (simp add: schema_def)
  from submission_for_row [OF this assms(8)]
  have "submission_for d (s_assignment_id s0) (s_student_id s0) = Some s0" .
  moreover have "submission_for (snd (teacher_grade_submission py_int now_ts sess sub grade d))
      (s_assignment_id s0) (s_student_id s0)
      = map_option (\<lambda>r. if submission_id r = sub then r\<lparr>grade_out_of_10 := Some v\<rparr> else r)
          (submission_for d (s_assignment_id s0) (s_student_id s0))"
    by (rule submission_for_map [OF rows]) simp_all
  ultimately show ?thesis using assms(9) by simp
qed

section \<open>Whether a quiz request records a pass\<close>

lemma quiz_pass_None:
  "quiz_pass data sess lang lid form d = None \<Longrightarrow>
   snd (grade_quiz data now_ts today sess lang lid form d) = d"
  by (rule grade_quiz_unchanged)
     (auto simp: quiz_pass_def split: option.splits sum.splits if_splits)

lemma quiz_pass_SomeD:
  "quiz_pass data sess lang lid form d = Some (uid, lesson, sc) \<Longrightarrow>
   sess_user_id sess = Some uid \<and> sess_role sess = Some ''Student'' \<and>
   get_lesson data lang lid = Some lesson \<and>
   quiz_score (correct_answers (quiz lesson) form) (length (quiz lesson)) = Inr sc \<and>
   70 \<le> sc \<and> lid \<notin> get_student_progress d uid lang"
  by (auto simp: quiz_pass_def split: option.splits sum.splits if_splits)

lemma quiz_pass_completed:
  assumes "sess_user_id sess = Some uid" and "lid \<in> get_student_progress d uid lang"
  shows "quiz_pass data sess lang lid form d = None"
  using assms by (auto simp: quiz_pass_def split: option.splits sum.splits)

section \<open>Reconciliation commutes with regrading\<close>

lemma regrade_frame [simp]:
  "users (regrade h d) = users d"
  "classrooms (regrade h d) = classrooms d"
  "classroom_students (regrade h d) = classroom_students d"
  "assignments (regrade h d) = assignments d"
  "assignments_seq (regrade h d) = assignments_seq d"
  "assignment_submissions_seq (regrade h d) = assignment_submissions_seq d"
  "progress (regrade h d) = progress d"
  "notifications (regrade h d) = notifications d"
  "stream_posts (regrade h d) = stream_posts d"
  "assignment_submissions (regrade h d) = map (regrade_row h) (assignment_submissions d)"
  by (simp_all add: regrade_def)

lemma regrade_row_fields [simp]:
  "submission_id (regrade_row h s) = submission_id s"
  "s_assignment_id (regrade_row h s) = s_assignment_id s"
  "s_student_id (regrade_row h s) = s_student_id s"
  "status (regrade_row h s) = status s"
  "completed_at (regrade_row h s) = completed_at s"
  "score (regrade_row h s) = score s"
  "student_comment (regrade_row h s) = student_comment s"
  "grade_out_of_10 (regrade_row h s) = h (grade_out_of_10 s)"
  by (simp_all add: regrade_row_def)

lemma regrade_ids [simp]:
  "map submission_id (map (regrade_row h) rows) = map submission_id rows"
  by simp

lemma regrade_update:
  "regrade h (d\<lparr>assignment_submissions := rows\<rparr>)
     = (regrade h d)\<lparr>assignment_submissions := map (regrade_row h) rows\<rparr>"
  "regrade h (d\<lparr>assignment_submissions_seq := n\<rparr>) = (regrade h d)\<lparr>assignment_submissions_seq := n\<rparr>"
  "regrade h (d\<lparr>users := us\<rparr>) = (regrade h d)\<lparr>users := us\<rparr>"
  "regrade h (d\<lparr>classroom_students := cs\<rparr>) = (regrade h d)\<lparr>classroom_students := cs\<rparr>"
  "regrade h (d\<lparr>assignments := as\<rparr>) = (regrade h d)\<lparr>assignments := as\<rparr>"
  "regrade h (d\<lparr>assignments_seq := n\<rparr>) = (regrade h d)\<lparr>assignments_seq := n\<rparr>"
  "regrade h (d\<lparr>progress := ps\<rparr>) = (regrade h d)\<lparr>progress := ps\<rparr>"
  "regrade h (d\<lparr>notifications := ns\<rparr>) = (regrade h d)\<lparr>notifications := ns\<rparr>"
  "regrade h (d\<lparr>stream_posts := sp\<rparr>) = (regrade h d)\<lparr>stream_posts := sp\<rparr>"
  by (simp_all add: regrade_def)

lemma submission_for_regrade:
  "submission_for (regrade h d) a s = map_option (regrade_row h) (submission_for d a s)"
  by (rule submission_for_map [where f = "regrade_row h"]) simp_all

lemma existing_progress_regrade [simp]:
  "existing_progress (regrade h d) sid lang lid = existing_progress d sid lang lid"
  by (simp add: existing_progress_def)

lemma insert_or_ignore_submission_regrade:
  assumes "h None = None"
  shows "insert_or_ignore_submission (regrade h d) aid sid st cat sc
     = regrade h (insert_or_ignore_submission d aid sid st cat sc)"
  using assms
  by (simp add: insert_or_ignore_submission_def Let_def submission_for_regrade regrade_update
        regrade_row_def comp_def)

lemma reconcile_regrade:
  assumes "h None = None"
  shows "reconcile now_ts aid lang lid sid (apfst (regrade h) st)
     = apfst (regrade h) (reconcile now_ts aid lang lid sid st)"
  by (cases st)
     (simp add: reconcile_def insert_or_ignore_submission_regrade [of h] assms split: option.splits)

lemma fold_reconcile_regrade:
  assumes "h None = None"
  shows "fold (\<lambda>x. reconcile now_ts (fa x) (fl x) (fi x) (fs x)) xs (apfst (regrade h) st)
     = apfst (regrade h) (fold (\<lambda>x. reconcile now_ts (fa x) (fl x) (fi x) (fs x)) xs st)"
  by (induction xs arbitrary: st) (simp_all add: reconcile_regrade [of h] assms)

lemma ensure_assignment_submissions_regrade:
  assumes "h None = None"
  shows "ensure_assignment_submissions now_ts aid cid lang lid (apfst (regrade h) st)
     = apfst (regrade h) (ensure_assignment_submissions now_ts aid cid lang lid st)"
proof -
  obtain d k where st: "st = (d, k)" by (cases st)
  from fold_reconcile_regrade [where h = h and now_ts = now_ts and fa = "\<lambda>x. aid"
      and fl = "\<lambda>x. lang" and fi = "\<lambda>x. lid" and fs = cs_student_id and st = "(d, k)"
      and xs = "filter (\<lambda>cs. cs_classroom_id cs = cid) (classroom_students d)"] assms
  show ?thesis by (simp add: st ensure_assignment_submissions_def Let_def)
qed

lemma pending_submissions_regrade [simp]:
  "pending_submissions (regrade h d) uid lang lid = pending_submissions d uid lang lid"
  by (simp add: pending_submissions_def map_concat comp_def cong: if_cong)

lemma mark_completed_regrade:
  "mark_completed sub ts sc (regrade_row h s) = regrade_row h (mark_completed sub ts sc s)"
  by (simp add: mark_completed_def regrade_row_def)

lemma complete_fold_regrade:
  "fold (\<lambda>sub (d, k).
      (d\<lparr>assignment_submissions := map (mark_completed sub (now_ts k) sc) (assignment_submissions d)\<rparr>,
       Suc k)) ids (apfst (regrade h) st)
   = apfst (regrade h) (fold (\<lambda>sub (d, k).
      (d\<lparr>assignment_submissions := map (mark_completed sub (now_ts k) sc) (assignment_submissions d)\<rparr>,
       Suc k)) ids st)"
proof (induction ids arbitrary: st)
  case Nil
  show ?case by simp
next
  case (Cons i ids)
  obtain d k where st: "st = (d, k)" by (cases st)
  have "(regrade h d)\<lparr>assignment_submissions :=
           map (mark_completed i (now_ts k) sc) (assignment_submissions (regrade h d))\<rparr>
      = regrade h (d\<lparr>assignment_submissions :=
           map (mark_completed i (now_ts k) sc) (assignment_submissions d)\<rparr>)"
    by (simp add: regrade_def mark_completed_regrade comp_def)
  with Cons.IH [of "(d\<lparr>assignment_submissions :=
           map (mark_completed i (now_ts k) sc) (assignment_submissions d)\<rparr>, Suc k)"]
  show ?case by (simp add: st)
qed

lemma complete_assignment_if_any_regrade:
  "complete_assignment_if_any now_ts uid lang lid sc (apfst (regrade h) st)
     = apsnd (apfst (regrade h)) (complete_assignment_if_any now_ts uid lang lid sc st)"
  by (cases st) (simp add: complete_assignment_if_any_def Let_def
        complete_fold_regrade [where st = "(d, k)" for d k, simplified])

lemma update_streak_regrade:
  "update_streak today (regrade h d) uid = map_sum id (regrade h) (update_streak today d uid)"
  by (simp add: update_streak_def get_user_def Let_def regrade_update split: option.splits)

lemma insert_progress_regrade:
  "insert_progress (regrade h d) row = map_sum id (regrade h) (insert_progress d row)"
  by (simp add: insert_progress_def regrade_update)

lemma get_student_progress_regrade [simp]:
  "get_student_progress (regrade h d) uid lang = get_student_progress d uid lang"
  by (simp add: get_student_progress_def)

lemma grade_quiz_regrade:
  "grade_quiz data now_ts today sess lang lid form (regrade h d)
     = apsnd (regrade h) (grade_quiz data now_ts today sess lang lid form d)"
proof (cases "quiz_pass data sess lang lid form d")
  case None
  show ?thesis
  proof (cases "sess_user_id sess")
    case None
    then show ?thesis by (simp add: grade_quiz_def)
  next
    case (Some uid)
    note uid = this
    show ?thesis
    proof (cases "sess_role sess = Some ''Student''")
      case False
      with uid show ?thesis by (simp add: grade_quiz_def require_role_def)
    next
      case True
      note role = this
      show ?thesis
      proof (cases "get_lesson data lang lid")
        case None
        with uid role show ?thesis by (simp add: grade_quiz_def require_role_def)
      next
        case (Some lesson)
        note lesson = this
        show ?thesis
        proof (cases "quiz_score (correct_answers (quiz lesson) form) (length (quiz lesson))")
          case (Inl e)
          with uid role lesson show ?thesis
            by (simp add: grade_quiz_def require_role_def Let_def)
        next
          case (Inr sc)
          with \<open>quiz_pass data sess lang lid form d = None\<close> uid role lesson
          have "\<not> 70 \<le> sc \<or> lid \<in> get_student_progress d uid lang"
            by (simp add: quiz_pass_def split: if_splits)
          then show ?thesis
          proof
            assume "\<not> 70 \<le> sc"
            with uid role lesson Inr show ?thesis
              by (simp add: grade_quiz_def require_role_def Let_def)
          next
            assume "lid \<in> get_student_progress d uid lang"
            with uid role lesson Inr show ?thesis
              by (simp add: grade_quiz_def require_role_def Let_def)
          qed
        qed
      qed
    qed
  qed
next
  case (Some t)
  obtain uid lesson sc where t: "t = (uid, lesson, sc)" by (cases t)
  note q = quiz_pass_SomeD [OF Some [unfolded t]]
  let ?row = "\<lparr>p_student_id = uid, p_lesson_id = lid, p_lesson_lang = lang,
               p_completed_at = now_ts 0, p_score = sc,
               p_xp = (case l_xp lesson of None \<Rightarrow> 100 | Some x \<Rightarrow> x)\<rparr>"
  show ?thesis
  proof (cases "insert_progress d ?row")
    case (Inl e)
    with q show ?thesis
      by (simp add: grade_quiz_def Let_def require_role_def insert_progress_regrade)
  next
    case (Inr d1)
    note d1 = this
    show ?thesis
    proof (cases "update_streak today d1 uid")
      case (Inl e)
      with q d1 show ?thesis
        by (simp add: grade_quiz_def Let_def require_role_def insert_progress_regrade
              update_streak_regrade)
    next
      case (Inr d2)
      obtain b d3 k where c: "complete_assignment_if_any now_ts uid lang lid sc (d2, 1) = (b, d3, k)"
        by (cases "complete_assignment_if_any now_ts uid lang lid sc (d2, 1)")
      with complete_assignment_if_any_regrade [of now_ts uid lang lid sc h "(d2, 1)"]
      have "complete_assignment_if_any now_ts uid lang lid sc (regrade h d2, 1)
          = (b, regrade h d3, k)"
        by simp
      with q d1 Inr c show ?thesis
        by (simp add: grade_quiz_def Let_def require_role_def insert_progress_regrade
              update_streak_regrade)
    qed
  qed
qed

lemma insert_or_ignore_classroom_student_regrade:
  "insert_or_ignore_classroom_student (regrade h d) cid uid ts
     = regrade h (insert_or_ignore_classroom_student d cid uid ts)"
  by (simp add: insert_or_ignore_classroom_student_def regrade_update)

lemma join_classroom_regrade:
  assumes "h None = None"
  shows "join_classroom now_ts cid uid (regrade h d) = regrade h (join_classroom now_ts cid uid d)"
proof -
  let ?d1 = "insert_or_ignore_classroom_student d cid uid (now_ts 0)"
  from fold_reconcile_regrade [where h = h and now_ts = now_ts and fa = assignment_id
      and fl = lesson_lang and fi = lesson_id and fs = "\<lambda>a. uid" and st = "(?d1, 1)"
      and xs = "filter (\<lambda>a. a_classroom_id a = cid) (assignments ?d1)"] assms
  show ?thesis
    by (simp add: join_classroom_def Let_def insert_or_ignore_classroom_student_regrade)
qed

lemma student_classroom_post_regrade:
  assumes "h None = None"
  shows "student_classroom_post now_ts sess code (regrade h d)
     = apsnd (regrade h) (student_classroom_post now_ts sess code d)"
  by (simp add: student_classroom_post_def join_classroom_regrade [of h] assms split: option.splits)

lemma join_class_by_code_regrade:
  assumes "h None = None"
  shows "join_class_by_code now_ts sess code (regrade h d)
     = apsnd (regrade h) (join_class_by_code now_ts sess code d)"
  by (simp add: join_class_by_code_def join_classroom_regrade [of h] assms split: option.splits)

lemma create_stream_post_regrade:
  "create_stream_post (regrade h d) cid author k title aud student ts
     = regrade h (create_stream_post d cid author k title aud student ts)"
  by (simp add: create_stream_post_def regrade_update)

lemma create_notification_regrade:
  "create_notification (regrade h d) uid title cid ts
     = regrade h (create_notification d uid title cid ts)"
  by (simp add: create_notification_def regrade_update)

lemma notify_fold_regrade:
  "fold (\<lambda>student (d, k).
      (create_notification d (f student) title cid (now_ts k), Suc k)) xs (apfst (regrade h) st)
   = apfst (regrade h) (fold (\<lambda>student (d, k).
      (create_notification d (f student) title cid (now_ts k), Suc k)) xs st)"
proof (induction xs arbitrary: st)
  case Nil
  show ?case by simp
next
  case (Cons x xs)
  obtain d k where st: "st = (d, k)" by (cases st)
  from Cons.IH [of "(create_notification d (f x) title cid (now_ts k), Suc k)"]
  show ?case by (simp add: st create_notification_regrade)
qed

lemma teacher_create_assignment_regrade:
  assumes "h None = None"
  shows "teacher_create_assignment now_ts sess cid lang lid due comment (regrade h d)
     = apsnd (regrade h) (teacher_create_assignment now_ts sess cid lang lid due comment d)"
proof (cases "sess_user_id sess")
  case None
  then show ?thesis by (simp add: teacher_create_assignment_def)
next
  case (Some uid)
  note uid = this
  show ?thesis
  proof (cases "require_role sess ''Teacher''")
    case True
    with uid show ?thesis by (simp add: teacher_create_assignment_def)
  next
    case False
    note role = this
    show ?thesis
    proof (cases "find (\<lambda>c. classroom_id c = cid \<and> teacher_id c = uid) (classrooms d)")
      case None
      with uid role show ?thesis by (simp add: teacher_create_assignment_def)
    next
      case (Some c)
      let ?d1 = "insert_assignment now_ts cid lang lid due comment d"
      let ?aid = "next_rowid (assignments_seq d) (map assignment_id (assignments d))"
      let ?r1 = "(regrade h d)\<lparr>assignments := assignments d @
                     [new_assignment now_ts cid lang lid due comment d],
                   assignments_seq := ?aid\<rparr>"
      have d1: "regrade h ?d1 = ?r1"
        by (simp add: insert_assignment_def new_assignment_def regrade_update)
      obtain d2 k where e: "ensure_assignment_submissions now_ts ?aid cid lang lid (?d1, 1) = (d2, k)"
        by (cases "ensure_assignment_submissions now_ts ?aid cid lang lid (?d1, 1)")
      from ensure_assignment_submissions_regrade [of h now_ts ?aid cid lang lid "(?d1, 1)"] assms e
      have e': "ensure_assignment_submissions now_ts ?aid cid lang lid (?r1, 1)
          = (regrade h d2, k)"
        by (simp add: d1)
      let ?d3 = "create_stream_post d2 cid uid ''assignment'' ''New assignment''
                   ''class'' None (now_ts k)"
      have n: "fold (\<lambda>student (d, k).
            (create_notification d (cs_student_id student) ''New assignment posted'' (Some cid)
               (now_ts k), Suc k)) xs (regrade h ?d3, Suc k)
         = apfst (regrade h) (fold (\<lambda>student (d, k).
            (create_notification d (cs_student_id student) ''New assignment posted'' (Some cid)
               (now_ts k), Suc k)) xs (?d3, Suc k))" for xs
        using notify_fold_regrade [of cs_student_id "''New assignment posted''" "Some cid"
            now_ts xs h "(?d3, Suc k)"]
        by simp
      have l: "teacher_create_assignment now_ts sess cid lang lid due comment (regrade h d)
          = (Redirect ''teacher_classroom'',
             fst (fold (\<lambda>student (d, k).
                (create_notification d (cs_student_id student) ''New assignment posted''
                   (Some cid) (now_ts k), Suc k))
               (filter (\<lambda>cs. cs_classroom_id cs = cid) (classroom_students ?d3))
               (regrade h ?d3, Suc k)))"
        using uid role Some e'
        by (simp add: teacher_create_assignment_def Let_def new_assignment_def
              create_stream_post_regrade)
      have r: "teacher_create_assignment now_ts sess cid lang lid due comment d
          = (Redirect ''teacher_classroom'',
             fst (fold (\<lambda>student (d, k).
                (create_notification d (cs_student_id student) ''New assignment posted''
                   (Some cid) (now_ts k), Suc k))
               (filter (\<lambda>cs. cs_classroom_id cs = cid) (classroom_students ?d3))
               (?d3, Suc k)))"
        using uid role Some e
        by (simp add: teacher_create_assignment_def Let_def insert_assignment_def
              new_assignment_def)
      show ?thesis unfolding l r n by simp
    qed
  qed
qed

lemma upsert_submission_completed_regrade:
  assumes "h None = None"
  shows "upsert_submission_completed (regrade h d) aid sid ts sc
     = regrade h (upsert_submission_completed d aid sid ts sc)"
  using assms
  by (simp add: upsert_submission_completed_def Let_def submission_for_regrade regrade_update
        regrade_row_def comp_def)

lemma student_assignment_rows_regrade:
  "student_assignment_rows (regrade h d) uid
     = map (apsnd (map_option (regrade_row h))) (student_assignment_rows d uid)"
proof -
  have one: "(case filter P (map (regrade_row h) rows) of
               [] \<Rightarrow> [(a, None)]
             | ss \<Rightarrow> map (\<lambda>s. (a, Some s)) ss)
      = map (apsnd (map_option (regrade_row h)))
          (case filter (P \<circ> regrade_row h) rows of
               [] \<Rightarrow> [(a, None)]
             | ss \<Rightarrow> map (\<lambda>s. (a, Some s)) ss)"
    for P rows and a :: assignment
    by (simp add: filter_map split: list.splits)
  show ?thesis
    unfolding student_assignment_rows_def regrade_frame
    by (simp add: one map_concat comp_def
          if_distrib [where f = "map (map (apsnd (map_option (regrade_row h))))"]
          cong: if_cong)
qed

lemma backfill_row_regrade:
  assumes "h None = None"
  shows "backfill_row now_ts uid (apsnd (map_option (regrade_row h)) x) (apfst (regrade h) st)
     = apfst (regrade h) (backfill_row now_ts uid x st)"
proof -
  obtain a s where x: "x = (a, s)" by (cases x)
  obtain d k ua where st: "st = (d, k, ua)" by (cases st)
  have e: "map_option status (map_option (regrade_row h) s) = map_option status s"
    by (cases s) simp_all
  show ?thesis
    unfolding x st backfill_row_def apsnd_conv apfst_conv prod.case e
    by (cases "existing_progress d uid (lesson_lang a) (lesson_id a)")
       (simp_all add: upsert_submission_completed_regrade [of h] assms)
qed

lemma backfill_fold_regrade:
  assumes "h None = None"
  shows "fold (backfill_row now_ts uid) (map (apsnd (map_option (regrade_row h))) xs)
       (apfst (regrade h) st)
     = apfst (regrade h) (fold (backfill_row now_ts uid) xs st)"
  by (induction xs arbitrary: st) (simp_all add: backfill_row_regrade [of h] assms)

lemma get_stream_posts_for_student_regrade [simp]:
  "get_stream_posts_for_student (regrade h d) classroom_ids sid
     = get_stream_posts_for_student d classroom_ids sid"
  by (simp add: get_stream_posts_for_student_def)

lemma student_classroom_get_regrade:
  assumes "h None = None"
  shows "student_classroom_get now_ts sess (regrade h d)
     = apsnd (regrade h) (student_classroom_get now_ts sess d)"
proof (cases "sess_user_id sess")
  case None
  then show ?thesis by (simp add: student_classroom_get_def)
next
  case (Some uid)
  show ?thesis
  proof (cases "require_role sess ''Student''")
    case True
    with Some show ?thesis by (simp add: student_classroom_get_def)
  next
    case False
    obtain d' k ua where f: "fold (backfill_row now_ts uid) (student_assignment_rows d uid) (d, 0, [])
        = (d', k, ua)"
      by (cases "fold (backfill_row now_ts uid) (student_assignment_rows d uid) (d, 0, [])")
    from backfill_fold_regrade [of h now_ts uid "student_assignment_rows d uid" "(d, 0, [])"] assms f
    have "fold (backfill_row now_ts uid) (student_assignment_rows (regrade h d) uid)
        (regrade h d, 0, []) = (regrade h d', k, ua)"
      by (simp add: student_assignment_rows_regrade)
    with Some False f show ?thesis
      by (simp add: student_classroom_get_def Let_def)
  qed
qed

lemma handle_regrade:
  assumes "h None = None" and "reconciles r"
  shows "handle data py_int r (regrade h d) = regrade h (handle data py_int r d)"
  using assms(2)
  by (cases r)
     (simp_all add: grade_quiz_regrade student_classroom_post_regrade [of h]
        join_class_by_code_regrade [of h] teacher_create_assignment_regrade [of h]
        student_classroom_get_regrade [of h] assms(1))

lemma run_regrade:
  assumes "h None = None" and "\<forall>r \<in> set rs. reconciles r"
  shows "run data py_int rs (regrade h d) = regrade h (run data py_int rs d)"
  using assms(2)
  by (induction rs arbitrary: d) (simp_all add: run_def handle_regrade [of h] assms(1))

lemma run_erase_grades:
  assumes "\<forall>r \<in> set rs. reconciles r" and "erase_grades d1 = erase_grades d2"
  shows "erase_grades (run data py_int rs d1) = erase_grades (run data py_int rs d2)"
proof -
  have "erase_grades (run data py_int rs e) = run data py_int rs (erase_grades e)" for e
    unfolding erase_grades_def using run_regrade [of "\<lambda>g. None" rs data py_int e] assms(1)
    by simp
  with assms(2) show ?thesis by simp
qed

text \<open>
  C7. Through every run of reconciling requests (quiz grading, both join paths,
  assignment creation, the backfill of the classroom page) an existing submission keeps
  its \<open>grade_out_of_10\<close>. In particular, after the teacher has stored a grade \<open>v\<close>
  for a submission, the grade is \<open>v\<close> after any such run. And no such run reads a
  grade: it commutes with every regrading that leaves NULL alone (the run on the
  regraded store ends in the regrading of the store the run ends in on the original), and
  two stores that differ only in the stored grades differ only in the stored grades
  after the run.
\<close>

theorem reconciliation_keeps_grade:
  "(submission_for d a s = Some row \<and> (\<forall>r \<in> set rs. reconciles r) \<longrightarrow>
      (\<exists>row'. submission_for (run data py_int rs d) a s = Some row' \<and>
         grade_out_of_10 row' = grade_out_of_10 row)) \<and>
   (schema d \<and> sess_user_id sess = Some uid \<and> sess_role sess = Some ''Teacher'' \<and>
    grade = Some g \<and> py_int g = Some v \<and> 0 \<le> v \<and> v \<le> 10 \<and>
    s0 \<in> set (assignment_submissions d) \<and> submission_id s0 = sub \<and>
    a0 \<in> set (assignments d) \<and> assignment_id a0 = s_assignment_id s0 \<and>
    (\<forall>r \<in> set rs. reconciles r) \<longrightarrow>
      (\<exists>row'. submission_for
          (run data py_int rs (handle data py_int (TeacherGradeSubmission now_ts sess sub grade) d))
          (s_assignment_id s0) (s_student_id s0) = Some row' \<and>
         grade_out_of_10 row' = Some v)) \<and>
   (h None = None \<and> (\<forall>r \<in> set rs. reconciles r) \<longrightarrow>
      run data py_int rs (regrade h d) = regrade h (run data py_int rs d)) \<and>
   ((\<forall>r \<in> set rs. reconciles r) \<and> erase_grades d1 = erase_grades d2 \<longrightarrow>
      erase_grades (run data py_int rs d1) = erase_grades (run data py_int rs d2))"
proof (intro conjI impI)
  assume "submission_for d a s = Some row \<and> (\<forall>r \<in> set rs. reconciles r)"
  then show "\<exists>row'. submission_for (run data py_int rs d) a s = Some row' \<and>
         grade_out_of_10 row' = grade_out_of_10 row"
    using run_lookup [of d a s row data py_int rs] by auto
next
  assume h: "schema d \<and> sess_user_id sess = Some uid \<and> sess_role sess = Some ''Teacher'' \<and>
    grade = Some g \<and> py_int g = Some v \<and> 0 \<le> v \<and> v \<le> 10 \<and>
    s0 \<in> set (assignment_submissions d) \<and> submission_id s0 = sub \<and>
    a0 \<in> set (assignments d) \<and> assignment_id a0 = s_assignment_id s0 \<and>
    (\<forall>r \<in> set rs. reconciles r)"
  then have "submission_for (handle data py_int (TeacherGradeSubmission now_ts sess sub grade) d)
           (s_assignment_id s0) (s_student_id s0) = Some (s0\<lparr>grade_out_of_10 := Some v\<rparr>)"
    using teacher_grade_submission_lookup [of d sess uid grade g py_int v s0 sub a0 now_ts]
    by simp
  from run_lookup [OF this, of data py_int rs] h
  show "\<exists>row'. submission_for
          (run data py_int rs (handle data py_int (TeacherGradeSubmission now_ts sess sub grade) d))
          (s_assignment_id s0) (s_student_id s0) = Some row' \<and>
         grade_out_of_10 row' = Some v"
    by auto
next
  assume "h None = None \<and> (\<forall>r \<in> set rs. reconciles r)"
  then show "run data py_int rs (regrade h d) = regrade h (run data py_int rs d)"
    using run_regrade [of h rs data py_int d] by simp
next
  assume "(\<forall>r \<in> set rs. reconciles r) \<and> erase_grades d1 = erase_grades d2"
  then show "erase_grades (run data py_int rs d1) = erase_grades (run data py_int rs d2)"
    using run_erase_grades [of rs d1 d2 data py_int] by simp
qed

text \<open>
  The teacher grades the submission of user 7 with 8; user 7 then joins a second time,
  takes the quiz again and opens the classroom page; the teacher assigns the lesson once
  more. The same four requests on the store with every grade raised by one, and on the
  store with every grade set to 9.
\<close>

theorem reconciliation_keeps_grade_witness:
  "map_option grade_out_of_10 (submission_for graded_db 1 7) = Some (Some 5) \<and>
   (\<exists>row'. submission_for
      (run demo_lessons demo_int
         [JoinClassByCode demo_clock student7 ''AB12CD'',
          GradeQuiz demo_clock 739000 student7 ''python'' 3 form_17_right,
          StudentClassroomGet demo_clock student7,
          TeacherCreateAssignment demo_clock teacher1 1 ''python'' 3 None '''']
         (handle demo_lessons demo_int (TeacherGradeSubmission demo_clock teacher1 1 (Some ''8''))
            graded_db)) 1 7 = Some row' \<and>
      grade_out_of_10 row' = Some 8) \<and>
   run demo_lessons demo_int
     [JoinClassByCode demo_clock student7 ''AB12CD'',
      GradeQuiz demo_clock 739000 student7 ''python'' 3 form_17_right,
      StudentClassroomGet demo_clock student7,
      TeacherCreateAssignment demo_clock teacher1 1 ''python'' 3 None '''']
     (regrade (map_option (\<lambda>v. v + 1)) graded_db)
   = regrade (map_option (\<lambda>v. v + 1))
       (run demo_lessons demo_int
          [JoinClassByCode demo_clock student7 ''AB12CD'',
           GradeQuiz demo_clock 739000 student7 ''python'' 3 form_17_right,
           StudentClassroomGet demo_clock student7,
           TeacherCreateAssignment demo_clock teacher1 1 ''python'' 3 None '''']
          graded_db) \<and>
   erase_grades
     (run demo_lessons demo_int
        [JoinClassByCode demo_clock student7 ''AB12CD'',
         GradeQuiz demo_clock 739000 student7 ''python'' 3 form_17_right,
         StudentClassroomGet demo_clock student7,
         TeacherCreateAssignment demo_clock teacher1 1 ''python'' 3 None '''']
        graded_db)
   = erase_grades
       (run demo_lessons demo_int
          [JoinClassByCode demo_clock student7 ''AB12CD'',
           GradeQuiz demo_clock 739000 student7 ''python'' 3 form_17_right,
           StudentClassroomGet demo_clock student7,
           TeacherCreateAssignment demo_clock teacher1 1 ''python'' 3 None '''']
          (regrade (\<lambda>g. Some 9) graded_db))"
proof -
  let ?s = "\<lparr>submission_id = 1, s_assignment_id = 1, s_student_id = 7, status = ''completed'',
          completed_at = Some ''2024-01-03T08:00:00.000001'', score = Some 85,
          student_comment = None, grade_out_of_10 = Some 5\<rparr>"
  let ?a = "\<lparr>assignment_id = 1, a_classroom_id = 1, lesson_id = 3, lesson_lang = ''python'',
          due_date = None, a_comment = '''', a_created_at = ''2024-01-03T08:00:00''\<rparr>"
  let ?rs = "[JoinClassByCode demo_clock student7 ''AB12CD'',
          GradeQuiz demo_clock 739000 student7 ''python'' 3 form_17_right,
          StudentClassroomGet demo_clock student7,
          TeacherCreateAssignment demo_clock teacher1 1 ''python'' 3 None '''']"
  have row: "submission_for graded_db 1 7 = Some ?s"
    by (simp add: submission_for_def graded_db_def)
  have h: "schema graded_db \<and> sess_user_id teacher1 = Some 1 \<and>
    sess_role teacher1 = Some ''Teacher'' \<and>
    Some ''8'' = Some ''8'' \<and> demo_int ''8'' = Some 8 \<and> (0::int) \<le> 8 \<and> (8::int) \<le> 10 \<and>
    ?s \<in> set (assignment_submissions graded_db) \<and> submission_id ?s = 1 \<and>
    ?a \<in> set (assignments graded_db) \<and> assignment_id ?a = s_assignment_id ?s \<and>
    (\<forall>r \<in> set ?rs. reconciles r)"
    by (intro conjI)
       (simp_all add: schema_graded_db teacher1_def demo_int_def,
        simp_all add: graded_db_def demo_db_def empty_db_def)
  have er: "erase_grades graded_db = erase_grades (regrade (\<lambda>g. Some 9) graded_db)"
    by (simp add: erase_grades_def regrade_def regrade_row_def)
  have n: "map_option (\<lambda>v. v + 1) None = (None :: int option)"
    by simp
  from reconciliation_keeps_grade [where d = graded_db and a = 1 and s = 7 and row = ?s
      and rs = ?rs and data = demo_lessons and py_int = demo_int and sess = teacher1 and uid = 1
      and grade = "Some ''8''" and g = "''8''" and v = 8 and ?s0.0 = ?s and sub = 1
      and ?a0.0 = ?a and now_ts = demo_clock and h = "map_option (\<lambda>v. v + 1)"
      and ?d1.0 = graded_db and ?d2.0 = "regrade (\<lambda>g. Some 9) graded_db"] h row er n
  show ?thesis by simp
qed

section \<open>Running a reconciliation twice\<close>

lemma reconcile_twice:
  assumes "fst st2 = fst (reconcile now_ts aid lang lid sid st)"
  shows "assignment_submissions (fst (reconcile now_ts' aid lang lid sid st2))
           = assignment_submissions (fst (reconcile now_ts aid lang lid sid st))"
  using reconcile_rows_unchanged [of st2 aid sid now_ts' lang lid]
    reconcile_present [of now_ts aid lang lid sid st] assms
  by simp

lemma ensure_assignment_submissions_twice:
  assumes "fst st2 = fst (ensure_assignment_submissions now_ts aid cid lang lid st)"
  shows "assignment_submissions (fst (ensure_assignment_submissions now_ts' aid cid lang lid st2))
           = assignment_submissions (fst (ensure_assignment_submissions now_ts aid cid lang lid st))"
proof -
  obtain d k where st: "st = (d, k)" by (cases st)
  obtain d2 k2 where st2: "st2 = (d2, k2)" by (cases st2)
  let ?xs = "filter (\<lambda>cs. cs_classroom_id cs = cid) (classroom_students d)"
  let ?F = "\<lambda>nw. (\<lambda>student. reconcile nw aid lang lid (cs_student_id student))"
  have d2: "d2 = fst (fold (?F now_ts) ?xs (d, k))"
    using assms by (simp add: st st2 ensure_assignment_submissions_def)
  then have members: "classroom_students d2 = classroom_students d" by simp
  have "\<forall>x \<in> set ?xs. submission_for (fst (d2, k2)) aid (cs_student_id x) \<noteq> None"
    unfolding d2 fst_conv
    by (intro ballI fold_reconcile_present [where fa = "\<lambda>_. aid" and fs = cs_student_id])
  from fold_reconcile_rows_unchanged [where fa = "\<lambda>_. aid" and fs = cs_student_id
      and fl = "\<lambda>_. lang" and fi = "\<lambda>_. lid" and now_ts = now_ts', OF this]
  show ?thesis
    by (simp add: st st2 ensure_assignment_submissions_def members) (simp add: d2)
qed

lemma join_classroom_twice:
  "assignment_submissions (join_classroom now_ts' cid uid (join_classroom now_ts cid uid d))
     = assignment_submissions (join_classroom now_ts cid uid d)"
proof -
  let ?d1 = "join_classroom now_ts cid uid d"
  let ?xs = "filter (\<lambda>a. a_classroom_id a = cid) (assignments d)"
  have member: "\<exists>cs \<in> set (classroom_students ?d1). cs_classroom_id cs = cid \<and> cs_student_id cs = uid"
    by (auto simp: insert_or_ignore_classroom_student_def)
  then have noop: "insert_or_ignore_classroom_student ?d1 cid uid (now_ts' 0) = ?d1"
    by (simp only: insert_or_ignore_classroom_student_def if_True)
  have "\<forall>x \<in> set ?xs. submission_for (fst (?d1, 1::nat)) (assignment_id x) uid \<noteq> None"
    unfolding fst_conv join_classroom_def Let_def
    using fold_reconcile_present [where fa = assignment_id and fs = "\<lambda>_. uid"
        and fl = lesson_lang and fi = lesson_id and now_ts = now_ts
        and xs = ?xs and st = "(insert_or_ignore_classroom_student d cid uid (now_ts 0), 1)"]
    by simp
  from fold_reconcile_rows_unchanged [where fa = assignment_id and fs = "\<lambda>_. uid"
      and fl = lesson_lang and fi = lesson_id and now_ts = now_ts', OF this]
  show ?thesis
    by (subst (1) join_classroom_def) (simp add: Let_def noop)
qed

section \<open>The feed of a student\<close>

lemma count_list_newest_first:
  "count_list (rev (sort_key f (rev xs))) x = count_list xs x"
  by (simp add: count_list_eq_length_filter filter_sort rev_filter [symmetric])

lemma get_stream_posts_for_student_rows:
  assumes "distinct (map user_id (users d))" and "distinct (map classroom_id (classrooms d))"
  shows "get_stream_posts_for_student d classroom_ids sid =
     (if classroom_ids = [] then []
      else take 30 (rev (sort_key sp_created_at (rev
        (filter (\<lambda>p. author_id p \<in> set (map user_id (users d)) \<and>
                       sp_classroom_id p \<in> set (map classroom_id (classrooms d)) \<and>
                       selected classroom_ids sid p) (stream_posts d))))))"
  unfolding get_stream_posts_for_student_def feed_rows_joined [OF assms] ..

lemma feed_rows_selected:
  "p \<in> set (get_stream_posts_for_student d classroom_ids sid) \<Longrightarrow>
   p \<in> set (stream_posts d) \<and> selected classroom_ids sid p"
  by (auto simp: get_stream_posts_for_student_def selected_def dest!: in_set_takeD
           split: if_splits)

lemma joined_classroom_ids_iff:
  "cid \<in> set (joined_classroom_ids d sid) \<longleftrightarrow>
     cid \<in> set (map classroom_id (classrooms d)) \<and> joined d sid cid"
  by (auto simp: joined_classroom_ids_def joined_def)

lemma student_feed_query:
  assumes "sess_user_id sess = Some sid" and "sess_role sess = Some ''Student''"
  shows "student_feed now_ts sess d =
     get_stream_posts_for_student d (joined_classroom_ids d sid) sid"
proof -
  let ?st = "fold (backfill_row now_ts sid) (student_assignment_rows d sid) (d, 0, [])"
  have "student_feed now_ts sess d =
      get_stream_posts_for_student (fst ?st) (joined_classroom_ids d sid) sid"
    using assms
    by (simp add: student_feed_def student_classroom_get_def require_role_def Let_def
          split_beta joined_classroom_ids_def)
  also have "\<dots> = get_stream_posts_for_student d (joined_classroom_ids d sid) sid"
    by (simp add: get_stream_posts_for_student_def)
  finally show ?thesis .
qed

lemma student_feed_visible:
  assumes "sess_user_id sess = Some sid" and "sess_role sess = Some ''Student''"
    and "p \<in> set (student_feed now_ts sess d)"
  shows "p \<in> set (stream_posts d) \<and> visible_to d sid p"
  using feed_rows_selected [of p d "joined_classroom_ids d sid" sid] assms(3)
  unfolding student_feed_query [OF assms(1,2)]
  by (simp add: selected_def visible_to_def joined_classroom_ids_iff)

lemma student_feed_newest_visible:
  assumes "sess_user_id sess = Some sid" and "sess_role sess = Some ''Student''"
    and "schema d" and "posts_joinable d sid"
  shows "student_feed now_ts sess d =
     take 30 (rev (sort_key sp_created_at (rev (filter (visible_to d sid) (stream_posts d)))))"
proof -
  let ?ids = "joined_classroom_ids d sid"
  from assms(3) have keys: "distinct (map user_id (users d))"
    "distinct (map classroom_id (classrooms d))"
    by (simp_all add: schema_def)
  have flt: "filter (\<lambda>p. author_id p \<in> set (map user_id (users d)) \<and>
                       sp_classroom_id p \<in> set (map classroom_id (classrooms d)) \<and>
                       selected ?ids sid p) (stream_posts d)
        = filter (visible_to d sid) (stream_posts d)"
    using assms(4)
    by (intro filter_cong refl)
       (auto simp: posts_joinable_def visible_to_def selected_def joined_classroom_ids_iff)
  have none: "filter (visible_to d sid) (stream_posts d) = []" if "?ids = []"
  proof -
    have "\<not> visible_to d sid p" if "p \<in> set (stream_posts d)" for p
    proof
      assume v: "visible_to d sid p"
      with assms(4) that have "sp_classroom_id p \<in> set (map classroom_id (classrooms d))"
        by (auto simp: posts_joinable_def)
      with v have "sp_classroom_id p \<in> set ?ids"
        by (simp add: joined_classroom_ids_iff visible_to_def)
      with \<open>?ids = []\<close> show False by simp
    qed
    then show ?thesis by (simp add: filter_empty_conv)
  qed
  show ?thesis
    unfolding student_feed_query [OF assms(1,2)] get_stream_posts_for_student_rows [OF keys] flt
    by (cases "?ids = []") (simp_all add: none)
qed

text \<open>
  C9. The feed of a logged-in student, as the classroom page computes it with the ids of
  the classrooms the student has joined. Every item is a post of a joined classroom, for
  the class or addressed to this student, and no class-wide grade post; the items are at
  most 30, newest first; a post addressed to another student is not among them, whatever
  classrooms the two share. Where the tables satisfy their key constraints and the
  author and the classroom of every post for the student exist (the two inner joins then
  drop nothing), the feed is exactly the first 30 of an arrangement, newest first, of
  all the posts for the student, and a post for the student that is left out is no newer
  than any item shown.
\<close>

theorem student_feed_contract:
  assumes "sess_user_id sess = Some sid" and "sess_role sess = Some ''Student''"
    and "feed = student_feed now_ts sess d"
  shows "set feed \<subseteq> {p \<in> set (stream_posts d). visible_to d sid p} \<and>
     length feed \<le> 30 \<and>
     newest_first feed \<and>
     (audience p = ''student'' \<and> sp_student_id p = Some s1 \<and> s1 \<noteq> sid \<longrightarrow> p \<notin> set feed) \<and>
     (schema d \<and> posts_joinable d sid \<longrightarrow>
        (\<exists>ys. feed = take 30 ys \<and> newest_first ys \<and>
           (\<forall>q. count_list ys q = count_list (filter (visible_to d sid) (stream_posts d)) q)) \<and>
        (p \<in> set (stream_posts d) \<and> visible_to d sid p \<and> p \<notin> set feed \<longrightarrow>
           length feed = 30 \<and> (\<forall>q \<in> set feed. sp_created_at p \<le> sp_created_at q)))"
proof (intro conjI impI)
  show "set feed \<subseteq> {p \<in> set (stream_posts d). visible_to d sid p}"
    using student_feed_visible [OF assms(1,2)] assms(3) by blast
next
  show "length feed \<le> 30"
    unfolding assms(3) student_feed_query [OF assms(1,2)]
    by (simp add: get_stream_posts_for_student_def)
next
  show "newest_first feed"
    unfolding assms(3) student_feed_query [OF assms(1,2)] newest_first_def
    by (simp add: get_stream_posts_for_student_def newest_first_sorted)
next
  assume "audience p = ''student'' \<and> sp_student_id p = Some s1 \<and> s1 \<noteq> sid"
  then show "p \<notin> set feed"
    using student_feed_visible [OF assms(1,2), of p now_ts d] assms(3)
    by (auto simp: visible_to_def)
next
  let ?vis = "filter (visible_to d sid) (stream_posts d)"
  let ?ys = "rev (sort_key sp_created_at (rev ?vis))"
  assume h: "schema d \<and> posts_joinable d sid"
  then have eq: "feed = take 30 ?ys"
    using student_feed_newest_visible [OF assms(1,2)] assms(3) by simp
  have "newest_first ?ys"
    using newest_first_sorted [of sp_created_at "length ?ys" "rev ?vis"]
    by (simp add: newest_first_def)
  moreover have "\<forall>q. count_list ?ys q = count_list ?vis q"
    by (intro allI count_list_newest_first)
  ultimately
  show "\<exists>ys. feed = take 30 ys \<and> newest_first ys \<and>
           (\<forall>q. count_list ys q = count_list (filter (visible_to d sid) (stream_posts d)) q)"
    using eq by blast
  assume "p \<in> set (stream_posts d) \<and> visible_to d sid p \<and> p \<notin> set feed"
  then have "p \<in> set (rev ?vis)" and "p \<notin> set (take 30 (rev (sort_key sp_created_at (rev ?vis))))"
    by (simp_all add: eq)
  from newest_first_cut [OF this]
  show "length feed = 30" and "\<forall>q \<in> set feed. sp_created_at p \<le> sp_created_at q"
    by (simp_all add: eq)
qed

lemma schema_feed_db: "schema feed_db"
  by (simp add: schema_def feed_db_def demo_db_def empty_db_def)

lemma schema_busy_db: "schema busy_db"
  by (simp add: schema_def busy_db_def feed_db_def demo_db_def empty_db_def)

lemma feed_db_joinable: "posts_joinable feed_db 8" "posts_joinable feed_db 7"
  by (simp_all add: feed_db_def demo_db_def empty_db_def posts_joinable_def post_announcement_def
        post_grade7_def post_grade_class_def)

lemma busy_db_joinable: "posts_joinable busy_db 8"
  by (auto simp: busy_db_def feed_db_def demo_db_def empty_db_def posts_joinable_def
        post_announcement_def post_grade7_def post_grade_class_def post_later_def post_last_def)

lemma feed_db_feeds:
  "student_feed demo_clock student8 feed_db = [post_announcement]"
  "student_feed demo_clock student7 feed_db = [post_grade7, post_announcement]"
  by code_simp+

lemma busy_db_feed:
  "student_feed demo_clock student8 busy_db = replicate 30 post_later"
  by code_simp

text \<open>
  User 8 sees the announcement and not the grade of user 7, who sees both, the grade
  first. After thirty later announcements and one more of the same microsecond, the
  feed of user 8 is the thirty: the first announcement is still a post for user 8 but
  older than every item, and of the posts of equal time the last inserted is cut.
\<close>

theorem student_feed_contract_witness:
  "student_feed demo_clock student8 feed_db = [post_announcement] \<and>
   student_feed demo_clock student7 feed_db = [post_grade7, post_announcement] \<and>
   post_grade7 \<notin> set (student_feed demo_clock student8 feed_db) \<and>
   post_announcement \<in> set (stream_posts busy_db) \<and> visible_to busy_db 8 post_announcement \<and>
   student_feed demo_clock student8 busy_db = replicate 30 post_later \<and>
   length (student_feed demo_clock student8 busy_db) = 30 \<and>
   sp_created_at post_announcement \<le> sp_created_at post_later"
proof -
  have s8: "sess_user_id student8 = Some 8" "sess_role student8 = Some ''Student''"
    by (simp_all add: student8_def)
  have g: "audience post_grade7 = ''student'' \<and> sp_student_id post_grade7 = Some 7 \<and> (7::nat) \<noteq> 8"
    by (simp add: post_grade7_def)
  from student_feed_contract [OF s8 refl, of demo_clock feed_db post_grade7 7] g
  have a: "post_grade7 \<notin> set (student_feed demo_clock student8 feed_db)"
    by blast
  have v: "post_announcement \<in> set (stream_posts busy_db)" "visible_to busy_db 8 post_announcement"
    by (simp_all add: busy_db_def feed_db_def visible_to_def joined_def post_announcement_def)
  have "post_announcement \<noteq> post_later"
    by (simp add: post_announcement_def post_later_def)
  then have n: "post_announcement \<notin> set (student_feed demo_clock student8 busy_db)"
    unfolding busy_db_feed by simp
  from student_feed_contract [OF s8 refl, of demo_clock busy_db post_announcement 7]
    schema_busy_db busy_db_joinable v n
  have "length (student_feed demo_clock student8 busy_db) = 30 \<and>
    (\<forall>q \<in> set (student_feed demo_clock student8 busy_db).
       sp_created_at post_announcement \<le> sp_created_at q)"
    by blast
  then have "length (student_feed demo_clock student8 busy_db) = 30 \<and>
    sp_created_at post_announcement \<le> sp_created_at post_later"
    unfolding busy_db_feed by simp
  with a v show ?thesis
    by (simp add: feed_db_feeds busy_db_feed)
qed

end
